(* ===== verification/Aveo_Prelude.thy ===== *)
theory Aveo_Prelude
  imports Main "HOL-Library.Word"
begin

text \<open>
  Shared vocabulary of the development: machine integers at the widths the sources use, the
  constants and enumerations of \<^verbatim>\<open>ve_offload.h\<close>, the exceptions a C++ routine can leave by,
  flat byte memory with \<^verbatim>\<open>memcpy\<close>, the \<^verbatim>\<open>std::string\<close> operations used to build stack
  images, little-endian encoding, and the generic lemmas the component theories rely on.
\<close>

unbundle bit_operations_syntax

named_theorems const_defs \<open>numeric constants of the sources\<close>
named_theorems mem_simps \<open>reads over writes in flat memory\<close>
named_theorems str_simps \<open>closed forms of the string operations\<close>

type_synonym byte = "8 word"
type_synonym u16 = "16 word"
type_synonym u32 = "32 word"
type_synonym u64 = "64 word"
type_synonym bytes = "byte list"
type_synonym mem = "u64 \<Rightarrow> byte"

section \<open>Constants and enumerations\<close>

definition VEO_REQUEST_ID_INVALID :: u64 where
  [const_defs]: "VEO_REQUEST_ID_INVALID = NOT 0"

definition VEO_SYMNAME_LEN_MAX :: nat where
  [const_defs]: "VEO_SYMNAME_LEN_MAX = 255"

datatype veo_context_state =
  VEO_STATE_UNKNOWN | VEO_STATE_RUNNING | VEO_STATE_SYSCALL | VEO_STATE_BLOCKED | VEO_STATE_EXIT

datatype veo_command_state =
  VEO_COMMAND_OK | VEO_COMMAND_EXCEPTION | VEO_COMMAND_ERROR | VEO_COMMAND_UNFINISHED

datatype veo_args_intent = VEO_INTENT_IN | VEO_INTENT_INOUT | VEO_INTENT_OUT

text \<open>The errno values the sources name (Linux).\<close>

definition EAGAIN :: int where [const_defs]: "EAGAIN = 11"
definition EFAULT :: int where [const_defs]: "EFAULT = 14"
definition EBUSY :: int where [const_defs]: "EBUSY = 16"
definition EINVAL :: int where [const_defs]: "EINVAL = 22"
definition ENAMETOOLONG :: int where [const_defs]: "ENAMETOOLONG = 36"
definition ENOTSUP :: int where [const_defs]: "ENOTSUP = 95"

text \<open>
  The ways a routine can fail to return: a \<^verbatim>\<open>VEOException\<close> with its saved errno, the standard
  exceptions (a call of an empty \<^verbatim>\<open>std::function\<close> among them), an
  \<^verbatim>\<open>abort()\<close>, and the memory errors C++ leaves undefined.
\<close>

datatype exc =
    VEOException int
  | StdLengthError
  | StdOutOfRange
  | StdInvalidArgument
  | NullDeref
  | OutOfBounds
  | BadFunctionCall
  | Uninitialized
  | Aborted

text \<open>Sequencing of computations that can raise.\<close>

definition bind_exc :: "exc + 'a \<Rightarrow> ('a \<Rightarrow> exc + 'b) \<Rightarrow> exc + 'b" where
  "bind_exc r f = (case r of Inl e \<Rightarrow> Inl e | Inr a \<Rightarrow> f a)"

lemma bind_exc_simps [simp]:
  "bind_exc (Inl e) f = Inl e"
  "bind_exc (Inr a) f = f a"
  by (simp_all add: bind_exc_def)

lemma bind_exc_eq_Inr:
  "bind_exc r f = Inr b \<longleftrightarrow> (\<exists>a. r = Inr a \<and> f a = Inr b)"
  by (cases r) auto

section \<open>Word arithmetic\<close>

lemma unat_of_nat64 [simp]: "n < 2 ^ 64 \<Longrightarrow> unat (of_nat n :: u64) = n"
  by (simp add: unat_of_nat take_bit_nat_eq_self)

lemma unat_add64: "unat (a :: u64) + unat b < 2 ^ 64 \<Longrightarrow> unat (a + b) = unat a + unat b"
  by (simp add: unat_word_ariths)

lemma unat_sub64: "(b :: u64) \<le> a \<Longrightarrow> unat (a - b) = unat a - unat b"
  by (rule unat_sub)

lemma unat_lt_2p64: "unat (x :: u64) < 18446744073709551616"
  using unsigned_less [of x] by simp

lemma unat_minus_of_nat:
  fixes x a :: u64
  assumes "n < 2 ^ 64"
  shows "unat (x - (a + of_nat n)) =
    (if n \<le> unat (x - a) then unat (x - a) - n else unat (x - a) + 2 ^ 64 - n)"
proof -
  define k where "k = x - a"
  have n: "unat (of_nat n :: u64) = n" using assms by simp
  have "x - (a + of_nat n) = k - of_nat n" by (simp add: k_def)
  then have "unat (x - (a + of_nat n)) =
      (if n \<le> unat k then unat k - n else unat k + 2 ^ 64 - n)"
    using n by (simp only: unat_sub_if_size word_size) simp
  then show ?thesis by (simp only: k_def)
qed

section \<open>Flat memory and memcpy\<close>

definition mem_read :: "mem \<Rightarrow> u64 \<Rightarrow> nat \<Rightarrow> bytes" where
  "mem_read m a n = map (\<lambda>i. m (a + of_nat i)) [0..<n]"

definition mem_write :: "mem \<Rightarrow> u64 \<Rightarrow> bytes \<Rightarrow> mem" where
  "mem_write m a bs = (\<lambda>x. if unat (x - a) < length bs then bs ! unat (x - a) else m x)"

text \<open>Byte by byte, for evaluation.\<close>

lemma mem_write_code [code]:
  "mem_write m a [] = m"
  "mem_write m a (b # bs) = (mem_write m (a + 1) bs)(a := b)"
proof -
  have "unat (x - a) = Suc (unat (x - (a + 1)))" if "x \<noteq> a" for x
  proof -
    have "1 + (x - (a + 1)) = x - a" "x - a \<noteq> 0" using that by simp_all
    then show ?thesis using unatSuc [of "x - (a + 1)"] by simp
  qed
  then show "mem_write m a (b # bs) = (mem_write m (a + 1) bs)(a := b)"
    by (auto simp: mem_write_def fun_eq_iff)
qed (simp add: mem_write_def)

lemma length_mem_read [simp]: "length (mem_read m a n) = n"
  by (simp add: mem_read_def)

lemma nth_mem_read [simp]: "i < n \<Longrightarrow> mem_read m a n ! i = m (a + of_nat i)"
  by (simp add: mem_read_def)

lemma mem_write_Nil [mem_simps]: "mem_write m a [] = m"
  by (simp add: mem_write_def)

lemma mem_write_at:
  "i < length bs \<Longrightarrow> length bs \<le> 2 ^ 64 \<Longrightarrow> mem_write m a bs (a + of_nat i) = bs ! i"
  by (simp add: mem_write_def)

lemma mem_read_write_same [mem_simps]:
  "length bs \<le> 2 ^ 64 \<Longrightarrow> mem_read (mem_write m a bs) a (length bs) = bs"
  by (rule nth_equalityI) (auto simp: mem_write_at)

lemma mem_write_outside:
  "length bs \<le> unat (x - a) \<Longrightarrow> mem_write m a bs x = m x"
  by (simp add: mem_write_def)

lemma mem_write_append:
  assumes "length xs + length ys \<le> 2 ^ 64"
  shows "mem_write (mem_write m a xs) (a + of_nat (length xs)) ys = mem_write m a (xs @ ys)"
proof (cases "length xs < 2 ^ 64")
  case True
  show ?thesis
  proof
    fix x
    show "mem_write (mem_write m a xs) (a + of_nat (length xs)) ys x = mem_write m a (xs @ ys) x"
      using assms True unsigned_less [of "x - a"]
      by (auto simp: mem_write_def unat_minus_of_nat nth_append)
  qed
next
  case False
  with assms have "length ys = 0" by linarith
  then have ys: "ys = []" by simp
  show ?thesis by (simp add: mem_write_Nil ys)
qed

lemma mem_read_append:
  "mem_read m a (n + k) = mem_read m a n @ mem_read m (a + of_nat n) k"
  by (rule nth_equalityI) (auto simp: nth_append algebra_simps)

lemma take_mem_read: "k \<le> n \<Longrightarrow> take k (mem_read m a n) = mem_read m a k"
  by (rule nth_equalityI) auto

lemma drop_mem_read:
  "k \<le> n \<Longrightarrow> drop k (mem_read m a n) = mem_read m (a + of_nat k) (n - k)"
  by (rule nth_equalityI) (auto simp: algebra_simps)

text \<open>Two neighbouring writes in the other order.\<close>

lemma mem_write_split:
  assumes "j \<le> n" "n \<le> 2 ^ 64" "j < 2 ^ 64"
  shows "mem_write (mem_write m (a + of_nat j) (mem_read s (b + of_nat j) (n - j))) a (mem_read s b j) =
    mem_write m a (mem_read s b n)"
proof
  fix x
  show "mem_write (mem_write m (a + of_nat j) (mem_read s (b + of_nat j) (n - j))) a (mem_read s b j) x =
      mem_write m a (mem_read s b n) x"
  proof (cases "j \<le> unat (x - a)")
    case True
    then have u: "unat (x - (a + of_nat j)) = unat (x - a) - j" using unat_minus_of_nat [OF assms(3), of x a] by simp
    have "of_nat j + of_nat (unat (x - a) - j) = (of_nat (unat (x - a)) :: u64)" using True by (simp flip: of_nat_add)
    then have "b + of_nat j + of_nat (unat (x - a) - j) = b + (x - a)" by (simp add: add.assoc)
    then show ?thesis using True u by (auto simp: mem_write_def)
  next
    case False
    then show ?thesis using assms(1) by (auto simp: mem_write_def)
  qed
qed

text \<open>Two byte ranges that share no address.\<close>

definition disjoint_ranges :: "u64 \<Rightarrow> nat \<Rightarrow> u64 \<Rightarrow> nat \<Rightarrow> bool" where
  "disjoint_ranges a n b k \<longleftrightarrow> k \<le> unat (a - b) \<and> n \<le> unat (b - a)"

lemma mem_read_write_disjoint [mem_simps]:
  assumes "disjoint_ranges a n b (length bs)"
  shows "mem_read (mem_write m b bs) a n = mem_read m a n"
proof (rule nth_equalityI)
  fix i assume "i < length (mem_read (mem_write m b bs) a n)"
  then have i: "i < n" by simp
  from assms have le: "length bs \<le> unat (a - b)" and n: "n \<le> unat (b - a)"
    by (auto simp: disjoint_ranges_def)
  have "unat (b - a) + unat (a - b) \<le> 2 ^ 64"
    using unat_lt_2p64 [of a] unat_lt_2p64 [of b] by (auto simp: unat_sub_if_size word_size)
  moreover have "unat (b - a) < 2 ^ 64" using unsigned_less [of "b - a"] by simp
  ultimately have "unat (a - b) + i < 2 ^ 64" "i < 2 ^ 64" using i n by linarith+
  then have "unat (a + of_nat i - b) = unat (a - b) + i"
    using unat_add64 [of "a - b" "of_nat i"] by (simp add: algebra_simps)
  then have "mem_write m b bs (a + of_nat i) = m (a + of_nat i)"
    using le by (intro mem_write_outside) simp
  then show "mem_read (mem_write m b bs) a n ! i = mem_read m a n ! i" using i by simp
qed simp

section \<open>std::string\<close>

definition str_resize :: "bytes \<Rightarrow> nat \<Rightarrow> bytes" where
  "str_resize s n = take n s @ replicate (n - length s) 0"

text \<open>\<^verbatim>\<open>s.replace(pos, len, xs)\<close>: at most \<^verbatim>\<open>len\<close> bytes from \<^verbatim>\<open>pos\<close> on are exchanged.\<close>

definition str_replace :: "bytes \<Rightarrow> nat \<Rightarrow> nat \<Rightarrow> bytes \<Rightarrow> exc + bytes" where
  "str_replace s pos len xs =
     (if length s < pos then Inl StdOutOfRange else Inr (take pos s @ xs @ drop (pos + len) s))"

lemma length_str_resize [simp]: "length (str_resize s n) = n"
  by (simp add: str_resize_def)

lemma str_resize_le: "length s \<le> n \<Longrightarrow> str_resize s n = s @ replicate (n - length s) 0"
  by (simp add: str_resize_def)

lemma str_replace_ok [str_simps]:
  "pos \<le> length s \<Longrightarrow> str_replace s pos len xs = Inr (take pos s @ xs @ drop (pos + len) s)"
  by (simp add: str_replace_def)

text \<open>Overwriting a run of bytes in place, and what later reads see.\<close>

definition put_at :: "bytes \<Rightarrow> nat \<Rightarrow> bytes \<Rightarrow> bytes" where
  "put_at s pos xs = take pos s @ xs @ drop (pos + length xs) s"

definition get_at :: "bytes \<Rightarrow> nat \<Rightarrow> nat \<Rightarrow> bytes" where
  "get_at s pos n = take n (drop pos s)"

lemma length_put_at [simp]:
  "pos + length xs \<le> length s \<Longrightarrow> length (put_at s pos xs) = length s"
  by (simp add: put_at_def)

lemma get_put_same [str_simps]:
  "pos \<le> length s \<Longrightarrow> get_at (put_at s pos xs) pos (length xs) = xs"
  by (simp add: get_at_def put_at_def)

lemma get_put_other [str_simps]:
  assumes "pos + length xs \<le> length s" "q + n \<le> pos \<or> pos + length xs \<le> q"
  shows "get_at (put_at s pos xs) q n = get_at s q n"
proof (rule nth_equalityI)
  show "length (get_at (put_at s pos xs) q n) = length (get_at s q n)"
    using assms(1) by (simp add: get_at_def)
next
  fix i assume "i < length (get_at (put_at s pos xs) q n)"
  then show "get_at (put_at s pos xs) q n ! i = get_at s q n ! i"
    using assms by (auto simp: get_at_def put_at_def nth_append)
qed

lemma get_at_append [str_simps]:
  "pos + n \<le> length s \<Longrightarrow> get_at (s @ t) pos n = get_at s pos n"
  by (simp add: get_at_def)

lemma get_at_get_at:
  "i + k \<le> n \<Longrightarrow> get_at (get_at s p n) i k = get_at s (p + i) k"
  by (simp add: get_at_def drop_take min_def add.commute)

lemma length_get_at [simp]: "pos + n \<le> length s \<Longrightarrow> length (get_at s pos n) = n"
  by (simp add: get_at_def)

section \<open>Numbers in C strings\<close>

text \<open>Conversion to \<^verbatim>\<open>int\<close>.\<close>

definition to_int32 :: "int \<Rightarrow> int" where
  "to_int32 i = signed_take_bit 31 i"

definition is_space :: "char \<Rightarrow> bool" where
  "is_space c = (let n = of_char c :: nat in n = 32 \<or> (9 \<le> n \<and> n \<le> 13))"

definition is_digit :: "char \<Rightarrow> bool" where
  "is_digit c = (let n = of_char c :: nat in 48 \<le> n \<and> n \<le> 57)"

definition digits_value :: "string \<Rightarrow> int" where
  "digits_value ds = fold (\<lambda>c acc. 10 * acc + (of_char c - 48)) ds 0"

text \<open>
  White space, an optional sign, decimal digits: what \<^verbatim>\<open>atoi\<close>, \<^verbatim>\<open>std::stoi\<close> and
  \<^verbatim>\<open>strtol(_, _, 10)\<close> read. \<open>None\<close> when there is no digit; the rest is the unread part. The
  conversion of a number outside the type of the result is left to the callers.
\<close>

definition scan_int :: "string \<Rightarrow> (int \<times> string) option" where
  "scan_int str =
     (let s0 = dropWhile is_space str;
          (neg, s1) = (case s0 of [] \<Rightarrow> (False, [])
                       | c # cs \<Rightarrow> if c = CHR ''-'' then (True, cs)
                                  else if c = CHR ''+'' then (False, cs) else (False, s0));
          ds = takeWhile is_digit s1
      in if ds = [] then None
         else Some (if neg then - digits_value ds else digits_value ds, dropWhile is_digit s1))"

definition atoi :: "string \<Rightarrow> int" where
  "atoi str = (case scan_int str of None \<Rightarrow> 0 | Some (n, _) \<Rightarrow> n)"

text \<open>\<^verbatim>\<open>std::stoi\<close> throws when there is no number or it does not fit an \<^verbatim>\<open>int\<close>.\<close>

definition stoi :: "string \<Rightarrow> exc + int" where
  "stoi str = (case scan_int str of
     None \<Rightarrow> Inl StdInvalidArgument
   | Some (n, _) \<Rightarrow> if - (2 ^ 31) \<le> n \<and> n < 2 ^ 31 then Inr n else Inl StdOutOfRange)"

section \<open>Little-endian encoding\<close>

definition le_bytes :: "nat \<Rightarrow> u64 \<Rightarrow> bytes" where
  "le_bytes n w = map (\<lambda>i. ucast (drop_bit (8 * i) w)) [0..<n]"

fun le_word :: "bytes \<Rightarrow> u64" where
  "le_word [] = 0"
| "le_word (b # bs) = ucast b OR push_bit 8 (le_word bs)"

lemma length_le_bytes [simp]: "length (le_bytes n w) = n"
  by (simp add: le_bytes_def)

lemma le_bytes_Suc: "le_bytes (Suc n) w = ucast w # le_bytes n (drop_bit 8 w)"
  by (simp add: le_bytes_def upt_conv_Cons map_Suc_upt [symmetric] add.commute comp_def del: upt_Suc)

lemma le_word_le_bytes: "le_word (le_bytes n w) = take_bit (8 * n) w"
proof (induction n arbitrary: w)
  case 0
  then show ?case by (simp add: le_bytes_def)
next
  case (Suc n)
  show ?case by (rule bit_word_eqI) (auto simp: le_bytes_Suc Suc.IH bit_simps)
qed

text \<open>
  A fixed-width codec: what the stack images and the message payloads rely on. The client lemma
  is that a value put at an offset of a buffer is the value read back there, and that writes at
  other offsets leave it alone.
\<close>

locale byte_codec =
  fixes enc :: "'v \<Rightarrow> bytes" and dec :: "bytes \<Rightarrow> 'v" and width :: nat
  assumes length_enc: "length (enc v) = width"
    and dec_enc: "dec (enc v) = v"
begin

lemma read_back: "pos \<le> length s \<Longrightarrow> dec (get_at (put_at s pos (enc v)) pos width) = v"
  using get_put_same [of pos s "enc v"] by (simp add: length_enc dec_enc)

lemma enc_inj: "enc v = enc v' \<longleftrightarrow> v = v'"
  using dec_enc by metis

end

interpretation le64: byte_codec "le_bytes 8" le_word 8
  by unfold_locales (auto simp: le_word_le_bytes intro!: bit_word_eqI simp: bit_simps)

interpretation le32: byte_codec "\<lambda>w :: u32. le_bytes 4 (ucast w)" "\<lambda>bs. ucast (le_word bs)" 4
  by unfold_locales (auto simp: le_word_le_bytes intro!: bit_word_eqI simp: bit_simps)

interpretation le16: byte_codec "\<lambda>w :: u16. le_bytes 2 (ucast w)" "\<lambda>bs. ucast (le_word bs)" 2
  by unfold_locales (auto simp: le_word_le_bytes intro!: bit_word_eqI simp: bit_simps)

interpretation le8: byte_codec "\<lambda>w :: byte. le_bytes 1 (ucast w)" "\<lambda>bs. ucast (le_word bs)" 1
  by unfold_locales (auto simp: le_word_le_bytes intro!: bit_word_eqI simp: bit_simps)

section \<open>Transition systems\<close>

text \<open>
  A labelled step function or relation with an invariant: every state reached from a state that
  satisfies it satisfies it. Each stateful component interprets this on its own steps.
\<close>

locale step_invariant =
  fixes step :: "'s \<Rightarrow> 's \<Rightarrow> bool" and invar :: "'s \<Rightarrow> bool"
  assumes step_invar: "invar s \<Longrightarrow> step s t \<Longrightarrow> invar t"
begin

lemma steps_invar: "step\<^sup>*\<^sup>* s t \<Longrightarrow> invar s \<Longrightarrow> invar t"
  by (induction rule: rtranclp_induct) (auto intro: step_invar)

end

end
