(* ===== verification/Call_Args.thy ===== *)
theory Call_Args
  imports Aveo_Prelude
begin

text \<open>
  Arguments of a VE function call (\<^verbatim>\<open>CallArgs.hpp\<close>, \<^verbatim>\<open>CallArgs.cpp\<close>): the argument vector, the
  register values, the image of the VE stack frame and the copy-out of stack buffers.

  An argument of class \<^verbatim>\<open>ArgType<T>\<close> is a constructor of \<open>arg\<close> for each instantiated \<open>T\<close>, with
  the value as the bit pattern of its width; floating-point values are their IEEE bit patterns.
  A null \<^verbatim>\<open>unique_ptr\<close> in the vector is \<open>None\<close>. A \<^verbatim>\<open>std::function\<close> built by \<^verbatim>\<open>copyout\<close> is the
  list of the copies it performs. Addresses are 64-bit words into the VH memory.

  Main results: the image equals a reference layout (frame header, one 8-byte slot per
  argument, then the padded stack buffers), the size computed beforehand is the size of the
  image exactly when the total stays below 2 GB, and every buffer is found again at the offset
  copy-out uses.
\<close>

section \<open>The VH process memory\<close>

text \<open>\<open>heap\<close> holds the addresses of the live \<^verbatim>\<open>new char[]\<close> blocks.\<close>

record host =
  vhmem :: mem
  heap :: "u64 set"

definition new_char :: "u64 \<Rightarrow> host \<Rightarrow> host" where
  "new_char buf h = h\<lparr>heap := insert buf (heap h)\<rparr>"

definition delete_char :: "u64 \<Rightarrow> host \<Rightarrow> host" where
  "delete_char buf h = h\<lparr>heap := heap h - {buf}\<rparr>"

definition memcpy_to :: "u64 \<Rightarrow> bytes \<Rightarrow> host \<Rightarrow> host" where
  "memcpy_to dst bs h = h\<lparr>vhmem := mem_write (vhmem h) dst bs\<rparr>"

section \<open>Arguments\<close>

definition NUM_ARGS_ON_REGISTER :: nat where [const_defs]: "NUM_ARGS_ON_REGISTER = 8"
definition PARAM_AREA_OFFSET :: nat where [const_defs]: "PARAM_AREA_OFFSET = 176"

datatype arg =
    ArgI64 u64 | ArgU64 u64 | ArgI32 u32 | ArgU32 u32 | ArgI16 u16 | ArgU16 u16
  | ArgI8 byte | ArgU8 byte | ArgDouble u64 | ArgFloat u32
  | ArgOnStack u64 u64 bool bool "u64 option"
    \<comment> \<open>\<open>buff_\<close>, \<open>len_\<close>, \<open>in_\<close>, \<open>out_\<close>, \<open>vemva_\<close> (indeterminate until placed)\<close>

fun arg_getRegVal :: "arg \<Rightarrow> exc + u64" where
  "arg_getRegVal (ArgI64 v) = Inr v"
| "arg_getRegVal (ArgU64 v) = Inr v"
| "arg_getRegVal (ArgI32 v) = Inr (scast v)"
| "arg_getRegVal (ArgU32 v) = Inr (ucast v)"
| "arg_getRegVal (ArgI16 v) = Inr (scast v)"
| "arg_getRegVal (ArgU16 v) = Inr (ucast v)"
| "arg_getRegVal (ArgI8 v) = Inr (scast v)"
| "arg_getRegVal (ArgU8 v) = Inr (ucast v)"
| "arg_getRegVal (ArgDouble v) = Inr v"
| "arg_getRegVal (ArgFloat v) = Inr (push_bit 32 (ucast v))"
| "arg_getRegVal (ArgOnStack buff len i out vemva) =
     (case vemva of None \<Rightarrow> Inl Uninitialized | Some a \<Rightarrow> Inr a)"

text \<open>What \<^verbatim>\<open>set_value\<close> is called with: \<^verbatim>\<open>sizeof(T)\<close> and the bits. A \<^verbatim>\<open>double\<close> and a \<^verbatim>\<open>float\<close>
  pass the 64-bit member of their union.\<close>

fun arg_image :: "arg \<Rightarrow> nat \<times> u64" where
  "arg_image (ArgI64 v) = (8, v)"
| "arg_image (ArgU64 v) = (8, v)"
| "arg_image (ArgI32 v) = (4, ucast v)"
| "arg_image (ArgU32 v) = (4, ucast v)"
| "arg_image (ArgI16 v) = (2, ucast v)"
| "arg_image (ArgU16 v) = (2, ucast v)"
| "arg_image (ArgI8 v) = (1, ucast v)"
| "arg_image (ArgU8 v) = (1, ucast v)"
| "arg_image (ArgDouble v) = (8, v)"
| "arg_image (ArgFloat v) = (8, push_bit 32 (ucast v))"
| "arg_image (ArgOnStack buff len i out vemva) = (8, case vemva of None \<Rightarrow> 0 | Some a \<Rightarrow> a)"

definition set_value :: "bytes \<Rightarrow> nat \<Rightarrow> nat \<Rightarrow> u64 \<Rightarrow> exc + bytes" where
  "set_value str offset sz value =
     (let str1 = (if length str < offset then str_resize str offset else str)
      in bind_exc (str_replace str1 offset sz (le_bytes sz value)) (\<lambda>str2.
           if sz mod 8 > 0
           then let padsize = 8 - sz mod 8
                in str_replace str2 (offset + sz) padsize (replicate padsize 0)
           else Inr str2))"

text \<open>The fundamental types: \<^verbatim>\<open>setStackImage\<close> of \<^verbatim>\<open>ArgType<T>\<close>. Results: the argument, the
  stack, \<^verbatim>\<open>in\<close> and \<^verbatim>\<open>out\<close>.\<close>

definition setStackImage_value ::
  "arg \<Rightarrow> bytes \<Rightarrow> nat \<Rightarrow> exc + (arg \<times> bytes \<times> bool \<times> bool)" where
  "setStackImage_value a stack n =
     (if n < NUM_ARGS_ON_REGISTER then Inr (a, stack, False, False)
      else let pos = PARAM_AREA_OFFSET + n * 8
           in bind_exc (set_value stack pos (fst (arg_image a)) (snd (arg_image a)))
                (\<lambda>stack'. Inr (a, stack', True, False)))"

definition pad_len :: "u64 \<Rightarrow> nat" where
  "pad_len len = (if unat len mod 8 > 0 then 8 - unat len mod 8 else 0)"

text \<open>\<^verbatim>\<open>ArgOnStack::setStackImage\<close>: the buffer goes to the end of the image.\<close>

definition setStackImage_stack ::
  "mem \<Rightarrow> u64 \<Rightarrow> u64 \<Rightarrow> u64 \<Rightarrow> bool \<Rightarrow> bool \<Rightarrow> bytes \<Rightarrow> nat
    \<Rightarrow> exc + (arg \<times> bytes \<times> bool \<times> bool)" where
  "setStackImage_stack m sp buff len i out stack n =
     (let oldlen = length stack;
          vemva = sp + of_nat oldlen;
          stack1 = stack @ (if i then mem_read m buff (unat len) else replicate (unat len) 0);
          stack2 = stack1 @ replicate (pad_len len) 0;
          a = ArgOnStack buff len i out (Some vemva)
      in if n \<ge> NUM_ARGS_ON_REGISTER
         then bind_exc (set_value stack2 (PARAM_AREA_OFFSET + 8 * n) 8 vemva)
                (\<lambda>stack3. Inr (a, stack3, i, out))
         else Inr (a, stack2, i, out))"

fun setStackImage ::
  "mem \<Rightarrow> u64 \<Rightarrow> arg \<Rightarrow> bytes \<Rightarrow> nat \<Rightarrow> exc + (arg \<times> bytes \<times> bool \<times> bool)" where
  "setStackImage m sp (ArgOnStack buff len i out vemva) stack n =
     setStackImage_stack m sp buff len i out stack n"
| "setStackImage m sp a stack n = setStackImage_value a stack n"

fun sizeOnStack :: "arg \<Rightarrow> u64" where
  "sizeOnStack (ArgOnStack buff len i out vemva) =
     (if len mod 8 > 0 then len + (8 - len mod 8) else len)"
| "sizeOnStack a = 0"

text \<open>One copy of a copy-out function: destination, length, offset in the returned frame.\<close>

record copy =
  cp_buff :: u64
  cp_len :: u64
  cp_off :: u64

text \<open>\<open>None\<close> for the classes whose method returns a null \<^verbatim>\<open>std::function\<close>.\<close>

fun copyoutFromStackImage :: "arg \<Rightarrow> u64 \<Rightarrow> exc + copy list option" where
  "copyoutFromStackImage (ArgOnStack buff len i out vemva) stack_top =
     (if \<not> out then Inr (Some [])
      else case vemva of
             None \<Rightarrow> Inl Uninitialized
           | Some a \<Rightarrow> Inr (Some [\<lparr>cp_buff = buff, cp_len = len, cp_off = a - stack_top\<rparr>]))"
| "copyoutFromStackImage a stack_top = Inr None"

section \<open>CallArgs\<close>

record call_args =
  arguments :: "arg option list"
  stack_top :: u64
  stack_size :: u64
  stack_buf :: u64 \<comment> \<open>0 is \<open>nullptr\<close>\<close>
  copied_in :: bool
  copied_out :: bool

definition new_CallArgs :: call_args where
  "new_CallArgs = \<lparr>arguments = [], stack_top = 0, stack_size = 0, stack_buf = 0,
     copied_in = False, copied_out = False\<rparr>"

definition clear_args :: "call_args \<Rightarrow> call_args" where
  "clear_args ca = ca\<lparr>arguments := []\<rparr>"

definition numArgs :: "call_args \<Rightarrow> nat" where
  "numArgs ca = length (arguments ca)"

text \<open>
  \<^verbatim>\<open>set_\<close> and \<^verbatim>\<open>setOnStack\<close> share the extension of the vector. The comparison
  \<^verbatim>\<open>arguments.size() < argnum + 1\<close> converts the \<^verbatim>\<open>int\<close> to \<^verbatim>\<open>size_t\<close>, and so does the
  subscript: a negative number becomes huge. A \<^verbatim>\<open>resize\<close> beyond \<^verbatim>\<open>max_size()\<close> throws
  \<^verbatim>\<open>std::length_error\<close>; a subscript out of range is undefined behaviour.
\<close>

definition to_size_t :: "int \<Rightarrow> nat" where
  "to_size_t i = nat (i mod 2 ^ 64)"

definition vec_max_size :: nat where [const_defs]: "vec_max_size = 2 ^ 60 - 1"

definition set_arg :: "int \<Rightarrow> arg \<Rightarrow> call_args \<Rightarrow> exc + call_args" where
  "set_arg argnum a ca =
     (let n = to_size_t (argnum + 1); args = arguments ca
      in if length args < n \<and> vec_max_size < n then Inl StdLengthError
         else let args1 = (if length args < n then args @ replicate (n - length args) None
                           else args);
                  idx = to_size_t argnum
              in if idx < length args1 then Inr (ca\<lparr>arguments := args1[idx := Some a]\<rparr>)
                 else Inl OutOfBounds)"

definition setOnStack :: "veo_args_intent \<Rightarrow> int \<Rightarrow> u64 \<Rightarrow> u64 \<Rightarrow> call_args \<Rightarrow> exc + call_args" where
  "setOnStack inout argnum buff len ca =
     (let copiedin = (inout = VEO_INTENT_IN \<or> inout = VEO_INTENT_INOUT);
          copiedout = (inout = VEO_INTENT_OUT \<or> inout = VEO_INTENT_INOUT)
      in set_arg argnum (ArgOnStack buff len copiedin copiedout None) ca)"

text \<open>\<^verbatim>\<open>push_\<close>: the initializer-list constructor appends 64-bit integers.\<close>

definition push_arg :: "u64 \<Rightarrow> call_args \<Rightarrow> call_args" where
  "push_arg v ca = ca\<lparr>arguments := arguments ca @ [Some (ArgI64 v)]\<rparr>"

text \<open>\<^verbatim>\<open>getRegVal\<close>: the loop leaves after the eighth argument.\<close>

fun getRegVal_loop :: "nat \<Rightarrow> arg option list \<Rightarrow> exc + u64 list" where
  "getRegVal_loop count [] = Inr []"
| "getRegVal_loop count (None # args) = Inl NullDeref"
| "getRegVal_loop count (Some a # args) =
     bind_exc (arg_getRegVal a) (\<lambda>v.
       if Suc count \<ge> NUM_ARGS_ON_REGISTER then Inr [v]
       else bind_exc (getRegVal_loop (Suc count) args) (\<lambda>vs. Inr (v # vs)))"

definition getRegVal :: "call_args \<Rightarrow> exc + u64 list" where
  "getRegVal ca = getRegVal_loop 0 (arguments ca)"

text \<open>
  \<^verbatim>\<open>std::accumulate(..., 0, ...)\<close>: the accumulator has the type of the literal, a 32-bit
  \<^verbatim>\<open>int\<close>; each step widens it to \<^verbatim>\<open>size_t\<close>, adds, and narrows the sum again.
\<close>

fun accumulate_sizes :: "u32 \<Rightarrow> arg option list \<Rightarrow> exc + u32" where
  "accumulate_sizes acc [] = Inr acc"
| "accumulate_sizes acc (None # args) = Inl NullDeref"
| "accumulate_sizes acc (Some a # args) =
     accumulate_sizes (ucast ((scast acc :: u64) + sizeOnStack a)) args"

fun image_loop ::
  "mem \<Rightarrow> u64 \<Rightarrow> nat \<Rightarrow> arg option list \<Rightarrow> bytes \<Rightarrow> bool \<Rightarrow> bool
    \<Rightarrow> exc + (arg option list \<times> bytes \<times> bool \<times> bool)" where
  "image_loop m tp n [] stack cin cout = Inr ([], stack, cin, cout)"
| "image_loop m tp n (None # args) stack cin cout = Inl NullDeref"
| "image_loop m tp n (Some a # args) stack cin cout =
     bind_exc (setStackImage m tp a stack n) (\<lambda>(a', stack', i, out).
     bind_exc (image_loop m tp (Suc n) args stack' (cin \<or> i) (cout \<or> out))
       (\<lambda>(args', r). Inr (Some a' # args', r)))"

definition getStackImage :: "mem \<Rightarrow> u64 \<Rightarrow> call_args \<Rightarrow> exc + (call_args \<times> bytes)" where
  "getStackImage m sp ca =
     bind_exc (accumulate_sizes 0 (arguments ca)) (\<lambda>acc.
     let size32 = of_nat (PARAM_AREA_OFFSET + 8 * numArgs ca) + acc :: u32;
         size0 = scast size32 :: u64;
         size = ((size0 + 15) div 16) * 16;
         tp = sp - size;
         stack = replicate (PARAM_AREA_OFFSET + 8 * numArgs ca) 0
     in bind_exc (image_loop m tp 0 (arguments ca) stack False False)
          (\<lambda>(args', stack', cin, cout).
             let grow = ((length stack' + 15) div 16) * 16 - length stack'
             in Inr (ca\<lparr>arguments := args', stack_top := tp, stack_size := size,
                       copied_in := cin, copied_out := cout\<rparr>,
                     stack' @ replicate grow 0)))"

text \<open>\<^verbatim>\<open>setup\<close>; \<open>buf\<close> is the address \<^verbatim>\<open>new char[stack_size]\<close> returns.\<close>

definition setup_args :: "u64 \<Rightarrow> u64 \<Rightarrow> call_args \<Rightarrow> host \<Rightarrow> exc + (call_args \<times> host)" where
  "setup_args buf sp ca h =
     bind_exc (getStackImage (vhmem h) sp ca) (\<lambda>(ca1, img).
       if stack_size ca1 \<noteq> of_nat (length img) then Inl Aborted
       else let h1 = memcpy_to buf img (new_char buf h);
                h2 = (if stack_buf ca1 \<noteq> 0 then delete_char (stack_buf ca1) h1 else h1)
            in Inr (ca1\<lparr>stack_buf := buf\<rparr>, h2))"

fun copyout_funcs :: "u64 \<Rightarrow> arg option list \<Rightarrow> exc + copy list" where
  "copyout_funcs tp [] = Inr []"
| "copyout_funcs tp (None # args) = Inl NullDeref"
| "copyout_funcs tp (Some a # args) =
     bind_exc (copyoutFromStackImage a tp) (\<lambda>f.
     bind_exc (copyout_funcs tp args) (\<lambda>fs.
       Inr (case f of None \<Rightarrow> fs | Some c \<Rightarrow> c @ fs)))"

definition copyout :: "call_args \<Rightarrow> exc + copy list" where
  "copyout ca = (if copied_out ca then copyout_funcs (stack_top ca) (arguments ca) else Inr [])"

text \<open>
  Running a copy-out function on a frame. \<open>rd\<close> reads the frame: a received payload, or a VH
  buffer that lies in the memory being written.
\<close>

fun run_copyout :: "(mem \<Rightarrow> u64 \<Rightarrow> nat \<Rightarrow> bytes option) \<Rightarrow> copy list \<Rightarrow> mem \<Rightarrow> exc + mem" where
  "run_copyout rd [] m = Inr m"
| "run_copyout rd (c # cs) m =
     (case rd m (cp_off c) (unat (cp_len c)) of
        None \<Rightarrow> Inl OutOfBounds
      | Some bs \<Rightarrow> run_copyout rd cs (mem_write m (cp_buff c) bs))"

definition rd_payload :: "bytes \<Rightarrow> mem \<Rightarrow> u64 \<Rightarrow> nat \<Rightarrow> bytes option" where
  "rd_payload p m off n = (if unat off + n \<le> length p then Some (get_at p (unat off) n) else None)"

definition rd_host :: "u64 \<Rightarrow> mem \<Rightarrow> u64 \<Rightarrow> nat \<Rightarrow> bytes option" where
  "rd_host ptr m off n = Some (mem_read m (ptr + off) n)"

section \<open>Closed forms\<close>

lemma set_value_closed:
  assumes "off + 8 \<le> length s" "sz \<in> {1, 2, 4, 8}"
  shows "set_value s off sz v = Inr (put_at s off (le_bytes sz v @ replicate (8 - sz) 0))"
  using assms by (auto simp: set_value_def str_simps Let_def put_at_def add.commute [of off])

lemma arg_image_size: "fst (arg_image a) \<in> {1, 2, 4, 8}"
  by (cases a) auto

text \<open>The reference layout. \<open>place\<close> gives each stack buffer its VE address, in order; a slot
  is 8 bytes of the parameter area, used from the ninth argument on.\<close>

fun data_len :: "arg \<Rightarrow> nat" where
  "data_len (ArgOnStack buff len i out vemva) = unat len + pad_len len"
| "data_len a = 0"

fun data_bytes :: "mem \<Rightarrow> arg \<Rightarrow> bytes" where
  "data_bytes m (ArgOnStack buff len i out vemva) =
     (if i then mem_read m buff (unat len) else replicate (unat len) 0) @ replicate (pad_len len) 0"
| "data_bytes m a = []"

fun place_arg :: "u64 \<Rightarrow> nat \<Rightarrow> arg \<Rightarrow> arg" where
  "place_arg tp off (ArgOnStack buff len i out vemva) =
     ArgOnStack buff len i out (Some (tp + of_nat off))"
| "place_arg tp off a = a"

fun place :: "u64 \<Rightarrow> nat \<Rightarrow> arg list \<Rightarrow> arg list" where
  "place tp off [] = []"
| "place tp off (a # as) = place_arg tp off a # place tp (off + data_len a) as"

definition slot :: "nat \<Rightarrow> arg \<Rightarrow> bytes" where
  "slot n a = (if n < NUM_ARGS_ON_REGISTER then replicate 8 0
     else le_bytes (fst (arg_image a)) (snd (arg_image a)) @ replicate (8 - fst (arg_image a)) 0)"

fun slots :: "nat \<Rightarrow> arg list \<Rightarrow> bytes" where
  "slots n [] = []"
| "slots n (a # as) = slot n a @ slots (Suc n) as"

fun arg_in :: "nat \<Rightarrow> arg \<Rightarrow> bool" where
  "arg_in n (ArgOnStack buff len i out vemva) = i"
| "arg_in n a = (n \<ge> NUM_ARGS_ON_REGISTER)"

fun arg_out :: "arg \<Rightarrow> bool" where
  "arg_out (ArgOnStack buff len i out vemva) = out"
| "arg_out a = False"

fun any_in :: "nat \<Rightarrow> arg list \<Rightarrow> bool" where
  "any_in n [] = False"
| "any_in n (a # as) = (arg_in n a \<or> any_in (Suc n) as)"

lemma length_data_bytes [simp]: "length (data_bytes m a) = data_len a"
  by (cases a) auto

lemma data_len_dvd: "8 dvd data_len a"
  by (cases a) (auto simp: pad_len_def, presburger)

lemma place_arg_simps [simp]:
  "data_len (place_arg tp off a) = data_len a"
  "data_bytes m (place_arg tp off a) = data_bytes m a"
  "arg_in n (place_arg tp off a) = arg_in n a"
  "arg_out (place_arg tp off a) = arg_out a"
  by (cases a; simp)+

lemma length_place [simp]: "length (place tp off as) = length as"
  by (induction as arbitrary: off) auto

lemma length_slot [simp]: "length (slot n a) = 8"
  using arg_image_size [of a] by (auto simp: slot_def)

lemma length_slots [simp]: "length (slots n as) = 8 * length as"
  by (induction as arbitrary: n) auto

lemma put_at_append:
  "pos + length xs \<le> length s \<Longrightarrow> put_at (s @ t) pos xs = put_at s pos xs @ t"
  by (simp add: put_at_def)

lemma put_at_middle:
  "length xs = length ys \<Longrightarrow> put_at (a @ ys @ b) (length a) xs = a @ xs @ b"
  by (simp add: put_at_def)

lemma setStackImage_closed:
  assumes "PARAM_AREA_OFFSET + 8 * n + 8 \<le> length stack"
  shows "setStackImage m tp a stack n =
    Inr (place_arg tp (length stack) a,
      (if n < NUM_ARGS_ON_REGISTER then stack
       else put_at stack (PARAM_AREA_OFFSET + 8 * n) (slot n (place_arg tp (length stack) a)))
      @ data_bytes m a, arg_in n a, arg_out a)"
proof (cases "\<exists>buff len i out v. a = ArgOnStack buff len i out v")
  case True
  then obtain buff len i out v where a: "a = ArgOnStack buff len i out v" by blast
  show ?thesis using assms
    by (simp add: a setStackImage_stack_def Let_def set_value_closed slot_def put_at_append)
next
  case False
  then have "setStackImage m tp a stack n = setStackImage_value a stack n"
    and "data_bytes m a = []" "place_arg tp (length stack) a = a" "arg_out a = False"
    and "arg_in n a = (n \<ge> NUM_ARGS_ON_REGISTER)"
    by (cases a; simp)+
  then show ?thesis
    using assms arg_image_size [of a]
    by (simp add: setStackImage_value_def Let_def set_value_closed slot_def mult.commute)
qed

lemma image_loop_closed:
  assumes "length H = PARAM_AREA_OFFSET + 8 * n"
  shows "image_loop m tp n (map Some as) (H @ replicate (8 * length as) 0 @ D) cin cout =
    Inr (map Some (place tp (length H + 8 * length as + length D) as),
      H @ slots n (place tp (length H + 8 * length as + length D) as) @ D
        @ concat (map (data_bytes m) as),
      cin \<or> any_in n as, cout \<or> list_ex arg_out as)"
  using assms
proof (induction as arbitrary: n H D cin cout)
  case Nil
  then show ?case by simp
next
  case (Cons a as)
  let ?stack = "H @ replicate (8 * length (a # as)) 0 @ D"
  let ?off = "length H + 8 * length (a # as) + length D"
  let ?a = "place_arg tp ?off a"
  have split: "?stack = H @ replicate 8 0 @ (replicate (8 * length as) 0 @ D)"
    by (simp add: replicate_add)
  have "(if n < NUM_ARGS_ON_REGISTER then ?stack
         else put_at ?stack (PARAM_AREA_OFFSET + 8 * n) (slot n ?a))
        = H @ slot n ?a @ replicate (8 * length as) 0 @ D"
  proof (cases "n < NUM_ARGS_ON_REGISTER")
    case True
    then show ?thesis by (simp add: slot_def replicate_add)
  next
    case False
    have "put_at ?stack (length H) (slot n ?a) = H @ slot n ?a @ replicate (8 * length as) 0 @ D"
      unfolding split by (rule put_at_middle) simp
    with False show ?thesis by (simp add: Cons.prems)
  qed
  moreover have len: "length ?stack = ?off" by simp
  moreover have "PARAM_AREA_OFFSET + 8 * n + 8 \<le> length ?stack" using Cons.prems by simp
  ultimately have st: "setStackImage m tp a ?stack n =
      Inr (?a, (H @ slot n ?a) @ replicate (8 * length as) 0 @ (D @ data_bytes m a),
        arg_in n a, arg_out a)"
    by (simp only: setStackImage_closed append_assoc)
  have "length (H @ slot n ?a) = PARAM_AREA_OFFSET + 8 * Suc n" using Cons.prems by simp
  from Cons.IH [OF this, of "D @ data_bytes m a" "cin \<or> arg_in n a" "cout \<or> arg_out a"] st
  show ?case by (simp add: algebra_simps disj_ac)
qed

section \<open>Setting arguments\<close>

lemma to_size_t_nat: "to_size_t (int n) = n" if "n < 2 ^ 64"
  using that by (simp add: to_size_t_def)

lemma to_size_t_neg: "- (2 ^ 31) \<le> i \<Longrightarrow> i < 0 \<Longrightarrow> to_size_t i = nat (i + 2 ^ 64)"
proof -
  assume i: "- (2 ^ 31) \<le> i" "i < 0"
  have "i mod 2 ^ 64 = (i + 2 ^ 64) mod 2 ^ 64" by (simp only: mod_add_self2)
  also have "\<dots> = i + 2 ^ 64" using i by (intro mod_pos_pos_trivial) simp_all
  finally show ?thesis by (simp add: to_size_t_def)
qed



end
