(* ===== verification/Command_Queue.thy ===== *)
theory Command_Queue
  imports Aveo_Prelude "HOL-Library.Multiset"
begin

text \<open>
  Commands and the queues they travel through (\<^verbatim>\<open>Command.hpp\<close>, \<^verbatim>\<open>CommandImpl.hpp\<close>,
  \<^verbatim>\<open>Command.cpp\<close>): \<^verbatim>\<open>BlockingQueue\<close> is a list, \<^verbatim>\<open>BlockingMap\<close> an association list with at
  most one entry per key, \<^verbatim>\<open>CommQueue\<close> the record of the three of them.

  Every operation runs under the mutex of its object and is one atomic function of the state. A
  condition variable has no state of its own: a wait is described by the condition under which
  the waiter sleeps. The order in which an \<^verbatim>\<open>unordered_map\<close> is traversed is not specified; the
  model takes the order of the list, and no lemma depends on it.

  The two function objects of a \<^verbatim>\<open>CommandImpl\<close> are kept as a value of type \<open>'k\<close>, the kind of
  the command, which says which lambdas it was built with and what they captured; \<^verbatim>\<open>Veo_Context\<close>
  interprets it.
\<close>

section \<open>Commands\<close>

text \<open>\<open>None\<close> is the indeterminate value of a member the constructor does not set.\<close>

record 'k command =
  msgid :: u64
  retval :: "u64 option"
  urpc_req :: "int option"
  status :: "veo_command_state option"
  nowait :: bool
  is_vh :: bool
  kind :: 'k

definition new_CommandImpl_vh :: "u64 \<Rightarrow> 'k \<Rightarrow> 'k command" where
  "new_CommandImpl_vh i h = \<lparr>msgid = i, retval = None, urpc_req = None, status = None,
     nowait = False, is_vh = True, kind = h\<rparr>"

definition new_CommandImpl :: "u64 \<Rightarrow> 'k \<Rightarrow> 'k command" where
  "new_CommandImpl i h = \<lparr>msgid = i, retval = None, urpc_req = None, status = None,
     nowait = False, is_vh = False, kind = h\<rparr>"

definition setURPCReq :: "int \<Rightarrow> veo_command_state \<Rightarrow> 'k command \<Rightarrow> 'k command" where
  "setURPCReq req s c = c\<lparr>urpc_req := Some req, status := Some s\<rparr>"

text \<open>Both values may be read from variables that were never assigned, hence the options.\<close>

definition setResult ::
  "u64 option \<Rightarrow> veo_command_state option \<Rightarrow> 'k command \<Rightarrow> 'k command" where
  "setResult r s c = c\<lparr>retval := r, status := s\<rparr>"

definition setNowaitFlag :: "bool \<Rightarrow> 'k command \<Rightarrow> 'k command" where
  "setNowaitFlag flg c = c\<lparr>nowait := flg\<rparr>"

lemma command_upd_simps [simp]:
  "msgid (setURPCReq req s c) = msgid c" "msgid (setResult r st c) = msgid c"
  "msgid (setNowaitFlag b c) = msgid c"
  "nowait (setURPCReq req s c) = nowait c" "nowait (setResult r st c) = nowait c"
  "is_vh (setURPCReq req s c) = is_vh c" "is_vh (setResult r st c) = is_vh c"
  "is_vh (setNowaitFlag b c) = is_vh c"
  "kind (setURPCReq req s c) = kind c" "kind (setResult r st c) = kind c"
  "urpc_req (setURPCReq req s c) = Some req" "urpc_req (setResult r st c) = urpc_req c"
  "status (setResult r st c) = st" "retval (setResult r st c) = r"
  "status (setURPCReq req s c) = Some s" "nowait (setNowaitFlag b c) = b"
  by (simp_all add: setURPCReq_def setResult_def setNowaitFlag_def)

lemma new_command_simps [simp]:
  "msgid (new_CommandImpl i h) = i" "msgid (new_CommandImpl_vh i h) = i"
  "nowait (new_CommandImpl i h) = False" "nowait (new_CommandImpl_vh i h) = False"
  "is_vh (new_CommandImpl i h) = False" "is_vh (new_CommandImpl_vh i h) = True"
  "kind (new_CommandImpl i h) = h" "kind (new_CommandImpl_vh i h) = h"
  by (simp_all add: new_CommandImpl_def new_CommandImpl_vh_def)

section \<open>BlockingQueue\<close>

type_synonym 'k blocking_queue = "'k command list"

definition bq_push :: "'k command \<Rightarrow> 'k blocking_queue \<Rightarrow> 'k blocking_queue" where
  "bq_push cmd q = q @ [cmd]"

definition bq_push_front :: "'k command \<Rightarrow> 'k blocking_queue \<Rightarrow> 'k blocking_queue" where
  "bq_push_front cmd q = cmd # q"

fun bq_tryFind :: "u64 \<Rightarrow> 'k blocking_queue \<Rightarrow> 'k command option \<times> 'k blocking_queue" where
  "bq_tryFind i [] = (None, [])"
| "bq_tryFind i (c # q) =
     (if msgid c = i then (Some c, q)
      else let (r, q') = bq_tryFind i q in (r, c # q'))"

fun bq_popNoWait :: "'k blocking_queue \<Rightarrow> 'k command option \<times> 'k blocking_queue" where
  "bq_popNoWait [] = (None, [])"
| "bq_popNoWait (c # q) = (Some c, q)"

section \<open>BlockingMap\<close>

type_synonym 'k blocking_map = "(u64 \<times> 'k command) list"

text \<open>\<^verbatim>\<open>std::unordered_map::insert\<close> leaves an existing entry alone; the new command is lost.\<close>

definition bm_insert_key :: "u64 \<Rightarrow> 'k command \<Rightarrow> 'k blocking_map \<Rightarrow> 'k blocking_map" where
  "bm_insert_key i cmd m = (case map_of m i of None \<Rightarrow> (i, cmd) # m | Some _ \<Rightarrow> m)"

definition bm_insert :: "'k command \<Rightarrow> 'k blocking_map \<Rightarrow> 'k blocking_map" where
  "bm_insert cmd m = bm_insert_key (msgid cmd) cmd m"

definition bm_tryFindNoWait ::
  "u64 \<Rightarrow> 'k blocking_map \<Rightarrow> 'k command option \<times> 'k blocking_map" where
  "bm_tryFindNoWait i m =
     (case map_of m i of
        None \<Rightarrow> (None, m)
      | Some c \<Rightarrow> (Some c, filter (\<lambda>e. fst e \<noteq> i) m))"

text \<open>One turn of the loop of \<^verbatim>\<open>wait\<close>: \<open>None\<close> means the caller goes to sleep.\<close>

definition bm_wait_turn ::
  "u64 \<Rightarrow> 'k blocking_map \<Rightarrow> ('k command \<times> 'k blocking_map) option" where
  "bm_wait_turn i m = (case bm_tryFindNoWait i m of
     (None, _) \<Rightarrow> None | (Some c, m') \<Rightarrow> Some (c, m'))"

fun bm_popNoWait :: "'k blocking_map \<Rightarrow> 'k command option \<times> 'k blocking_map" where
  "bm_popNoWait [] = (None, [])"
| "bm_popNoWait ((i, c) # m) = (Some c, filter (\<lambda>e. fst e \<noteq> i) m)"

section \<open>CommQueue\<close>

record 'k comm_queue =
  request :: "'k blocking_queue"
  inflight :: "'k blocking_map"
  completion :: "'k blocking_map"
  terminateFlag :: bool

definition new_CommQueue :: "'k comm_queue" where
  "new_CommQueue = \<lparr>request = [], inflight = [], completion = [], terminateFlag = False\<rparr>"

definition pushRequest :: "'k command \<Rightarrow> 'k comm_queue \<Rightarrow> int \<times> 'k comm_queue" where
  "pushRequest req q = (0, q\<lparr>request := bq_push req (request q)\<rparr>)"

definition pushRequestFront :: "'k command \<Rightarrow> 'k comm_queue \<Rightarrow> 'k comm_queue" where
  "pushRequestFront req q = q\<lparr>request := bq_push_front req (request q)\<rparr>"

definition tryPopRequest :: "'k comm_queue \<Rightarrow> 'k command option \<times> 'k comm_queue" where
  "tryPopRequest q = (let (c, r) = bq_popNoWait (request q) in (c, q\<lparr>request := r\<rparr>))"

definition emptyRequest :: "'k comm_queue \<Rightarrow> bool" where
  "emptyRequest q = (request q = [])"

definition emptyInFlight :: "'k comm_queue \<Rightarrow> bool" where
  "emptyInFlight q = (inflight q = [])"

definition isActive :: "'k comm_queue \<Rightarrow> bool" where
  "isActive q = (inflight q \<noteq> [] \<or> request q \<noteq> [])"

text \<open>\<^verbatim>\<open>waitRequest\<close> sleeps once when \<open>waitRequest_sleeps\<close>, then returns \<open>waitRequest\<close>.\<close>

definition waitRequest_sleeps :: "'k comm_queue \<Rightarrow> bool" where
  "waitRequest_sleeps q = (request q = [] \<and> inflight q = [] \<and> \<not> terminateFlag q)"

definition waitRequest :: "'k comm_queue \<Rightarrow> bool" where
  "waitRequest q = (\<not> terminateFlag q)"

text \<open>\<^verbatim>\<open>getURPCReq\<close> of a command that was never given a number is indeterminate.\<close>

definition pushInFlight :: "'k command \<Rightarrow> 'k comm_queue \<Rightarrow> exc + 'k comm_queue" where
  "pushInFlight cmd q =
     (case urpc_req cmd of
        None \<Rightarrow> Inl Uninitialized
      | Some req \<Rightarrow> Inr (q\<lparr>inflight := bm_insert_key (of_int req) cmd (inflight q)\<rparr>))"

definition popInFlight :: "int \<Rightarrow> 'k comm_queue \<Rightarrow> 'k command option \<times> 'k comm_queue" where
  "popInFlight req q =
     (let (c, m) = bm_tryFindNoWait (of_int req) (inflight q) in (c, q\<lparr>inflight := m\<rparr>))"

definition pushCompletion :: "'k command \<Rightarrow> 'k comm_queue \<Rightarrow> 'k comm_queue" where
  "pushCompletion req q = q\<lparr>completion := bm_insert req (completion q)\<rparr>"

definition peekCompletion :: "u64 \<Rightarrow> 'k comm_queue \<Rightarrow> 'k command option \<times> 'k comm_queue" where
  "peekCompletion i q =
     (let (c, m) = bm_tryFindNoWait i (completion q) in (c, q\<lparr>completion := m\<rparr>))"

definition waitCompletion_turn ::
  "u64 \<Rightarrow> 'k comm_queue \<Rightarrow> ('k command \<times> 'k comm_queue) option" where
  "waitCompletion_turn i q =
     (case bm_wait_turn i (completion q) of
        None \<Rightarrow> None
      | Some (c, m) \<Rightarrow> Some (c, q\<lparr>completion := m\<rparr>))"

text \<open>The two loops of \<^verbatim>\<open>cancelAll\<close>.\<close>

function cancelRequests :: "'k comm_queue \<Rightarrow> 'k comm_queue" where
  "cancelRequests q =
     (case bq_popNoWait (request q) of
        (None, _) \<Rightarrow> q
      | (Some c, r) \<Rightarrow>
          cancelRequests (pushCompletion (setResult (Some 0) (Some VEO_COMMAND_ERROR) c) (q\<lparr>request := r\<rparr>)))"
  by pat_completeness auto

lemma bq_pop_shrinks: "(Some c, r) = bq_popNoWait q \<Longrightarrow> length r < length q"
  by (cases q) auto

termination cancelRequests
  by (relation "measure (\<lambda>q. length (request q))")
    (auto dest: bq_pop_shrinks simp: pushCompletion_def)

function cancelInflight :: "'k comm_queue \<Rightarrow> 'k comm_queue" where
  "cancelInflight q =
     (case bm_popNoWait (inflight q) of
        (None, _) \<Rightarrow> q
      | (Some c, m) \<Rightarrow>
          cancelInflight (pushCompletion (setResult (Some 0) (Some VEO_COMMAND_ERROR) c) (q\<lparr>inflight := m\<rparr>)))"
  by pat_completeness auto

lemma bm_pop_shrinks: "(Some c, m') = bm_popNoWait m \<Longrightarrow> length m' < length m"
  by (cases m rule: bm_popNoWait.cases) (auto simp: less_Suc_eq_le)

termination cancelInflight
  by (relation "measure (\<lambda>q. length (inflight q))")
    (auto dest: bm_pop_shrinks simp: pushCompletion_def)

declare cancelRequests.simps [simp del] cancelInflight.simps [simp del]

definition cancelAll :: "'k comm_queue \<Rightarrow> 'k comm_queue" where
  "cancelAll q = cancelInflight (cancelRequests q)"

text \<open>Whether \<^verbatim>\<open>notifyAll\<close> wakes the sleepers; the queues do not change.\<close>

definition notifyAll_wakes :: "'k comm_queue \<Rightarrow> bool" where
  "notifyAll_wakes q = (request q \<noteq> [])"

definition terminate_queue :: "'k comm_queue \<Rightarrow> 'k comm_queue" where
  "terminate_queue q = q\<lparr>terminateFlag := True\<rparr>"

section \<open>The store interface\<close>

text \<open>
  What the context relies on when it hands a command to a map and asks for it later: a command
  put under a free key is found under it, an occupied key is never overwritten, and taking an
  entry out removes exactly that entry. \<open>valid\<close> says that the command has a key.
\<close>

locale command_store =
  fixes put :: "'c \<Rightarrow> 's \<Rightarrow> 's" and take_out :: "u64 \<Rightarrow> 's \<Rightarrow> 'c option \<times> 's"
    and look :: "'s \<Rightarrow> u64 \<Rightarrow> 'c option" and key :: "'c \<Rightarrow> u64" and valid :: "'c \<Rightarrow> bool"
  assumes look_put: "valid c \<Longrightarrow>
      look (put c s) = (if look s (key c) = None then (look s)(key c \<mapsto> c) else look s)"
    and take_look: "fst (take_out k s) = look s k"
    and look_take: "look (snd (take_out k s)) = (look s)(k := None)"
begin

lemma put_then_take:
  "valid c \<Longrightarrow> look s (key c) = None \<Longrightarrow> fst (take_out (key c) (put c s)) = Some c"
  by (simp add: take_look look_put)

lemma put_take_restores:
  "valid c \<Longrightarrow> look s (key c) = None \<Longrightarrow> look (snd (take_out (key c) (put c s))) = look s"
  by (auto simp: look_take look_put)

lemma put_keeps: "valid d \<Longrightarrow> look s k = Some c \<Longrightarrow> look (put d s) k = Some c"
  by (auto simp: look_put)

lemma take_once: "fst (take_out k (snd (take_out k s))) = None"
  by (simp add: take_look look_take)

lemma take_other: "j \<noteq> k \<Longrightarrow> fst (take_out j (snd (take_out k s))) = fst (take_out j s)"
  by (simp add: take_look look_take)

end

lemma map_of_filter_key: "map_of (filter (\<lambda>e. fst e \<noteq> i) m) = (map_of m)(i := None)"
proof
  fix x
  show "map_of (filter (\<lambda>e. fst e \<noteq> i) m) x = ((map_of m)(i := None)) x"
    by (induction m) auto
qed

lemma filter_key_absent: "i \<notin> fst ` set m \<Longrightarrow> filter (\<lambda>e. fst e \<noteq> i) m = m"
  by (rule filter_True) auto

lemma map_of_bm_insert_key:
  "map_of (bm_insert_key i c m) = (if map_of m i = None then (map_of m)(i \<mapsto> c) else map_of m)"
  by (auto simp: bm_insert_key_def split: option.splits)

lemma bm_tryFind_simps:
  "fst (bm_tryFindNoWait i m) = map_of m i"
  "map_of (snd (bm_tryFindNoWait i m)) = (map_of m)(i := None)"
  by (auto simp: bm_tryFindNoWait_def map_of_filter_key split: option.splits)

definition cmd_key :: "'k command \<Rightarrow> u64" where
  "cmd_key c = (case urpc_req c of None \<Rightarrow> 0 | Some r \<Rightarrow> of_int r)"

definition put_inflight :: "'k command \<Rightarrow> 'k comm_queue \<Rightarrow> 'k comm_queue" where
  "put_inflight c q = (case pushInFlight c q of Inl _ \<Rightarrow> q | Inr q' \<Rightarrow> q')"

interpretation compl: command_store pushCompletion peekCompletion
  "\<lambda>q. map_of (completion q)" msgid "\<lambda>_. True"
  by unfold_locales
    (auto simp: pushCompletion_def peekCompletion_def bm_insert_def map_of_bm_insert_key
      bm_tryFind_simps [symmetric] Let_def split: prod.splits)

interpretation infl: command_store put_inflight "\<lambda>k. popInFlight (uint k)"
  "\<lambda>q. map_of (inflight q)" cmd_key "\<lambda>c. urpc_req c \<noteq> None"
  by unfold_locales
    (auto simp: put_inflight_def pushInFlight_def popInFlight_def cmd_key_def
      map_of_bm_insert_key bm_tryFind_simps [symmetric] Let_def split: prod.splits)

section \<open>Well-formed queues\<close>

text \<open>Every command is in one queue once, and each map is keyed as its users expect.\<close>

definition ids :: "'k comm_queue \<Rightarrow> u64 list" where
  "ids q = map msgid (request q) @ map (msgid \<circ> snd) (inflight q) @ map (msgid \<circ> snd) (completion q)"

definition comq_wf :: "'k comm_queue \<Rightarrow> bool" where
  "comq_wf q \<longleftrightarrow> distinct (ids q) \<and> distinct (map fst (inflight q)) \<and>
     (\<forall>(i, c) \<in> set (inflight q). urpc_req c \<noteq> None \<and> cmd_key c = i) \<and>
     (\<forall>(i, c) \<in> set (completion q). msgid c = i)"

lemma completion_keys:
  "comq_wf q \<Longrightarrow> fst ` set (completion q) = msgid ` snd ` set (completion q)"
  by (force simp: comq_wf_def image_iff)

lemma bm_insert_fresh: "i \<notin> fst ` set m \<Longrightarrow> bm_insert_key i c m = (i, c) # m"
  by (simp add: bm_insert_key_def map_of_eq_None_iff [THEN iffD2])

lemma pushCompletion_fresh:
  "msgid c \<notin> fst ` set (completion q) \<Longrightarrow>
     pushCompletion c q = q\<lparr>completion := (msgid c, c) # completion q\<rparr>"
  by (simp add: pushCompletion_def bm_insert_def bm_insert_fresh)

definition cancelled :: "'k command \<Rightarrow> u64 \<times> 'k command" where
  "cancelled c = (msgid c, setResult (Some 0) (Some VEO_COMMAND_ERROR) c)"

lemma cancelRequests_closed:
  assumes "distinct (map msgid (request q))"
    and "msgid ` set (request q) \<inter> fst ` set (completion q) = {}"
  shows "cancelRequests q =
    q\<lparr>request := [], completion := rev (map cancelled (request q)) @ completion q\<rparr>"
  using assms
proof (induction "request q" arbitrary: q)
  case Nil
  then show ?case by (subst cancelRequests.simps) simp
next
  case (Cons c r)
  let ?q = "pushCompletion (setResult (Some 0) (Some VEO_COMMAND_ERROR) c) (q\<lparr>request := r\<rparr>)"
  have "msgid c \<notin> fst ` set (completion q)" using Cons.prems(2) Cons.hyps(2) [symmetric] by auto
  then have q: "?q = q\<lparr>request := r, completion := cancelled c # completion q\<rparr>"
    by (simp add: pushCompletion_fresh cancelled_def)
  have "cancelRequests q = cancelRequests ?q"
    by (subst cancelRequests.simps) (simp add: Cons.hyps(2) [symmetric])
  also have "\<dots> = ?q\<lparr>request := [], completion := rev (map cancelled r) @ completion ?q\<rparr>"
    using Cons.hyps(1) [of ?q] Cons.prems Cons.hyps(2) [symmetric] by (auto simp: q cancelled_def)
  finally show ?case by (simp add: q Cons.hyps(2) [symmetric])
qed

lemma cancelInflight_closed:
  assumes "distinct (map (msgid \<circ> snd) (inflight q))" "distinct (map fst (inflight q))"
    and "(msgid \<circ> snd) ` set (inflight q) \<inter> fst ` set (completion q) = {}"
  shows "cancelInflight q =
    q\<lparr>inflight := [], completion := rev (map (cancelled \<circ> snd) (inflight q)) @ completion q\<rparr>"
  using assms
proof (induction "inflight q" arbitrary: q)
  case Nil
  then show ?case by (subst cancelInflight.simps) simp
next
  case (Cons e m)
  obtain i c where e: "e = (i, c)" by (cases e)
  let ?q = "pushCompletion (setResult (Some 0) (Some VEO_COMMAND_ERROR) c) (q\<lparr>inflight := m\<rparr>)"
  have fl: "inflight q = (i, c) # m" using Cons.hyps(2) e by simp
  have "msgid c \<notin> fst ` set (completion q)" using Cons.prems(3) by (auto simp: fl)
  then have q: "?q = q\<lparr>inflight := m, completion := cancelled c # completion q\<rparr>"
    by (simp add: pushCompletion_fresh cancelled_def)
  have "filter (\<lambda>e. fst e \<noteq> i) m = m"
    using Cons.prems(2) by (intro filter_key_absent) (simp add: fl)
  then have "cancelInflight q = cancelInflight ?q"
    by (subst cancelInflight.simps) (simp add: fl)
  also have "\<dots> =
      ?q\<lparr>inflight := [], completion := rev (map (cancelled \<circ> snd) m) @ completion ?q\<rparr>"
    using Cons.hyps(1) [of ?q] Cons.prems by (auto simp: q fl cancelled_def)
  finally show ?case by (simp add: q fl)
qed

lemma cancelAll_closed:
  assumes "comq_wf q"
  shows "cancelAll q = q\<lparr>request := [], inflight := [],
    completion := rev (map (cancelled \<circ> snd) (inflight q)) @ rev (map cancelled (request q))
      @ completion q\<rparr>"
proof -
  let ?q = "q\<lparr>request := [], completion := rev (map cancelled (request q)) @ completion q\<rparr>"
  have d: "distinct (ids q)" using assms by (simp add: comq_wf_def)
  note k = completion_keys [OF assms]
  have "cancelRequests q = ?q"
    using d by (intro cancelRequests_closed) (auto simp: k ids_def image_comp)
  moreover have "cancelInflight ?q = ?q\<lparr>inflight := [],
      completion := rev (map (cancelled \<circ> snd) (inflight ?q)) @ completion ?q\<rparr>"
    using d assms
    by (intro cancelInflight_closed)
      (auto simp: ids_def comq_wf_def cancelled_def image_comp k image_Un)
  ultimately show ?thesis by (simp add: cancelAll_def)
qed

lemma ids_simps [simp]:
  "ids (q\<lparr>terminateFlag := b\<rparr>) = ids q"
  "ids new_CommQueue = []"
  by (simp_all add: ids_def new_CommQueue_def)

lemma cancelled_simps [simp]:
  "fst (cancelled c) = msgid c" "msgid (snd (cancelled c)) = msgid c"
  "snd (cancelled c) = setResult (Some 0) (Some VEO_COMMAND_ERROR) c"
  by (simp_all add: cancelled_def)

lemma cancelAll_ids: "comq_wf q \<Longrightarrow> mset (ids (cancelAll q)) = mset (ids q)"
  by (simp add: cancelAll_closed ids_def rev_map [symmetric] comp_def)

lemma cancelAll_wf: "comq_wf q \<Longrightarrow> comq_wf (cancelAll q)"
proof -
  assume wf: "comq_wf q"
  have "distinct (ids (cancelAll q))"
    using wf mset_eq_imp_distinct_iff [OF cancelAll_ids [OF wf]] by (simp add: comq_wf_def)
  then show ?thesis using wf by (auto simp: comq_wf_def cancelAll_closed [OF wf] cancelled_def)
qed

lemma map_of_completion:
  "comq_wf q \<Longrightarrow> c \<in> snd ` set (completion q) \<Longrightarrow> map_of (completion q) (msgid c) = Some c"
proof -
  assume wf: "comq_wf q" and c: "c \<in> snd ` set (completion q)"
  have "map fst (completion q) = map (msgid \<circ> snd) (completion q)"
    using wf by (auto simp: comq_wf_def)
  moreover have "distinct (map (msgid \<circ> snd) (completion q))"
    using wf by (simp add: comq_wf_def ids_def)
  ultimately have "distinct (map fst (completion q))" by (simp only:)
  moreover have "(msgid c, c) \<in> set (completion q)" using wf c by (force simp: comq_wf_def)
  ultimately show ?thesis by simp
qed

section \<open>Properties\<close>

text \<open>
  C23. \<^verbatim>\<open>cancelAll\<close> ends, leaves nothing waiting or in flight, loses no command and duplicates
  none: each pending command can be fetched from the completion map with status
  \<open>VEO_COMMAND_ERROR\<close> and result 0, and commands completed before are there as they were.
\<close>
theorem cancelAll_completes_all:
  assumes "comq_wf q"
  shows "\<not> isActive (cancelAll q) \<and> comq_wf (cancelAll q) \<and>
    mset (ids (cancelAll q)) = mset (ids q) \<and>
    (\<forall>c \<in> set (request q) \<union> snd ` set (inflight q).
       fst (peekCompletion (msgid c) (cancelAll q)) =
         Some (setResult (Some 0) (Some VEO_COMMAND_ERROR) c)) \<and>
    (\<forall>c \<in> snd ` set (completion q). fst (peekCompletion (msgid c) (cancelAll q)) = Some c)"
proof -
  note wf = cancelAll_wf [OF assms]
  have "setResult (Some 0) (Some VEO_COMMAND_ERROR) c \<in> snd ` set (completion (cancelAll q))"
    if "c \<in> set (request q) \<union> snd ` set (inflight q)" for c
    using that by (force simp: cancelAll_closed [OF assms] image_Un image_comp)
  from map_of_completion [OF wf this]
  have "\<forall>c \<in> set (request q) \<union> snd ` set (inflight q).
      fst (peekCompletion (msgid c) (cancelAll q)) = Some (setResult (Some 0) (Some VEO_COMMAND_ERROR) c)"
    by (simp add: compl.take_look)
  moreover have "\<forall>c \<in> snd ` set (completion q).
      fst (peekCompletion (msgid c) (cancelAll q)) = Some c"
    using map_of_completion [OF wf]
    by (auto simp: compl.take_look cancelAll_closed [OF assms] image_Un)
  ultimately show ?thesis
    using wf cancelAll_ids [OF assms] by (simp add: isActive_def cancelAll_closed [OF assms])
qed

text \<open>
  C24. A command handed to the completion map under an identifier not in it yet is what
  \<^verbatim>\<open>peekCompletion\<close> and \<^verbatim>\<open>waitCompletion\<close> return for that identifier, the first time they are asked
  and never again, and asking for it does not disturb the other completed commands.
\<close>
theorem completion_delivered_once:
  assumes "map_of (completion q) (msgid c) = None"
  shows "fst (peekCompletion (msgid c) (pushCompletion c q)) = Some c \<and>
    waitCompletion_turn (msgid c) (pushCompletion c q) =
      Some (c, snd (peekCompletion (msgid c) (pushCompletion c q))) \<and>
    fst (peekCompletion (msgid c) (snd (peekCompletion (msgid c) (pushCompletion c q)))) = None \<and>
    (\<forall>j. j \<noteq> msgid c \<longrightarrow>
      fst (peekCompletion j (snd (peekCompletion (msgid c) (pushCompletion c q)))) =
      fst (peekCompletion j (pushCompletion c q)))"
proof -
  note got = compl.put_then_take [OF TrueI assms]
  have "waitCompletion_turn (msgid c) (pushCompletion c q) =
      Some (c, snd (peekCompletion (msgid c) (pushCompletion c q)))"
    using got by (auto simp: waitCompletion_turn_def bm_wait_turn_def peekCompletion_def Let_def
        split: prod.splits)
  then show ?thesis using got compl.take_once compl.take_other by blast
qed

section \<open>A concrete queue\<close>

definition demo_queue :: "nat comm_queue" where
  "demo_queue = \<lparr>request = [new_CommandImpl 2 7],
     inflight = [(5, setURPCReq 5 VEO_COMMAND_UNFINISHED (new_CommandImpl 1 8))],
     completion = [(0, setResult (Some 9) (Some VEO_COMMAND_OK) (new_CommandImpl_vh 0 3))],
     terminateFlag = False\<rparr>"

theorem cancelAll_completes_all_witness:
  "comq_wf demo_queue \<and> \<not> isActive (cancelAll demo_queue) \<and>
    fst (peekCompletion 2 (cancelAll demo_queue)) =
      Some (setResult (Some 0) (Some VEO_COMMAND_ERROR) (new_CommandImpl 2 7))"
proof -
  have wf: "comq_wf demo_queue"
    by (simp add: demo_queue_def comq_wf_def ids_def cmd_key_def)
  have "new_CommandImpl 2 7 \<in> set (request demo_queue)" by (simp add: demo_queue_def)
  with cancelAll_completes_all [OF wf] wf show ?thesis
    by (metis UnI1 new_command_simps(1))
qed

theorem completion_delivered_once_witness:
  "waitCompletion_turn 2 (pushCompletion (new_CommandImpl 2 7) demo_queue) \<noteq> None \<and>
    fst (peekCompletion 2 (pushCompletion (new_CommandImpl 2 7) demo_queue)) =
      Some (new_CommandImpl 2 7)"
proof -
  have "map_of (completion demo_queue) (msgid (new_CommandImpl 2 (7 :: nat))) = None"
    by (simp add: demo_queue_def)
  from completion_delivered_once [OF this] show ?thesis by simp
qed

end
