(* ===== verification/Urpc_Vh.thy ===== *)
theory Urpc_Vh
  imports Call_Args Command_Queue
begin

text \<open>
  The VH side of the ve-urpc protocol (\<^verbatim>\<open>veo_urpc.h\<close>, \<^verbatim>\<open>veo_urpc_vh.hpp\<close>, \<^verbatim>\<open>veo_urpc_vh.cpp\<close>).

  The transport itself is the ve-urpc library, a separate repository: it is the record
  \<open>urpc_ops\<close> of the functions the sources call, over an abstract state \<open>'e\<close> of the outside world
  (transport, VE process, operating system). Definitions take the record as an argument;
  what they need of it is stated as a hypothesis where it is needed. The variable arguments of
  \<^verbatim>\<open>urpc_generic_send\<close> are a list of items, one per letter of its format string: \<open>L\<close> a 64-bit
  word, \<open>I\<close> a 32-bit word, \<open>P\<close> the bytes at a pointer, \<open>Q\<close> a pointer and a length whose bytes are
  not sent.
\<close>

section \<open>Constants\<close>

definition URPC_CMD_EXIT :: nat where [const_defs]: "URPC_CMD_EXIT = 2"
definition URPC_CMD_ACK :: nat where [const_defs]: "URPC_CMD_ACK = 3"
definition URPC_CMD_RESULT :: nat where [const_defs]: "URPC_CMD_RESULT = 4"
definition URPC_CMD_RES_STK :: nat where [const_defs]: "URPC_CMD_RES_STK = 5"
definition URPC_CMD_EXCEPTION :: nat where [const_defs]: "URPC_CMD_EXCEPTION = 6"
definition URPC_CMD_LOADLIB :: nat where [const_defs]: "URPC_CMD_LOADLIB = 7"
definition URPC_CMD_UNLOADLIB :: nat where [const_defs]: "URPC_CMD_UNLOADLIB = 8"
definition URPC_CMD_GETSYM :: nat where [const_defs]: "URPC_CMD_GETSYM = 9"
definition URPC_CMD_ALLOC :: nat where [const_defs]: "URPC_CMD_ALLOC = 10"
definition URPC_CMD_FREE :: nat where [const_defs]: "URPC_CMD_FREE = 11"
definition URPC_CMD_SENDBUFF :: nat where [const_defs]: "URPC_CMD_SENDBUFF = 12"
definition URPC_CMD_RECVBUFF :: nat where [const_defs]: "URPC_CMD_RECVBUFF = 13"
definition URPC_CMD_CALL :: nat where [const_defs]: "URPC_CMD_CALL = 14"
definition URPC_CMD_CALL_STKIN :: nat where [const_defs]: "URPC_CMD_CALL_STKIN = 15"
definition URPC_CMD_CALL_STKOUT :: nat where [const_defs]: "URPC_CMD_CALL_STKOUT = 16"
definition URPC_CMD_CALL_STKINOUT :: nat where [const_defs]: "URPC_CMD_CALL_STKINOUT = 17"
definition URPC_CMD_NEWPEER :: nat where [const_defs]: "URPC_CMD_NEWPEER = 19"
definition URPC_CMD_ACS_PCIRCVSYC :: nat where [const_defs]: "URPC_CMD_ACS_PCIRCVSYC = 20"
definition URPC_CMD_MEMCPY :: nat where [const_defs]: "URPC_CMD_MEMCPY = 21"

definition REPLY_TIMEOUT :: int where [const_defs]: "REPLY_TIMEOUT = 20000000"
definition PART_SENDFRAG :: u64 where [const_defs]: "PART_SENDFRAG = 4 * 1024 * 1024"
definition RESERVED_STACK_SIZE :: u64 where [const_defs]: "RESERVED_STACK_SIZE = 512 * 1024"
definition SEND_CALL_CMD_SIZE_WITHOUT_DATA :: u64 where
  [const_defs]: "SEND_CALL_CMD_SIZE_WITHOUT_DATA = 40"

section \<open>The transport\<close>

datatype item = ItemL u64 | ItemI u32 | ItemP bytes | ItemQ u64 u64

text \<open>A mailbox word \<^verbatim>\<open>urpc_mb_t\<close>: the command and the description of its payload.\<close>

record urpc_mb =
  mb_cmd :: nat
  mb_payload :: u64

text \<open>
  The first argument of most functions is the peer. \<open>waitpid_exited\<close> is the outcome of
  \<^verbatim>\<open>waitpid(cpid, &status, WNOHANG) == cpid\<close>, \<open>vh_call\<close> a VH function of the application,
  \<open>urpc_receiver_ready\<close> a look at the first receiver flag and the sleep that follows it,
  \<open>op_new\<close> the address the next allocation returns, \<open>wait_child\<close> the blocking
  \<^verbatim>\<open>waitpid\<close> on the child of a peer that also marks it as gone.
\<close>

record 'e urpc_ops =
  urpc_generic_send :: "u64 \<Rightarrow> nat \<Rightarrow> item list \<Rightarrow> 'e \<Rightarrow> int \<times> 'e"
  urpc_get_cmd :: "u64 \<Rightarrow> 'e \<Rightarrow> (int \<times> urpc_mb) \<times> 'e"
  set_recv_payload :: "u64 \<Rightarrow> urpc_mb \<Rightarrow> 'e \<Rightarrow> bytes"
  urpc_slot_done :: "u64 \<Rightarrow> int \<Rightarrow> urpc_mb \<Rightarrow> 'e \<Rightarrow> 'e"
  urpc_next_send_slot :: "u64 \<Rightarrow> 'e \<Rightarrow> int"
  urpc_max_send_cmd_size :: "u64 \<Rightarrow> 'e \<Rightarrow> u64"
  urpc_unpack_payload :: "string \<Rightarrow> bytes \<Rightarrow> int \<times> item list"
  urpc_recv_req_timeout :: "u64 \<Rightarrow> int \<Rightarrow> int \<Rightarrow> 'e \<Rightarrow> (urpc_mb \<times> bytes) option \<times> 'e"
  urpc_receiver_exited :: "u64 \<Rightarrow> 'e \<Rightarrow> bool"
  urpc_receiver_ready :: "u64 \<Rightarrow> 'e \<Rightarrow> bool \<times> 'e"
  vh_urpc_peer_create :: "'e \<Rightarrow> u64 \<times> 'e"
  vh_urpc_child_create :: "u64 \<Rightarrow> string \<Rightarrow> int \<Rightarrow> int \<Rightarrow> 'e \<Rightarrow> int \<times> 'e"
  urpc_wait_peer_attach :: "u64 \<Rightarrow> 'e \<Rightarrow> int \<times> 'e"
  vh_urpc_peer_destroy :: "u64 \<Rightarrow> 'e \<Rightarrow> int \<times> 'e"
  vh_urpc_child_destroy :: "u64 \<Rightarrow> 'e \<Rightarrow> 'e"
  urpc_shm_segid :: "u64 \<Rightarrow> 'e \<Rightarrow> u32"
  urpc_child_pid :: "u64 \<Rightarrow> 'e \<Rightarrow> int"
  wait_child :: "u64 \<Rightarrow> 'e \<Rightarrow> 'e"
  waitpid_exited :: "'e \<Rightarrow> bool \<times> 'e"
  pthread_create_ok :: "'e \<Rightarrow> bool \<times> 'e"
  vh_call :: "u64 \<Rightarrow> u64 \<Rightarrow> mem \<Rightarrow> 'e \<Rightarrow> u64 \<times> mem \<times> 'e"
  op_new :: "host \<Rightarrow> u64"
  align8b :: "u64 \<Rightarrow> u64"
  getenv_var :: "string \<Rightarrow> string option"
  errno_val :: "'e \<Rightarrow> int"

text \<open>Out-parameters of \<^verbatim>\<open>urpc_unpack_payload\<close>: the value before when nothing was stored.\<close>

fun unpack_L :: "item list \<Rightarrow> u64 option \<Rightarrow> u64 option" where
  "unpack_L (ItemL v # _) old = Some v"
| "unpack_L _ old = old"

fun unpack_P :: "item list \<Rightarrow> bytes option" where
  "unpack_P (_ # ItemP b # _) = Some b"
| "unpack_P _ = None"

definition to_bytes :: "u64 list \<Rightarrow> bytes" where
  "to_bytes ws = concat (map (le_bytes 8) ws)"

section \<open>Requests and replies\<close>

text \<open>
  Sizes are \<^verbatim>\<open>size_t\<close>; the \<^verbatim>\<open>int64_t\<close> limit is converted to it before it is compared. The stack
  bytes are read from the VH memory when the message is built.
\<close>

definition call_stack_size :: "u64 \<Rightarrow> u64 list \<Rightarrow> u64 \<Rightarrow> u64" where
  "call_stack_size max_cmd regs ssize =
     (let regsz = of_nat (length regs) * 8;
          max_args_size = max_cmd - SEND_CALL_CMD_SIZE_WITHOUT_DATA
      in if ssize > max_args_size - regsz then max_args_size - regsz else ssize)"

definition send_call_nolock ::
  "'e urpc_ops \<Rightarrow> u64 \<Rightarrow> u64 \<Rightarrow> u64 \<Rightarrow> u64 list \<Rightarrow> u64 \<Rightarrow> u64 \<Rightarrow> bool \<Rightarrow> bool \<Rightarrow> u64
    \<Rightarrow> mem \<Rightarrow> 'e \<Rightarrow> int \<times> 'e" where
  "send_call_nolock ops up ve_sp addr regs stop ssize cin cout sbuf m e =
     (let sz = call_stack_size (urpc_max_send_cmd_size ops up e) regs ssize;
          regsp = ItemP (to_bytes regs)
      in if \<not> (cin \<or> cout)
         then urpc_generic_send ops up URPC_CMD_CALL [ItemL addr, regsp] e
         else if cin \<and> \<not> cout
         then urpc_generic_send ops up URPC_CMD_CALL_STKIN
                [ItemL addr, regsp, ItemL stop, ItemL ve_sp,
                 ItemP (mem_read m sbuf (unat sz))] e
         else if cin \<and> cout
         then urpc_generic_send ops up URPC_CMD_CALL_STKINOUT
                [ItemL addr, regsp, ItemL stop, ItemL ve_sp,
                 ItemP (mem_read m sbuf (unat sz))] e
         else urpc_generic_send ops up URPC_CMD_CALL_STKOUT
                [ItemL addr, regsp, ItemL stop, ItemL ve_sp, ItemQ sbuf sz] e)"

text \<open>
  \<open>cout\<close> is \<open>None\<close> for an empty \<^verbatim>\<open>std::function\<close>, \<open>stack\<close> 0 for a null pointer. Results: the
  return code, \<^verbatim>\<open>*result\<close>, the VH memory.
\<close>

definition unpack_call_result ::
  "'e urpc_ops \<Rightarrow> urpc_mb \<Rightarrow> copy list option \<Rightarrow> bytes \<Rightarrow> u64 option \<Rightarrow> u64 \<Rightarrow> mem
    \<Rightarrow> exc + (int \<times> u64 option \<times> mem)" where
  "unpack_call_result ops m cout payload result stack vm =
     (if mb_cmd m = URPC_CMD_RESULT then
        (if payload \<noteq> []
         then let (rc, its) = urpc_unpack_payload ops ''L'' payload
              in Inr (rc, unpack_L its result, vm)
         else Inr (- 1, result, vm))
      else if mb_cmd m = URPC_CMD_RES_STK then
        (let (rc, its) = urpc_unpack_payload ops ''LP'' payload;
             result' = unpack_L its result
         in if rc = 0
            then (case unpack_P its of
                    None \<Rightarrow> Inl NullDeref
                  | Some sb \<Rightarrow>
                      if stack \<noteq> 0 then Inr (rc, result', mem_write vm stack sb)
                      else (case cout of
                              None \<Rightarrow> Inl BadFunctionCall
                            | Some cs \<Rightarrow>
                                bind_exc (run_copyout (rd_payload sb) cs vm)
                                  (\<lambda>vm'. Inr (rc, result', vm'))))
            else Inr (rc, result', vm))
      else if mb_cmd m = URPC_CMD_EXCEPTION then
        (let (rc, its) = urpc_unpack_payload ops ''LP'' payload
         in Inr (- 4, unpack_L its (Some 0), vm))
      else Inr (- 3, result, vm))"

definition wait_req_result ::
  "'e urpc_ops \<Rightarrow> u64 \<Rightarrow> int \<Rightarrow> u64 option \<Rightarrow> 'e \<Rightarrow> int \<times> u64 option \<times> 'e" where
  "wait_req_result ops up req result e =
     (case urpc_recv_req_timeout ops up req REPLY_TIMEOUT e of
        (None, e1) \<Rightarrow> (- 1, result, e1)
      | (Some (m, payload), e1) \<Rightarrow>
          if mb_cmd m = URPC_CMD_RESULT then
            (if payload \<noteq> []
             then let (rc, its) = urpc_unpack_payload ops ''L'' payload
                  in (0, unpack_L its result, urpc_slot_done ops up req m e1)
             else (0, result, e1))
          else (- 1, result, e1))"

definition wait_req_ack :: "'e urpc_ops \<Rightarrow> u64 \<Rightarrow> int \<Rightarrow> 'e \<Rightarrow> int \<times> 'e" where
  "wait_req_ack ops up req e =
     (case urpc_recv_req_timeout ops up req REPLY_TIMEOUT e of
        (None, e1) \<Rightarrow> (- 1, e1)
      | (Some (m, payload), e1) \<Rightarrow>
          if mb_cmd m \<noteq> URPC_CMD_ACK then (- 2, e1)
          else (0, urpc_slot_done ops up req m e1))"

end
