(* ===== verification/Veo_Context.thy ===== *)
theory Veo_Context
  imports Urpc_Vh
begin

text \<open>
  A thread context and its progress engine (\<^verbatim>\<open>Context.hpp\<close>, \<^verbatim>\<open>Context.cpp\<close> and the command
  lambdas of \<^verbatim>\<open>AsyncTransfer.cpp\<close>).

  A context is the record \<open>context\<close>; \<open>cst\<close> extends it with what its methods also read and
  write: the outside world, the VH memory, and the flag of the owning \<^verbatim>\<open>ProcHandle\<close> that its VE
  process lives. A method returns an exception or a value together with the state it leaves.

  The lambdas a command is built with are a value of \<open>cmd_kind\<close>, one constructor for each pair of
  lambdas with what they capture; \<open>run_handler\<close> and \<open>run_unpack\<close> are the calls of the two
  function objects. A VH function of the application acts on the VH memory and the outside world,
  not on the context that runs it.

  \<^verbatim>\<open>prog_mtx\<close> serialises the progress engine; a \<^verbatim>\<open>try_lock\<close> that may fail is a Boolean argument.
\<close>

section \<open>State\<close>

datatype cmd_kind =
    KNop
  | KVHFunc u64 u64
  | KLargeCall u64 u64 u64 u64 bool "copy list"
    \<comment> \<open>\<open>writereq\<close>, \<open>callreq\<close>, \<open>readreq\<close>, \<open>stack\<close>, \<open>copyout\<close>, \<open>copyout_func\<close>\<close>
  | KGeneric nat "item list"
  | KSendBuff u64 u64 u64 u64 \<comment> \<open>\<open>dst\<close>, \<open>src\<close>, \<open>size\<close>, \<open>prev\<close>\<close>
  | KRecvBuff u64 u64 u64 u64 \<comment> \<open>\<open>dst\<close>, \<open>src\<close>, \<open>size\<close>, \<open>prev\<close>\<close>
  | KCall u64 "u64 list" u64 u64 bool bool u64 u64 "copy list option"
    \<comment> \<open>\<open>addr\<close>, \<open>regs\<close>, \<open>stack_top\<close>, \<open>stack_size\<close>, \<open>copyin\<close>, \<open>copyout\<close>, \<open>stack\<close>, \<open>stack_\<close>,
       \<open>copyout_func\<close>\<close>

type_synonym cmd = "cmd_kind command"

record ctx =
  comq :: "cmd_kind comm_queue"
  ctx_state :: veo_context_state
  is_main :: bool
  seq_no :: u64
  ve_sp :: u64
  core :: int
  up :: u64
  rem_reqid :: "u64 set"
  progress_count :: u64
  has_thread :: bool \<comment> \<open>\<open>progress_thread\<close> is not \<open>-1\<close>\<close>

record 'e cst = ctx +
  env :: 'e
  hst :: host
  proc_survival :: bool

type_synonym ('e, 'a) res = "(exc + 'a) \<times> 'e cst"

definition bind_st ::
  "(exc + 'a) \<times> 's \<Rightarrow> ('a \<Rightarrow> 's \<Rightarrow> (exc + 'b) \<times> 's) \<Rightarrow> (exc + 'b) \<times> 's" where
  "bind_st r f = (case fst r of Inl e \<Rightarrow> (Inl e, snd r) | Inr a \<Rightarrow> f a (snd r))"

lemma bind_st_simps [simp]:
  "bind_st (Inl e, s) f = (Inl e, s)"
  "bind_st (Inr a, s) f = f a s"
  by (simp_all add: bind_st_def)

text \<open>\<^verbatim>\<open>Context::Context\<close>; \<open>ve_sp\<close> and \<open>core\<close> are set by the process handle later.\<close>

definition new_Context :: "u64 \<Rightarrow> bool \<Rightarrow> ctx" where
  "new_Context p main = \<lparr>comq = new_CommQueue, ctx_state = VEO_STATE_UNKNOWN, is_main = main,
     seq_no = 0, ve_sp = 0, core = 0, up = p, rem_reqid = {}, progress_count = 0,
     has_thread = False\<rparr>"

section \<open>Request identifiers\<close>

text \<open>\<^verbatim>\<open>fetch_add\<close> until the value is not the invalid one.\<close>

function fetch_id :: "u64 \<Rightarrow> u64 \<times> u64" where
  "fetch_id seq =
     (if seq = VEO_REQUEST_ID_INVALID then fetch_id (seq + 1) else (seq, seq + 1))"
  by pat_completeness auto
termination
  by (relation "measure (\<lambda>seq. if seq = VEO_REQUEST_ID_INVALID then 1 else 0)")
    (auto simp: VEO_REQUEST_ID_INVALID_def)

declare fetch_id.simps [simp del]

definition issueRequestID :: "'e cst \<Rightarrow> u64 \<times> 'e cst" where
  "issueRequestID s =
     (let (r, seq) = fetch_id (seq_no s)
      in (r, s\<lparr>seq_no := seq, rem_reqid := insert r (rem_reqid s)\<rparr>))"

definition is_alive :: "'e urpc_ops \<Rightarrow> 'e cst \<Rightarrow> bool" where
  "is_alive ops s =
     (if ctx_state s = VEO_STATE_EXIT then False
      else if urpc_receiver_exited ops (up s) (env s) then False
      else True)"

text \<open>
  \<^verbatim>\<open>_peekResult\<close>: the status returned, \<^verbatim>\<open>*retp\<close>, the state. \<open>None\<close> is an indeterminate value.
\<close>

definition peekResult ::
  "u64 \<Rightarrow> u64 option \<Rightarrow> 'e cst \<Rightarrow> veo_command_state option \<times> u64 option \<times> 'e cst" where
  "peekResult reqid ret s =
     (if reqid \<notin> rem_reqid s then (Some VEO_COMMAND_ERROR, ret, s)
      else case peekCompletion reqid (comq s) of
             (None, q) \<Rightarrow> (Some VEO_COMMAND_UNFINISHED, ret, s\<lparr>comq := q\<rparr>)
           | (Some c, q) \<Rightarrow>
               (status c, retval c, s\<lparr>comq := q, rem_reqid := rem_reqid s - {reqid}\<rparr>))"

section \<open>Command functions\<close>

text \<open>The end every submit function has: the outcome of the send decides.\<close>

definition submitted :: "int \<Rightarrow> cmd \<Rightarrow> int \<times> cmd" where
  "submitted req c =
     (if req \<ge> 0 then (0, setURPCReq req VEO_COMMAND_UNFINISHED c)
      else if req = - EAGAIN then (- EAGAIN, c)
      else (- 1, setResult (Some 0) (Some VEO_COMMAND_ERROR) c))"

text \<open>The request numbers of these three kinds go through an \<^verbatim>\<open>int\<close>; those of a call do not.\<close>

definition handle_generic :: "'e urpc_ops \<Rightarrow> nat \<Rightarrow> item list \<Rightarrow> cmd \<Rightarrow> 'e cst \<Rightarrow> int \<times> cmd \<times> 'e cst"
  where
  "handle_generic ops cm its c s =
     (let (r, e) = urpc_generic_send ops (up s) cm its (env s);
          (rv, c') = submitted (to_int32 r) c
      in (rv, c', s\<lparr>env := e\<rparr>))"

definition handle_sendbuff ::
  "'e urpc_ops \<Rightarrow> u64 \<Rightarrow> u64 \<Rightarrow> u64 \<Rightarrow> cmd \<Rightarrow> 'e cst \<Rightarrow> int \<times> cmd \<times> 'e cst" where
  "handle_sendbuff ops dst src sz c s =
     (let (r, e) = urpc_generic_send ops (up s) URPC_CMD_SENDBUFF
                     [ItemL dst, ItemP (mem_read (vhmem (hst s)) src (unat sz))] (env s);
          (rv, c') = submitted (to_int32 r) c
      in (rv, c', s\<lparr>env := e\<rparr>))"

definition handle_recvbuff ::
  "'e urpc_ops \<Rightarrow> u64 \<Rightarrow> u64 \<Rightarrow> u64 \<Rightarrow> cmd \<Rightarrow> 'e cst \<Rightarrow> int \<times> cmd \<times> 'e cst" where
  "handle_recvbuff ops dst src sz c s =
     (let (r, e) = urpc_generic_send ops (up s) URPC_CMD_RECVBUFF
                     [ItemL src, ItemL dst, ItemL sz] (env s);
          (rv, c') = submitted (to_int32 r) c
      in (rv, c', s\<lparr>env := e\<rparr>))"

definition handle_call ::
  "'e urpc_ops \<Rightarrow> u64 \<Rightarrow> u64 list \<Rightarrow> u64 \<Rightarrow> u64 \<Rightarrow> bool \<Rightarrow> bool \<Rightarrow> u64 \<Rightarrow> cmd \<Rightarrow> 'e cst
    \<Rightarrow> int \<times> cmd \<times> 'e cst" where
  "handle_call ops addr regs tp sz cin cout stk c s =
     (let (r, e) = send_call_nolock ops (up s) (ve_sp s) addr regs tp sz cin cout stk
                     (vhmem (hst s)) (env s);
          (rv, c') = submitted r c
      in (rv, c', s\<lparr>env := e\<rparr>))"

definition handle_vh :: "'e urpc_ops \<Rightarrow> u64 \<Rightarrow> u64 \<Rightarrow> cmd \<Rightarrow> 'e cst \<Rightarrow> int \<times> cmd \<times> 'e cst" where
  "handle_vh ops func a c s =
     (let (rv, m, e) = vh_call ops func a (vhmem (hst s)) (env s)
      in (0, setResult (Some rv) (Some VEO_COMMAND_OK) c,
          s\<lparr>env := e, hst := (hst s)\<lparr>vhmem := m\<rparr>\<rparr>))"

text \<open>The collecting command of a call whose arguments were transferred separately.\<close>

definition peek_if_valid ::
  "u64 \<Rightarrow> u64 option \<Rightarrow> 'e cst \<Rightarrow> veo_command_state option \<times> u64 option \<times> 'e cst" where
  "peek_if_valid reqid ret s =
     (if reqid \<noteq> VEO_REQUEST_ID_INVALID then peekResult reqid ret s
      else (Some VEO_COMMAND_OK, ret, s))"

definition handle_large_call ::
  "u64 \<Rightarrow> u64 \<Rightarrow> u64 \<Rightarrow> u64 \<Rightarrow> bool \<Rightarrow> copy list \<Rightarrow> cmd \<Rightarrow> 'e cst \<Rightarrow> (exc + int) \<times> cmd \<times> 'e cst"
  where
  "handle_large_call writereq callreq readreq stk cout cs c s =
     (let (writestat, dummy1, s1) = peek_if_valid writereq (Some 0) s;
          (callstat, result, s2) = peek_if_valid callreq (Some 0) s1;
          (readstat, dummy2, s3) = peek_if_valid readreq dummy1 s2;
          m = (if readstat = Some VEO_COMMAND_OK \<and> cout
               then run_copyout (rd_host stk) cs (vhmem (hst s3)) else Inr (vhmem (hst s3)))
      in case m of
           Inl e \<Rightarrow> (Inl e, c, s3)
         | Inr vm \<Rightarrow>
             let s4 = s3\<lparr>hst := delete_char stk ((hst s3)\<lparr>vhmem := vm\<rparr>)\<rparr>
             in if writestat \<noteq> Some VEO_COMMAND_OK then (Inr 0, setResult result writestat c, s4)
                else if callstat \<noteq> Some VEO_COMMAND_OK then (Inr 0, setResult result callstat c, s4)
                else if readstat \<noteq> Some VEO_COMMAND_OK then (Inr 0, setResult result readstat c, s4)
                else (Inr 0, setResult result (Some VEO_COMMAND_OK) c, s4))"

fun run_handler :: "'e urpc_ops \<Rightarrow> cmd_kind \<Rightarrow> cmd \<Rightarrow> 'e cst \<Rightarrow> (exc + int) \<times> cmd \<times> 'e cst" where
  "run_handler ops KNop c s = (Inr 0, setResult (Some 0) (Some VEO_COMMAND_OK) c, s)"
| "run_handler ops (KVHFunc f a) c s = map_prod Inr id (handle_vh ops f a c s)"
| "run_handler ops (KLargeCall w cl r stk cout cs) c s = handle_large_call w cl r stk cout cs c s"
| "run_handler ops (KGeneric cm its) c s = map_prod Inr id (handle_generic ops cm its c s)"
| "run_handler ops (KSendBuff dst src sz prev) c s =
     map_prod Inr id (handle_sendbuff ops dst src sz c s)"
| "run_handler ops (KRecvBuff dst src sz prev) c s =
     map_prod Inr id (handle_recvbuff ops dst src sz c s)"
| "run_handler ops (KCall addr regs tp sz cin cout stk ext cs) c s =
     map_prod Inr id (handle_call ops addr regs tp sz cin cout stk c s)"

text \<open>The result functions. A chained transfer collects the result of the request before it.\<close>

definition chain_result :: "u64 \<Rightarrow> 'e cst \<Rightarrow> u64 option \<times> veo_command_state option \<times> 'e cst" where
  "chain_result prev s =
     (if prev \<noteq> VEO_REQUEST_ID_INVALID
      then let (rc, result, s') = peekResult prev (Some 0) s
           in if rc \<noteq> Some VEO_COMMAND_OK then (result, rc, s')
              else (result, Some VEO_COMMAND_OK, s')
      else (Some 0, Some VEO_COMMAND_OK, s))"

definition unpack_sendbuff ::
  "u64 \<Rightarrow> cmd \<Rightarrow> urpc_mb \<Rightarrow> 'e cst \<Rightarrow> (exc + int) \<times> cmd \<times> 'e cst" where
  "unpack_sendbuff prev c m s =
     (let (result, st, s') = chain_result prev s
      in if mb_cmd m = URPC_CMD_EXCEPTION
         then (Inr (- int URPC_CMD_SENDBUFF),
               setResult (Some (- of_nat URPC_CMD_SENDBUFF)) (Some VEO_COMMAND_EXCEPTION) c, s')
         else (Inr 0, setResult result st c, s'))"

definition unpack_recvbuff ::
  "'e urpc_ops \<Rightarrow> u64 \<Rightarrow> u64 \<Rightarrow> u64 \<Rightarrow> cmd \<Rightarrow> bytes \<Rightarrow> 'e cst \<Rightarrow> (exc + int) \<times> cmd \<times> 'e cst" where
  "unpack_recvbuff ops dst sz prev c payload s =
     (let (rc, its) = urpc_unpack_payload ops ''LP'' payload;
          failed = setResult (Some (- of_nat URPC_CMD_RECVBUFF)) (Some VEO_COMMAND_EXCEPTION) c
      in case unpack_L its None of
           None \<Rightarrow> (Inl Uninitialized, c, s)
         | Some sent_dst \<Rightarrow>
             if dst \<noteq> sent_dst then (Inr (- 1), failed, s)
             else (case unpack_P its of
                     None \<Rightarrow> (Inl Uninitialized, c, s)
                   | Some b \<Rightarrow>
                       if sz \<noteq> of_nat (length b) then (Inr (- 1), failed, s)
                       else let (result, st, s') =
                                  chain_result prev (s\<lparr>hst := memcpy_to dst b (hst s)\<rparr>)
                            in (Inr 0, setResult result st c, s')))"

definition unpack_generic ::
  "'e urpc_ops \<Rightarrow> cmd \<Rightarrow> urpc_mb \<Rightarrow> bytes \<Rightarrow> 'e cst \<Rightarrow> (exc + int) \<times> cmd \<times> 'e cst" where
  "unpack_generic ops c m payload s =
     (if mb_cmd m = URPC_CMD_ACK
      then (Inr 0, setResult (Some 0) (Some VEO_COMMAND_OK) c, s)
      else if mb_cmd m \<noteq> URPC_CMD_RES_STK
      then (case unpack_call_result ops m None payload None 0 (vhmem (hst s)) of
              Inl e \<Rightarrow> (Inl e, c, s)
            | Inr (rv, result, vm) \<Rightarrow>
                if rv < 0
                then (Inr rv, setResult result (Some VEO_COMMAND_EXCEPTION) c,
                      s\<lparr>ctx_state := VEO_STATE_EXIT\<rparr>)
                else (Inr 0, setResult result (Some VEO_COMMAND_OK) c, s))
      else (Inr 0, c, s))"

definition unpack_call ::
  "'e urpc_ops \<Rightarrow> u64 \<Rightarrow> u64 \<Rightarrow> copy list option \<Rightarrow> cmd \<Rightarrow> urpc_mb \<Rightarrow> bytes \<Rightarrow> 'e cst
    \<Rightarrow> (exc + int) \<times> cmd \<times> 'e cst" where
  "unpack_call ops stk ext cs c m payload s =
     (case unpack_call_result ops m cs payload None ext (vhmem (hst s)) of
        Inl e \<Rightarrow> (Inl e, c, s)
      | Inr (rv, result, vm) \<Rightarrow>
          let h1 = (hst s)\<lparr>vhmem := vm\<rparr>;
              h2 = (if ext = 0 then delete_char stk h1 else h1);
              s1 = s\<lparr>hst := h2\<rparr>
          in if rv < 0
             then (Inr rv, setResult result (Some VEO_COMMAND_EXCEPTION) c,
                   s1\<lparr>ctx_state := VEO_STATE_EXIT\<rparr>)
             else (Inr 0, setResult result (Some VEO_COMMAND_OK) c, s1))"

text \<open>The result function of a VH command is empty.\<close>

fun run_unpack ::
  "'e urpc_ops \<Rightarrow> cmd_kind \<Rightarrow> cmd \<Rightarrow> urpc_mb \<Rightarrow> bytes \<Rightarrow> 'e cst \<Rightarrow> (exc + int) \<times> cmd \<times> 'e cst" where
  "run_unpack ops (KGeneric cm its) c m payload s = unpack_generic ops c m payload s"
| "run_unpack ops (KSendBuff dst src sz prev) c m payload s = unpack_sendbuff prev c m s"
| "run_unpack ops (KRecvBuff dst src sz prev) c m payload s =
     unpack_recvbuff ops dst sz prev c payload s"
| "run_unpack ops (KCall addr regs tp sz cin cout stk ext cs) c m payload s =
     unpack_call ops stk ext cs c m payload s"
| "run_unpack ops _ c m payload s = (Inl BadFunctionCall, c, s)"

section \<open>The progress engine\<close>

text \<open>
  One turn of the loop of \<^verbatim>\<open>_progress_nolock\<close>: \<open>Again\<close> when something was received or sent,
  \<open>Ret\<close> when the function returns, \<open>Throws\<close> when an exception leaves it.
\<close>

datatype 'e turn = Again "'e cst" | Ret int "'e cst" | Throws exc "'e cst"

definition on_reply :: "'e urpc_ops \<Rightarrow> int \<Rightarrow> urpc_mb \<Rightarrow> 'e cst \<Rightarrow> 'e turn" where
  "on_reply ops req m s =
     (case popInFlight req (comq s) of
        (None, q) \<Rightarrow> Throws (VEOException (to_int32 req)) (s\<lparr>comq := q\<rparr>)
      | (Some c, q) \<Rightarrow>
          let s1 = s\<lparr>comq := q\<rparr>;
              payload = set_recv_payload ops (up s1) m (env s1)
          in case run_unpack ops (kind c) c m payload s1 of
               (Inl e, _, s2) \<Rightarrow> Throws e s2
             | (Inr rv, c', s2) \<Rightarrow>
                 let s3 = s2\<lparr>env := urpc_slot_done ops (up s2) req m (env s2)\<rparr>;
                     s4 = (if \<not> nowait c' then s3\<lparr>comq := pushCompletion c' (comq s3)\<rparr> else s3)
                 in if rv < 0
                    then Ret (- 1) (s4\<lparr>ctx_state := VEO_STATE_EXIT, comq := cancelAll (comq s4)\<rparr>)
                    else Again s4)"

definition idle_turn :: "'e urpc_ops \<Rightarrow> 'e cst \<Rightarrow> 'e turn" where
  "idle_turn ops s =
     (if progress_count s mod 100 = 0
      then if proc_survival s
           then let (dead, e) = waitpid_exited ops (env s)
                in if dead
                   then Ret (- 1) (s\<lparr>env := e, proc_survival := False,
                          ctx_state := VEO_STATE_EXIT, comq := cancelAll (comq s)\<rparr>)
                   else Ret 0 (s\<lparr>env := e, progress_count := progress_count s + 1\<rparr>)
           else Ret (- 1) (s\<lparr>ctx_state := VEO_STATE_EXIT, comq := cancelAll (comq s)\<rparr>)
      else Ret 0 (s\<lparr>progress_count := progress_count s + 1\<rparr>))"

definition submit_vh :: "'e urpc_ops \<Rightarrow> bool \<Rightarrow> cmd \<Rightarrow> 'e cst \<Rightarrow> 'e turn" where
  "submit_vh ops execVH c s =
     (if emptyInFlight (comq s) \<and> execVH
      then case run_handler ops (kind c) c s of
             (Inl e, _, s1) \<Rightarrow> Throws e s1
           | (Inr rv, c', s1) \<Rightarrow> Again (s1\<lparr>comq := pushCompletion c' (comq s1)\<rparr>)
      else Ret 1 (s\<lparr>comq := pushRequestFront c (comq s)\<rparr>))"

definition submit_ve :: "'e urpc_ops \<Rightarrow> cmd \<Rightarrow> 'e cst \<Rightarrow> 'e turn" where
  "submit_ve ops c s =
     (case run_handler ops (kind c) c s of
        (Inl e, _, s1) \<Rightarrow> Throws e s1
      | (Inr rv, c', s1) \<Rightarrow>
          if rv = 0
          then (case pushInFlight c' (comq s1) of
                  Inl e \<Rightarrow> Throws e s1
                | Inr q \<Rightarrow> Again (s1\<lparr>comq := q\<rparr>))
          else if rv = - EAGAIN
          then idle_turn ops (s1\<lparr>comq := pushRequestFront c' (comq s1)\<rparr>)
          else idle_turn ops (s1\<lparr>comq :=
                 pushCompletion (setResult (Some (of_int rv)) (Some VEO_COMMAND_ERROR) c') (comq s1)\<rparr>))"

definition progress_turn :: "'e urpc_ops \<Rightarrow> bool \<Rightarrow> 'e cst \<Rightarrow> 'e turn" where
  "progress_turn ops execVH s =
     (let ((req, m), e) = urpc_get_cmd ops (up s) (env s); s1 = s\<lparr>env := e\<rparr>
      in if req \<ge> 0 then on_reply ops req m s1
         else if urpc_next_send_slot ops (up s1) (env s1) < 0 then Ret 0 s1
         else case tryPopRequest (comq s1) of
                (None, q) \<Rightarrow> idle_turn ops (s1\<lparr>comq := q\<rparr>)
              | (Some c, q) \<Rightarrow>
                  if is_vh c then submit_vh ops execVH c (s1\<lparr>comq := q\<rparr>)
                  else submit_ve ops c (s1\<lparr>comq := q\<rparr>))"

section \<open>What command functions leave alone\<close>

text \<open>
  A command function touches the queues only by collecting results of finished requests:
  \<open>peeked K\<close> relates the states before and after results \<open>K\<close> were collected.
\<close>

definition peeked :: "u64 set \<Rightarrow> 'e cst \<Rightarrow> 'e cst \<Rightarrow> bool" where
  "peeked K s t \<longleftrightarrow> request (comq t) = request (comq s) \<and> inflight (comq t) = inflight (comq s) \<and>
     terminateFlag (comq t) = terminateFlag (comq s) \<and>
     completion (comq t) = filter (\<lambda>e. fst e \<notin> K) (completion (comq s)) \<and>
     K \<subseteq> rem_reqid s \<inter> fst ` set (completion (comq s)) \<and> rem_reqid t = rem_reqid s - K \<and>
     up t = up s \<and> seq_no t = seq_no s \<and> ve_sp t = ve_sp s"

lemma peeked_empty [simp]:
  "peeked {} s s"
  "peeked {} s (s\<lparr>env := e\<rparr>)" "peeked {} s (s\<lparr>hst := h\<rparr>)" "peeked {} s (s\<lparr>ctx_state := x\<rparr>)"
  "peeked {} s (s\<lparr>env := e, hst := h\<rparr>)"  "peeked {} s (s\<lparr>hst := h, ctx_state := x\<rparr>)"
  by (simp_all add: peeked_def)

lemma peeked_trans: "peeked K s t \<Longrightarrow> peeked L t u \<Longrightarrow> peeked (K \<union> L) s u"
  by (auto simp: peeked_def)

lemma peeked_hst: "peeked K s t \<Longrightarrow> peeked K s (t\<lparr>hst := h\<rparr>)"
  by (simp add: peeked_def)

lemma peekResult_peeked: "peekResult r ret s = (rc, v, t) \<Longrightarrow> \<exists>K. peeked K s t"
proof -
  assume p: "peekResult r ret s = (rc, v, t)"
  show ?thesis
  proof (cases "r \<in> rem_reqid s \<and> map_of (completion (comq s)) r \<noteq> None")
    case True
    then obtain c where "map_of (completion (comq s)) r = Some c" by blast
    then have "peeked {r} s t"
      using p True by (force simp: peekResult_def peekCompletion_def bm_tryFindNoWait_def peeked_def
          dest: map_of_SomeD)
    then show ?thesis ..
  next
    case False
    then have "t = s"
      using p by (auto simp: peekResult_def peekCompletion_def bm_tryFindNoWait_def split: if_splits)
    then show ?thesis using peeked_empty(1) by blast
  qed
qed

lemma chain_result_peeked: "chain_result prev s = (v, rc, t) \<Longrightarrow> \<exists>K. peeked K s t"
  by (auto simp: chain_result_def Let_def split: if_splits prod.splits
      dest: peekResult_peeked intro: peeked_empty)

lemma peek_if_valid_peeked: "peek_if_valid r ret s = (rc, v, t) \<Longrightarrow> \<exists>K. peeked K s t"
  by (auto simp: peek_if_valid_def split: if_splits dest: peekResult_peeked intro: peeked_empty)

text \<open>The command keeps its identity through both functions.\<close>

definition same_cmd :: "cmd \<Rightarrow> cmd \<Rightarrow> bool" where
  "same_cmd c d \<longleftrightarrow> msgid d = msgid c \<and> nowait d = nowait c \<and> is_vh d = is_vh c \<and> kind d = kind c"

lemma same_cmd_simps [simp]:
  "same_cmd c c" "same_cmd c (setResult r st c)" "same_cmd c (setURPCReq n x c)"
  by (simp_all add: same_cmd_def)

lemma submitted_same: "submitted r c = (rv, d) \<Longrightarrow> same_cmd c d"
  by (auto simp: submitted_def split: if_splits)

lemma unpack_frames:
  "unpack_sendbuff prev c m s = (r, d, t) \<Longrightarrow> same_cmd c d \<and> (\<exists>K. peeked K s t)"
  "unpack_recvbuff ops dst sz prev c payload s = (r, d, t) \<Longrightarrow> same_cmd c d \<and> (\<exists>K. peeked K s t)"
  "unpack_generic ops c m payload s = (r, d, t) \<Longrightarrow> same_cmd c d \<and> (\<exists>K. peeked K s t)"
  "unpack_call ops stk ext cs c m payload s = (r, d, t) \<Longrightarrow> same_cmd c d \<and> (\<exists>K. peeked K s t)"
proof -
  have hst: "\<exists>K. peeked K s t" if "peeked K (s\<lparr>hst := h\<rparr>) t" for K h and s t :: "'e cst"
    using peeked_trans [OF peeked_empty(3) that] by blast
  show "unpack_sendbuff prev c m s = (r, d, t) \<Longrightarrow> same_cmd c d \<and> (\<exists>K. peeked K s t)"
    by (auto simp: unpack_sendbuff_def Let_def split: if_splits prod.splits
        dest: chain_result_peeked)
  show "unpack_recvbuff ops dst sz prev c payload s = (r, d, t) \<Longrightarrow>
      same_cmd c d \<and> (\<exists>K. peeked K s t)"
    by (auto simp: unpack_recvbuff_def Let_def split: if_splits prod.splits option.splits
        dest!: chain_result_peeked dest: hst intro: peeked_empty)
  show "unpack_generic ops c m payload s = (r, d, t) \<Longrightarrow> same_cmd c d \<and> (\<exists>K. peeked K s t)"
    by (auto simp: unpack_generic_def Let_def split: if_splits prod.splits sum.splits
        intro: peeked_empty)
  show "unpack_call ops stk ext cs c m payload s = (r, d, t) \<Longrightarrow>
      same_cmd c d \<and> (\<exists>K. peeked K s t)"
    by (auto simp: unpack_call_def Let_def split: if_splits prod.splits sum.splits
        intro: peeked_empty)
qed

lemma run_unpack_frame:
  assumes "run_unpack ops k c m payload s = (r, d, t)"
  shows "same_cmd c d \<and> (\<exists>K. peeked K s t)"
  using assms
  by (cases k) (auto dest: unpack_frames intro: peeked_empty)

lemma run_unpack_env: "run_unpack ops k c m payload s = (r, d, t) \<Longrightarrow> env t = env s"
  by (cases k)
    (auto simp: unpack_sendbuff_def unpack_recvbuff_def unpack_generic_def unpack_call_def
      chain_result_def peekResult_def Let_def
      split: if_splits prod.splits option.splits sum.splits)

lemma handle_large_call_frame:
  assumes "handle_large_call w cl rd stk cout cs c s = (r, d, t)"
  shows "same_cmd c d \<and> (\<exists>K. peeked K s t) \<and> env t = env s"
proof -
  obtain ws d1 s1 where 1: "peek_if_valid w (Some 0) s = (ws, d1, s1)" by (metis prod_cases3)
  obtain cs' res s2 where 2: "peek_if_valid cl (Some 0) s1 = (cs', res, s2)" by (metis prod_cases3)
  obtain rs d2 s3 where 3: "peek_if_valid rd d1 s2 = (rs, d2, s3)" by (metis prod_cases3)
  obtain K where K: "peeked K s s3"
    using 1 2 3 by (metis peek_if_valid_peeked peeked_trans)
  have "env s1 = env s" "env s2 = env s1" "env s3 = env s2"
    using 1 2 3 by (auto simp: peek_if_valid_def peekResult_def split: if_splits prod.splits option.splits)
  with assms K show ?thesis
    by (auto simp: handle_large_call_def 1 2 3 Let_def split: if_splits sum.splits
        intro: peeked_hst)
qed

lemma run_handler_frame:
  assumes "run_handler ops k c s = (r, d, t)"
  shows "same_cmd c d \<and> (\<exists>K. peeked K s t)"
proof (cases k)
  case (KLargeCall w cl rd stk cout cs)
  with assms have "handle_large_call w cl rd stk cout cs c s = (r, d, t)" by simp
  from handle_large_call_frame [OF this] show ?thesis by blast
qed (use assms in \<open>auto simp: handle_vh_def handle_generic_def handle_sendbuff_def
    handle_recvbuff_def handle_call_def Let_def split: prod.splits
    dest: submitted_same intro: peeked_empty\<close>)

section \<open>The loop\<close>

definition work_left :: "'e cst \<Rightarrow> nat" where
  "work_left s = 2 * length (request (comq s)) + length (inflight (comq s))"

lemma work_left_comq [simp]: "work_left (s\<lparr>env := e\<rparr>) = work_left s"
  by (simp add: work_left_def)

lemma on_reply_shrinks:
  assumes "on_reply ops req m s = Again t"
  shows "work_left t < work_left s"
proof -
  obtain c q where c: "popInFlight req (comq s) = (Some c, q)"
    using assms by (auto simp: on_reply_def split: prod.splits option.splits)
  have q: "request q = request (comq s)" "length (inflight q) < length (inflight (comq s))"
    using c by (auto simp: popInFlight_def bm_tryFindNoWait_def Let_def dest!: map_of_SomeD
        intro!: length_filter_less split: option.splits)
  obtain r d u where u: "run_unpack ops (kind c) c m (set_recv_payload ops (up s) m (env s))
      (s\<lparr>comq := q\<rparr>) = (r, d, u)"
    by (metis prod_cases3)
  have "request (comq u) = request q" "inflight (comq u) = inflight q"
    using run_unpack_frame [OF u] by (auto simp: peeked_def)
  with q assms show ?thesis
    by (auto simp: on_reply_def c u Let_def work_left_def pushCompletion_def
        split: sum.splits if_splits)
qed

lemma idle_turn_Again [simp]: "idle_turn ops s \<noteq> Again t"
  by (simp add: idle_turn_def Let_def split: prod.splits)

lemma submit_shrinks:
  assumes "tryPopRequest (comq s) = (Some c, q)"
    and "submit_vh ops b c (s\<lparr>comq := q\<rparr>) = Again t \<or> submit_ve ops c (s\<lparr>comq := q\<rparr>) = Again t"
  shows "work_left t < work_left s"
proof -
  have q: "inflight q = inflight (comq s)" "length (request (comq s)) = Suc (length (request q))"
    using assms(1) by (cases "request (comq s)"; auto simp: tryPopRequest_def)+
  obtain r d u where u: "run_handler ops (kind c) c (s\<lparr>comq := q\<rparr>) = (r, d, u)"
    by (metis prod_cases3)
  have uq: "request (comq u) = request q" "inflight (comq u) = inflight q"
    using run_handler_frame [OF u] by (auto simp: peeked_def)
  have "length (bm_insert_key i x l) \<le> Suc (length l)" for i and x :: cmd and l
    by (simp add: bm_insert_key_def split: option.splits)
  then have ins: "length (inflight q') \<le> Suc (length (inflight q)) \<and> request q' = request q"
    if "pushInFlight d (comq u) = Inr q'" for q'
    using that uq by (auto simp: pushInFlight_def split: option.splits)
  from assms(2) show ?thesis
  proof
    assume "submit_vh ops b c (s\<lparr>comq := q\<rparr>) = Again t"
    then have "t = u\<lparr>comq := pushCompletion d (comq u)\<rparr>"
      by (auto simp: submit_vh_def u split: if_splits sum.splits)
    then show ?thesis using q uq by (simp add: work_left_def pushCompletion_def)
  next
    assume "submit_ve ops c (s\<lparr>comq := q\<rparr>) = Again t"
    then obtain q' where "pushInFlight d (comq u) = Inr q'" "t = u\<lparr>comq := q'\<rparr>"
      by (auto simp: submit_ve_def u split: if_splits sum.splits)
    then show ?thesis using q ins [of q'] by (simp add: work_left_def)
  qed
qed

lemma progress_turn_shrinks: "progress_turn ops b s = Again t \<Longrightarrow> work_left t < work_left s"
proof -
  assume t: "progress_turn ops b s = Again t"
  obtain req m e where g: "urpc_get_cmd ops (up s) (env s) = ((req, m), e)" by (metis prod_cases3 surj_pair)
  let ?s = "s\<lparr>env := e\<rparr>"
  show ?thesis
  proof (cases "req \<ge> 0")
    case True
    with t g have "on_reply ops req m ?s = Again t" by (simp add: progress_turn_def)
    then show ?thesis using on_reply_shrinks by fastforce
  next
    case False
    with t g obtain c q where c: "tryPopRequest (comq ?s) = (Some c, q)"
      by (auto simp: progress_turn_def Let_def split: if_splits prod.splits option.splits)
    have "submit_vh ops b c (?s\<lparr>comq := q\<rparr>) = Again t \<or> submit_ve ops c (?s\<lparr>comq := q\<rparr>) = Again t"
      using t g False c by (auto simp: progress_turn_def Let_def split: if_splits)
    from submit_shrinks [OF c this] show ?thesis by simp
  qed
qed

function progress_nolock :: "'e urpc_ops \<Rightarrow> bool \<Rightarrow> 'e cst \<Rightarrow> ('e, int) res" where
  "progress_nolock ops execVH s =
     (case progress_turn ops execVH s of
        Again t \<Rightarrow> progress_nolock ops execVH t
      | Ret rv t \<Rightarrow> (Inr rv, t)
      | Throws e t \<Rightarrow> (Inl e, t))"
  by pat_completeness auto
termination
  by (relation "measure (\<lambda>(ops, b, s). work_left s)") (auto simp: progress_turn_shrinks)

declare progress_nolock.simps [simp del]

end
