(* ===== verification/Context_Ops.thy ===== *)
theory Context_Ops
  imports Veo_Context
begin

text \<open>
  The operations of a context (\<^verbatim>\<open>Context.hpp\<close>, \<^verbatim>\<open>Context.cpp\<close>, \<^verbatim>\<open>AsyncTransfer.cpp\<close>): submission
  of requests, collection of results, the progress thread, closing.

  Loops that wait for the other side are \<^verbatim>\<open>partial_function (option)\<close>: not returning is the value
  \<open>None\<close>. Where the application thread sleeps until the progress thread has done something, the
  model runs the progress thread's next call of \<^verbatim>\<open>_progress_nolock\<close>; what a \<^verbatim>\<open>try_lock\<close> of
  \<^verbatim>\<open>prog_mtx\<close> returns is an argument. \<^verbatim>\<open>notifyAll\<close> only wakes sleepers and does not change the
  state.
\<close>

section \<open>Progress\<close>

definition progress :: "'e urpc_ops \<Rightarrow> bool \<Rightarrow> 'e cst \<Rightarrow> ('e, unit) res" where
  "progress ops lk s =
     (if \<not> emptyInFlight (comq s) then (Inr (), s)
      else if lk then bind_st (progress_nolock ops False s) (\<lambda>_ t. (Inr (), t))
      else (Inr (), s))"

partial_function (option) progressExec :: "'e urpc_ops \<Rightarrow> 'e cst \<Rightarrow> ('e, unit) res option" where
  "progressExec ops s =
     (if isActive (comq s)
      then (case progress_nolock ops True s of
              (Inl e, t) \<Rightarrow> Some (Inl e, t)
            | (Inr rv, t) \<Rightarrow> progressExec ops t)
      else Some (Inr (), s))"

definition progressInit :: "'e urpc_ops \<Rightarrow> 'e cst \<Rightarrow> bool \<times> 'e cst" where
  "progressInit ops s =
     (let (ok, e) = pthread_create_ok ops (env s)
      in if \<not> ok then (False, s\<lparr>env := e\<rparr>) else (True, s\<lparr>env := e, has_thread := True\<rparr>))"

text \<open>
  The progress thread, from a call of \<^verbatim>\<open>waitProgress\<close> that finds work or the termination flag, to
  its next sleep or its end: the Boolean says that it ended.
\<close>

definition progress_main_turn :: "'e urpc_ops \<Rightarrow> 'e cst \<Rightarrow> ('e, bool) res option" where
  "progress_main_turn ops s =
     (if \<not> waitRequest (comq s) then Some (Inr True, s)
      else case progressExec ops s of
             None \<Rightarrow> None
           | Some (Inl e, t) \<Rightarrow> Some (Inl e, t)
           | Some (Inr _, t) \<Rightarrow> Some (Inr (ctx_state t = VEO_STATE_EXIT), t))"

text \<open>
  Joining the progress thread. \<open>asleep\<close> says that the thread was waiting when it was told to
  terminate; otherwise it is executing and finishes the work in the queues first.
\<close>

definition progressTerminate :: "'e urpc_ops \<Rightarrow> bool \<Rightarrow> 'e cst \<Rightarrow> ('e, unit) res option" where
  "progressTerminate ops asleep s =
     (if has_thread s
      then let s1 = s\<lparr>comq := terminate_queue (comq s)\<rparr>
           in case (if asleep then Some (Inr (), s1) else progressExec ops s1) of
                None \<Rightarrow> None
              | Some (Inl e, t) \<Rightarrow> Some (Inl e, t)
              | Some (Inr _, t) \<Rightarrow> Some (Inr (), t\<lparr>has_thread := False\<rparr>)
      else Some (Inr (), s))"

definition close_peer :: "'e urpc_ops \<Rightarrow> 'e cst \<Rightarrow> int \<times> 'e cst" where
  "close_peer ops s =
     (if \<not> is_alive ops s then (0, s)
      else let p = up s;
               (req, e1) = urpc_generic_send ops p URPC_CMD_EXIT [] (env s);
               s1 = s\<lparr>ctx_state := VEO_STATE_EXIT\<rparr>
           in if req < 0 then (- 1, s1\<lparr>env := snd (vh_urpc_peer_destroy ops p e1)\<rparr>)
              else let (rc, e2) = wait_req_ack ops p req e1;
                       e3 = (if rc < 0 then vh_urpc_child_destroy ops p e2 else e2);
                       e4 = (if urpc_child_pid ops p e3 > 0 then wait_child ops p e3 else e3);
                       (rc', e5) = vh_urpc_peer_destroy ops p e4
                   in (rc', s1\<lparr>env := e5\<rparr>))"

definition close_ctx :: "'e urpc_ops \<Rightarrow> bool \<Rightarrow> 'e cst \<Rightarrow> ('e, int) res option" where
  "close_ctx ops asleep s =
     (case progressTerminate ops asleep s of
        None \<Rightarrow> None
      | Some (Inl e, t) \<Rightarrow> Some (Inl e, t)
      | Some (Inr _, t) \<Rightarrow> Some (map_prod Inr id (close_peer ops t)))"

text \<open>\<open>sp\<close> is what \<^verbatim>\<open>*sp\<close> held before; the return code of the unpacking is ignored.\<close>

definition getStackPointer ::
  "'e urpc_ops \<Rightarrow> u64 option \<Rightarrow> 'e cst \<Rightarrow> ('e, u64 option) res" where
  "getStackPointer ops sp s =
     (let (req, e1) = urpc_generic_send ops (up s) URPC_CMD_CALL [ItemL 0, ItemP []] (env s)
      in if req < 0 then (Inl (VEOException (errno_val ops e1)), s\<lparr>env := e1\<rparr>)
         else case urpc_recv_req_timeout ops (up s) req (15 * REPLY_TIMEOUT) e1 of
                (None, e2) \<Rightarrow> (Inl (VEOException (errno_val ops e2)), s\<lparr>env := e2\<rparr>)
              | (Some (m, payload), e2) \<Rightarrow>
                  (case unpack_call_result ops m None payload sp 0 (vhmem (hst s)) of
                     Inl e \<Rightarrow> (Inl e, s\<lparr>env := e2\<rparr>)
                   | Inr (rc, sp', vm) \<Rightarrow>
                       (Inr sp', s\<lparr>env := urpc_slot_done ops (up s) req m e2\<rparr>)))"

section \<open>Submitting requests\<close>

text \<open>Issue an identifier and queue a command of the given kind: the common part.\<close>

definition push_cmd :: "cmd \<Rightarrow> 'e cst \<Rightarrow> int \<times> 'e cst" where
  "push_cmd c s = (let (rv, q) = pushRequest c (comq s) in (rv, s\<lparr>comq := q\<rparr>))"

definition genericAsyncReq ::
  "'e urpc_ops \<Rightarrow> bool \<Rightarrow> nat \<Rightarrow> item list \<Rightarrow> 'e cst \<Rightarrow> ('e, u64) res" where
  "genericAsyncReq ops lk urpc_cmd its s =
     (if \<not> is_alive ops s then (Inr VEO_REQUEST_ID_INVALID, s)
      else let (i, s1) = issueRequestID s;
               c0 = new_CommandImpl i (KGeneric urpc_cmd its);
               (c, s2) = (if urpc_cmd = URPC_CMD_ACS_PCIRCVSYC
                          then (setNowaitFlag True c0, s1\<lparr>rem_reqid := rem_reqid s1 - {i}\<rparr>)
                          else (c0, s1));
               (rv, s3) = push_cmd c s2
           in if rv \<noteq> 0 then (Inr VEO_REQUEST_ID_INVALID, s3)
              else bind_st (progress ops lk s3) (\<lambda>_ t. (Inr i, t)))"

definition sendBuffAsync ::
  "'e urpc_ops \<Rightarrow> u64 \<Rightarrow> u64 \<Rightarrow> u64 \<Rightarrow> u64 \<Rightarrow> 'e cst \<Rightarrow> u64 \<times> 'e cst" where
  "sendBuffAsync ops dst src sz prev s =
     (if \<not> is_alive ops s then (VEO_REQUEST_ID_INVALID, s)
      else let (i, s1) = issueRequestID s;
               (rv, s2) = push_cmd (new_CommandImpl i (KSendBuff dst src sz prev)) s1
           in if rv \<noteq> 0 then (VEO_REQUEST_ID_INVALID, s2) else (i, s2))"

definition recvBuffAsync ::
  "'e urpc_ops \<Rightarrow> u64 \<Rightarrow> u64 \<Rightarrow> u64 \<Rightarrow> u64 \<Rightarrow> 'e cst \<Rightarrow> u64 \<times> 'e cst" where
  "recvBuffAsync ops dst src sz prev s =
     (if \<not> is_alive ops s then (VEO_REQUEST_ID_INVALID, s)
      else let (i, s1) = issueRequestID s;
               (rv, s2) = push_cmd (new_CommandImpl i (KRecvBuff dst src sz prev)) s1
           in if rv \<noteq> 0 then (VEO_REQUEST_ID_INVALID, s2) else (i, s2))"

definition simpleCallAsync ::
  "'e urpc_ops \<Rightarrow> bool \<Rightarrow> u64 \<Rightarrow> u64 list \<Rightarrow> u64 \<Rightarrow> u64 \<Rightarrow> bool \<Rightarrow> bool \<Rightarrow> u64 \<Rightarrow> u64
    \<Rightarrow> copy list option \<Rightarrow> 'e cst \<Rightarrow> ('e, u64) res" where
  "simpleCallAsync ops lk addr regs tp sz cin cout stk ext cs s =
     (if addr = 0 \<or> \<not> is_alive ops s then (Inr VEO_REQUEST_ID_INVALID, s)
      else let (i, s1) = issueRequestID s;
               (rv, s2) = push_cmd
                 (new_CommandImpl i (KCall addr regs tp sz cin cout stk ext cs)) s1
           in if rv \<noteq> 0 then (Inr VEO_REQUEST_ID_INVALID, s2)
              else bind_st (progress ops lk s2) (\<lambda>_ t. (Inr i, t)))"

definition callVHAsync :: "'e urpc_ops \<Rightarrow> u64 \<Rightarrow> u64 \<Rightarrow> 'e cst \<Rightarrow> u64 \<times> 'e cst" where
  "callVHAsync ops func a s =
     (if func = 0 \<or> \<not> is_alive ops s then (VEO_REQUEST_ID_INVALID, s)
      else let (i, s1) = issueRequestID s;
               (rv, s2) = push_cmd (new_CommandImpl_vh i (KVHFunc func a)) s1
           in (i, s2))"

section \<open>Memory transfer\<close>

definition bind_so ::
  "((exc + 'a) \<times> 's) option \<Rightarrow> ('a \<Rightarrow> 's \<Rightarrow> ((exc + 'b) \<times> 's) option) \<Rightarrow> ((exc + 'b) \<times> 's) option"
  where
  "bind_so r f = (case r of None \<Rightarrow> None
     | Some (Inl e, t) \<Rightarrow> Some (Inl e, t) | Some (Inr a, t) \<Rightarrow> f a t)"

lemma bind_so_simps [simp]:
  "bind_so None f = None" "bind_so (Some (Inl e, t)) f = Some (Inl e, t)"
  "bind_so (Some (Inr a, t)) f = f a t"
  by (simp_all add: bind_so_def)

text \<open>
  The fragment size. An environment variable replaces the default without a check; the
  conversion of the \<^verbatim>\<open>int\<close> of \<^verbatim>\<open>atoi\<close> to \<^verbatim>\<open>size_t\<close> wraps, and so does \<^verbatim>\<open>5 * maxfrag\<close>.
\<close>

definition env_size :: "'e urpc_ops \<Rightarrow> string \<Rightarrow> u64 \<Rightarrow> u64" where
  "env_size ops name dflt =
     (case getenv_var ops name of None \<Rightarrow> dflt | Some str \<Rightarrow> of_int (atoi str))"

definition base_frag :: "'e urpc_ops \<Rightarrow> 'e cst \<Rightarrow> u64" where
  "base_frag ops s =
     (if urpc_max_send_cmd_size ops (up s) (env s) < 2 * PART_SENDFRAG then 1 * 1024 * 1024
      else PART_SENDFRAG)"

definition recv_maxfrag :: "'e urpc_ops \<Rightarrow> u64 \<Rightarrow> 'e cst \<Rightarrow> u64" where
  "recv_maxfrag ops sz s =
     (let maxfrag = env_size ops ''VEO_RECVFRAG'' (base_frag ops s);
          cutsz = env_size ops ''VEO_RECVCUT'' (2 * 1024 * 1024)
      in if sz < 5 * maxfrag
         then if sz > cutsz then align8b ops (sz div 5)
              else if sz > cutsz div 2 then align8b ops (sz div 4)
              else if sz > cutsz div 3 then align8b ops (sz div 2)
              else align8b ops sz
         else maxfrag)"

definition send_maxfrag :: "'e urpc_ops \<Rightarrow> u64 \<Rightarrow> 'e cst \<Rightarrow> u64" where
  "send_maxfrag ops sz s =
     (let maxfrag = env_size ops ''VEO_SENDFRAG'' (base_frag ops s);
          cutsz = env_size ops ''VEO_SENDCUT'' (2 * 1024 * 1024)
      in if sz < 5 * maxfrag
         then if sz > cutsz then align8b ops (sz div 4)
              else if sz > cutsz div 2 then align8b ops (sz div 3)
              else if sz > cutsz div 3 then align8b ops (sz div 2)
              else align8b ops sz
         else maxfrag)"

text \<open>The fragment loops: with fragments of size 0 they do not end.\<close>

partial_function (option) recv_loop ::
  "'e urpc_ops \<Rightarrow> bool \<Rightarrow> u64 \<Rightarrow> u64 \<Rightarrow> u64 \<Rightarrow> u64 \<Rightarrow> u64 \<Rightarrow> bool \<Rightarrow> 'e cst \<Rightarrow> ('e, u64) res option"
  where
  "recv_loop ops lk maxfrag rsize src dst prev flg s =
     (if rsize > 0
      then let psz = (if rsize \<le> maxfrag then rsize else maxfrag);
               (req, s1) = recvBuffAsync ops dst src psz prev s
           in if req = VEO_REQUEST_ID_INVALID then Some (Inr req, s1)
              else case (if flg then (Inr (), s1) else progress ops lk s1) of
                     (Inl e, t) \<Rightarrow> Some (Inl e, t)
                   | (Inr _, t) \<Rightarrow>
                       recv_loop ops lk maxfrag (rsize - psz) (src + psz) (dst + psz) req True t
      else Some (Inr prev, s))"

partial_function (option) send_loop ::
  "'e urpc_ops \<Rightarrow> bool \<Rightarrow> u64 \<Rightarrow> u64 \<Rightarrow> u64 \<Rightarrow> u64 \<Rightarrow> u64 \<Rightarrow> bool \<Rightarrow> 'e cst \<Rightarrow> ('e, u64) res option"
  where
  "send_loop ops lk maxfrag rsize src dst prev flg s =
     (if rsize > 0
      then let psz = (if rsize \<le> maxfrag then rsize else maxfrag);
               (req, s1) = sendBuffAsync ops dst src psz prev s
           in if req = VEO_REQUEST_ID_INVALID then Some (Inr req, s1)
              else case (if flg then (Inr (), s1) else progress ops lk s1) of
                     (Inl e, t) \<Rightarrow> Some (Inl e, t)
                   | (Inr _, t) \<Rightarrow>
                       send_loop ops lk maxfrag (rsize - psz) (src + psz) (dst + psz) req True t
      else Some (Inr prev, s))"

text \<open>A transfer of size 0 is a VH command that completes at once.\<close>

definition emptyTransferAsync :: "'e cst \<Rightarrow> u64 \<times> 'e cst" where
  "emptyTransferAsync s =
     (let (i, s1) = issueRequestID s;
          (rv, s2) = push_cmd (new_CommandImpl_vh i KNop) s1
      in if rv \<noteq> 0 then (VEO_REQUEST_ID_INVALID, s2) else (i, s2))"

definition asyncReadMem ::
  "'e urpc_ops \<Rightarrow> bool \<Rightarrow> u64 \<Rightarrow> u64 \<Rightarrow> u64 \<Rightarrow> 'e cst \<Rightarrow> ('e, u64) res option" where
  "asyncReadMem ops lk dst src sz s =
     (if \<not> is_alive ops s then Some (Inr VEO_REQUEST_ID_INVALID, s)
      else if sz = 0 then Some (map_prod Inr id (emptyTransferAsync s))
      else recv_loop ops lk (recv_maxfrag ops sz s) sz src dst VEO_REQUEST_ID_INVALID False s)"

definition asyncWriteMem ::
  "'e urpc_ops \<Rightarrow> bool \<Rightarrow> u64 \<Rightarrow> u64 \<Rightarrow> u64 \<Rightarrow> 'e cst \<Rightarrow> ('e, u64) res option" where
  "asyncWriteMem ops lk dst src sz s =
     (if \<not> is_alive ops s then Some (Inr VEO_REQUEST_ID_INVALID, s)
      else if sz = 0 then Some (map_prod Inr id (emptyTransferAsync s))
      else send_loop ops lk (send_maxfrag ops sz s) sz src dst VEO_REQUEST_ID_INVALID False s)"

section \<open>Results\<close>

definition callPeekResult ::
  "'e urpc_ops \<Rightarrow> bool \<Rightarrow> u64 \<Rightarrow> u64 option \<Rightarrow> 'e cst
    \<Rightarrow> (exc + veo_command_state option) \<times> u64 option \<times> 'e cst" where
  "callPeekResult ops lk reqid ret s =
     (case (if lk then progress_nolock ops False s else (Inr 0, s)) of
        (Inl e, t) \<Rightarrow> (Inl e, ret, t)
      | (Inr _, t) \<Rightarrow> map_prod Inr id (peekResult reqid ret t))"

text \<open>
  \<^verbatim>\<open>waitCompletion\<close>: when the result is not there the caller sleeps and the progress thread
  works; an exception in that thread ends the process.
\<close>

partial_function (option) await_completion ::
  "'e urpc_ops \<Rightarrow> u64 \<Rightarrow> 'e cst \<Rightarrow> ('e, cmd) res option" where
  "await_completion ops reqid s =
     (case waitCompletion_turn reqid (comq s) of
        Some (c, q) \<Rightarrow> Some (Inr c, s\<lparr>comq := q\<rparr>)
      | None \<Rightarrow>
          (case progress_nolock ops True s of
             (Inl e, t) \<Rightarrow> Some (Inl e, t)
           | (Inr _, t) \<Rightarrow> await_completion ops reqid t))"

definition wait_blocking ::
  "'e urpc_ops \<Rightarrow> u64 \<Rightarrow> u64 option \<Rightarrow> 'e cst
    \<Rightarrow> ((exc + veo_command_state option) \<times> u64 option \<times> 'e cst) option" where
  "wait_blocking ops reqid ret s =
     (if reqid \<notin> rem_reqid s then Some (Inr (Some VEO_COMMAND_ERROR), ret, s)
      else case await_completion ops reqid s of
             None \<Rightarrow> None
           | Some (Inl e, t) \<Rightarrow> Some (Inl e, ret, t)
           | Some (Inr c, t) \<Rightarrow>
               if reqid \<notin> rem_reqid t then Some (Inr (Some VEO_COMMAND_ERROR), ret, t)
               else Some (Inr (status c), retval c, t\<lparr>rem_reqid := rem_reqid t - {reqid}\<rparr>))"

text \<open>\<open>lks n\<close> is the outcome of the \<open>n\<close>-th \<^verbatim>\<open>try_lock\<close>.\<close>

partial_function (option) wait_loop ::
  "'e urpc_ops \<Rightarrow> (nat \<Rightarrow> bool) \<Rightarrow> nat \<Rightarrow> u64 \<Rightarrow> u64 option \<Rightarrow> 'e cst
    \<Rightarrow> ((exc + veo_command_state option) \<times> u64 option \<times> 'e cst) option" where
  "wait_loop ops lks n reqid ret s =
     (if lks n
      then (case progress_nolock ops False s of
              (Inl e, t) \<Rightarrow> Some (Inl e, ret, t)
            | (Inr rv, t) \<Rightarrow>
                if rv > 0 then wait_blocking ops reqid ret t
                else (case peekResult reqid ret t of
                        (rc, ret', t') \<Rightarrow>
                          if rc \<noteq> Some VEO_COMMAND_UNFINISHED then Some (Inr rc, ret', t')
                          else wait_loop ops lks (Suc n) reqid ret' t'))
      else wait_blocking ops reqid ret s)"

definition callWaitResult ::
  "'e urpc_ops \<Rightarrow> (nat \<Rightarrow> bool) \<Rightarrow> u64 \<Rightarrow> u64 option \<Rightarrow> 'e cst
    \<Rightarrow> ((exc + veo_command_state option) \<times> u64 option \<times> 'e cst) option" where
  "callWaitResult ops lks reqid ret s = wait_loop ops lks 0 reqid ret s"

text \<open>\<open>sync_func\<close> is the address of the empty function \<^verbatim>\<open>synchronize_func\<close>.\<close>

definition synchronize ::
  "'e urpc_ops \<Rightarrow> (nat \<Rightarrow> bool) \<Rightarrow> u64 \<Rightarrow> 'e cst \<Rightarrow> ('e, unit) res option" where
  "synchronize ops lks sync_func s =
     (let (req_id, s1) = callVHAsync ops sync_func 0 s
      in if req_id \<noteq> 0
         then (case callWaitResult ops lks req_id None s1 of
                 None \<Rightarrow> None
               | Some (Inl e, _, t) \<Rightarrow> Some (Inl e, t)
               | Some (Inr _, _, t) \<Rightarrow> Some (Inr (), t))
         else Some (Inr (), s1))"

text \<open>\<^verbatim>\<open>readMem\<close> and \<^verbatim>\<open>writeMem\<close> wait for the last request of the chain.\<close>

definition wait_ok ::
  "'e urpc_ops \<Rightarrow> (nat \<Rightarrow> bool) \<Rightarrow> u64 \<Rightarrow> 'e cst \<Rightarrow> ('e, int) res option" where
  "wait_ok ops lks req s =
     (if req = VEO_REQUEST_ID_INVALID then Some (Inr (- 1), s)
      else case callWaitResult ops lks req None s of
             None \<Rightarrow> None
           | Some (Inl e, _, t) \<Rightarrow> Some (Inl e, t)
           | Some (Inr rv, _, t) \<Rightarrow> Some (Inr (if rv \<noteq> Some VEO_COMMAND_OK then - 1 else 0), t))"

definition readMem ::
  "'e urpc_ops \<Rightarrow> bool \<Rightarrow> (nat \<Rightarrow> bool) \<Rightarrow> u64 \<Rightarrow> u64 \<Rightarrow> u64 \<Rightarrow> 'e cst \<Rightarrow> ('e, int) res option" where
  "readMem ops lk lks dst src sz s =
     bind_so (asyncReadMem ops lk dst src sz s) (\<lambda>req t. wait_ok ops lks req t)"

definition writeMem ::
  "'e urpc_ops \<Rightarrow> bool \<Rightarrow> (nat \<Rightarrow> bool) \<Rightarrow> u64 \<Rightarrow> u64 \<Rightarrow> u64 \<Rightarrow> 'e cst \<Rightarrow> ('e, int) res option" where
  "writeMem ops lk lks dst src sz s =
     bind_so (asyncWriteMem ops lk dst src sz s) (\<lambda>req t. wait_ok ops lks req t)"

section \<open>Calls\<close>

text \<open>
  The part of a frame that does not fit the call message: its VE address, its address in the
  buffer, its size, as the three expressions of \<^verbatim>\<open>doCallAsync\<close>.
\<close>

definition extra_part :: "u64 \<Rightarrow> u64 \<Rightarrow> call_args \<Rightarrow> u64 \<times> u64 \<times> u64" where
  "extra_part max_args_size reg_args_sz ca =
     (stack_top ca + max_args_size - reg_args_sz, stack_buf ca + max_args_size - reg_args_sz,
      stack_size ca - max_args_size + reg_args_sz)"

definition reg_args_size :: "call_args \<Rightarrow> u64" where
  "reg_args_size ca = of_nat (min (numArgs ca) NUM_ARGS_ON_REGISTER) * 8"

text \<open>The submission of a call in parts; \<open>lk\<close> gives the outcomes of the four \<^verbatim>\<open>try_lock\<close>s.\<close>

definition largeCallAsync ::
  "'e urpc_ops \<Rightarrow> (nat \<Rightarrow> bool) \<Rightarrow> u64 \<Rightarrow> u64 list \<Rightarrow> copy list \<Rightarrow> u64 \<Rightarrow> call_args \<Rightarrow> 'e cst
    \<Rightarrow> ('e, u64) res option" where
  "largeCallAsync ops lk addr regs cs max_args_size ca s =
     (let (extra_stk, extra_buf, extra_size) = extra_part max_args_size (reg_args_size ca) ca;
          stk = stack_buf ca
      in bind_so (if copied_in ca then asyncWriteMem ops (lk 0) extra_stk extra_buf extra_size s
                  else Some (Inr VEO_REQUEST_ID_INVALID, s)) (\<lambda>writereq s1.
         bind_so (Some (simpleCallAsync ops (lk 1) addr regs (stack_top ca) (stack_size ca)
                    (copied_in ca) (copied_out ca) stk stk None s1)) (\<lambda>callreq s2.
         bind_so (if copied_out ca then asyncReadMem ops (lk 2) extra_buf extra_stk extra_size s2
                  else Some (Inr VEO_REQUEST_ID_INVALID, s2)) (\<lambda>readreq s3.
         let (i, s4) = issueRequestID s3;
             (rv, s5) = push_cmd (new_CommandImpl_vh i
                (KLargeCall writereq callreq readreq stk (copied_out ca) cs)) s4
         in if rv \<noteq> 0 then Some (Inr VEO_REQUEST_ID_INVALID, s5)
            else Some (bind_st (progress ops (lk 3) s5) (\<lambda>_ t. (Inr i, t)))))))"

definition PAGE_MASK :: u64 where [const_defs]: "PAGE_MASK = 0xFFFFFFFFFC000000"

text \<open>The arguments give up their buffer: the last component is what the caller's object holds.\<close>

definition doCallAsync ::
  "'e urpc_ops \<Rightarrow> (nat \<Rightarrow> bool) \<Rightarrow> u64 \<Rightarrow> call_args \<Rightarrow> 'e cst \<Rightarrow> (('e, u64) res \<times> call_args) option"
  where
  "doCallAsync ops lk addr ca s =
     (if addr = 0 then Some ((Inr VEO_REQUEST_ID_INVALID, s), ca)
      else if ve_sp s AND PAGE_MASK \<noteq> stack_top ca AND PAGE_MASK
      then Some ((Inr VEO_REQUEST_ID_INVALID, s), ca)
      else case getRegVal ca of
             Inl e \<Rightarrow> Some ((Inl e, s), ca)
           | Inr regs \<Rightarrow>
               let ca1 = ca\<lparr>stack_buf := 0\<rparr>
               in case copyout ca of
                    Inl e \<Rightarrow> Some ((Inl e, s), ca1)
                  | Inr cs \<Rightarrow>
                      let max_args_size = urpc_max_send_cmd_size ops (up s) (env s)
                            - SEND_CALL_CMD_SIZE_WITHOUT_DATA
                      in if \<not> (copied_in ca \<or> copied_out ca) \<or>
                            stack_size ca \<le> max_args_size - reg_args_size ca
                         then Some (simpleCallAsync ops (lk 0) addr regs (stack_top ca)
                                (stack_size ca) (copied_in ca) (copied_out ca) (stack_buf ca) 0
                                (Some cs) s, ca1)
                         else map_option (\<lambda>r. (r, ca1))
                                (largeCallAsync ops lk addr regs cs max_args_size ca s))"

definition setup_call ::
  "'e urpc_ops \<Rightarrow> call_args \<Rightarrow> 'e cst \<Rightarrow> exc + (call_args \<times> 'e cst)" where
  "setup_call ops ca s =
     bind_exc (setup_args (op_new ops (hst s)) (ve_sp s - RESERVED_STACK_SIZE) ca (hst s))
       (\<lambda>(ca', h). Inr (ca', s\<lparr>hst := h\<rparr>))"

definition callAsync ::
  "'e urpc_ops \<Rightarrow> (nat \<Rightarrow> bool) \<Rightarrow> u64 \<Rightarrow> call_args \<Rightarrow> 'e cst \<Rightarrow> (('e, u64) res \<times> call_args) option"
  where
  "callAsync ops lk addr ca s =
     (if addr = 0 \<or> \<not> is_alive ops s then Some ((Inr VEO_REQUEST_ID_INVALID, s), ca)
      else case setup_call ops ca s of
             Inl e \<Rightarrow> Some ((Inl e, s), ca)
           | Inr (ca', s') \<Rightarrow> doCallAsync ops lk addr ca' s')"

definition callSync ::
  "'e urpc_ops \<Rightarrow> (nat \<Rightarrow> bool) \<Rightarrow> (nat \<Rightarrow> bool) \<Rightarrow> u64 \<Rightarrow> call_args \<Rightarrow> u64 option \<Rightarrow> 'e cst
    \<Rightarrow> (('e, int) res \<times> u64 option \<times> call_args) option" where
  "callSync ops lk lks addr ca result s =
     (if \<not> is_alive ops s then Some ((Inr (- 1), s), result, ca)
      else case setup_call ops ca s of
             Inl e \<Rightarrow> Some ((Inl e, s), result, ca)
           | Inr (ca', s') \<Rightarrow>
               (case doCallAsync ops lk addr ca' s' of
                  None \<Rightarrow> None
                | Some ((Inl e, t), ca2) \<Rightarrow> Some ((Inl e, t), result, ca2)
                | Some ((Inr req, t), ca2) \<Rightarrow>
                    if req = VEO_REQUEST_ID_INVALID then Some ((Inr (- 1), t), result, ca2)
                    else (case callWaitResult ops lks req result t of
                            None \<Rightarrow> None
                          | Some (Inl e, r, u) \<Rightarrow> Some ((Inl e, u), r, ca2)
                          | Some (Inr rv, r, u) \<Rightarrow>
                              Some ((Inr (if rv \<noteq> Some VEO_COMMAND_OK then - 1 else 0), u), r, ca2))))"

section \<open>Thread attributes\<close>

definition VEO_DEFAULT_STACKSIZE :: u64 where [const_defs]: "VEO_DEFAULT_STACKSIZE = 0x8000000"
definition VEO_STACK_MIN :: u64 where [const_defs]: "VEO_STACK_MIN = 4 * 1024 * 1024"

record thread_context_attr =
  stacksize :: u64

definition new_ThreadContextAttr :: thread_context_attr where
  "new_ThreadContextAttr = \<lparr>stacksize = VEO_DEFAULT_STACKSIZE\<rparr>"

definition setStacksize :: "u64 \<Rightarrow> thread_context_attr \<Rightarrow> exc + thread_context_attr" where
  "setStacksize stack_sz attr =
     (if stack_sz < VEO_STACK_MIN then Inl (VEOException EINVAL)
      else Inr (attr\<lparr>stacksize := stack_sz\<rparr>))"

declare progressExec.simps [code] recv_loop.simps [code] send_loop.simps [code]
  await_completion.simps [code] wait_loop.simps [code]

end
