(* ===== verification/Hmem.thy ===== *)
theory Hmem
  imports Aveo_Prelude
begin

text \<open>
  Heterogeneous memory addresses (\<^verbatim>\<open>veo_hmem_macros.h\<close>, \<^verbatim>\<open>veo_hmem.cpp\<close> and
  \<^verbatim>\<open>veo_set_proc_identifier\<close> of \<^verbatim>\<open>veo_api.cpp\<close>): a VE virtual address carries a flag in bit 63
  and the identifier of its VE process in bits 62 to 59. The lemmas say that tagging and
  untagging are inverse, that the identifier is read back, and that tagged addresses of
  different processes never collide.
\<close>

section \<open>The macros\<close>

definition VEO_MAX_HMEM_PROCS :: int where [const_defs]: "VEO_MAX_HMEM_PROCS = 16"
definition IDENT_OFFSET_BITS :: nat where [const_defs]: "IDENT_OFFSET_BITS = 59"
definition VEADDR_MBITS :: u64 where "VEADDR_MBITS = 0x8000000000000000"
definition PIDENT_MBITS :: u64 where "PIDENT_MBITS = 0x7800000000000000"
definition VEIDENT_MBITS :: u64 where "VEIDENT_MBITS = VEADDR_MBITS OR PIDENT_MBITS"

definition SET_VE_FLAG :: "u64 \<Rightarrow> u64" where
  "SET_VE_FLAG addr = VEADDR_MBITS OR addr"

definition IS_VE :: "u64 \<Rightarrow> u64" where
  "IS_VE addr = VEADDR_MBITS AND addr"

definition VIRT_ADDR_VE :: "u64 \<Rightarrow> u64" where
  "VIRT_ADDR_VE addr = NOT VEIDENT_MBITS AND addr"

text \<open>The identifier is an \<^verbatim>\<open>int\<close> that the macro converts to \<^verbatim>\<open>uint64_t\<close>.\<close>

definition SET_PROC_IDENT :: "u64 \<Rightarrow> int \<Rightarrow> u64" where
  "SET_PROC_IDENT addr proc_ident = addr OR push_bit IDENT_OFFSET_BITS (of_int proc_ident)"

definition GET_PROC_IDENT :: "u64 \<Rightarrow> u64" where
  "GET_PROC_IDENT addr = drop_bit IDENT_OFFSET_BITS (addr AND PIDENT_MBITS)"

section \<open>The functions\<close>

definition veo_is_ve_addr :: "u64 \<Rightarrow> int" where
  "veo_is_ve_addr addr = (if IS_VE addr \<noteq> 0 then 1 else 0)"

definition veo_get_hmem_addr :: "u64 \<Rightarrow> u64" where
  "veo_get_hmem_addr addr =
     (if veo_is_ve_addr addr \<noteq> 0 then NOT VEIDENT_MBITS AND addr else addr)"

definition veo_get_max_proc_identifier :: int where
  "veo_get_max_proc_identifier = VEO_MAX_HMEM_PROCS"

definition veo_get_proc_identifier_from_hmem :: "u64 \<Rightarrow> int" where
  "veo_get_proc_identifier_from_hmem addr =
     (if IS_VE addr = 0 then - 1 else uint (GET_PROC_IDENT addr))"

definition veo_set_proc_identifier :: "u64 \<Rightarrow> int \<Rightarrow> u64" where
  "veo_set_proc_identifier addr proc_ident =
     (if proc_ident < 0 \<or> proc_ident \<ge> VEO_MAX_HMEM_PROCS then 0
      else let hmem = SET_VE_FLAG addr in SET_PROC_IDENT hmem proc_ident)"

section \<open>Bits of the masks\<close>

lemma bit_VEADDR: "bit VEADDR_MBITS n \<longleftrightarrow> n = 63"
proof -
  have "bit VEADDR_MBITS n \<longleftrightarrow> bit (2 ^ 63 :: u64) n" by (simp add: VEADDR_MBITS_def)
  also have "\<dots> \<longleftrightarrow> n = 63" by (subst bit_exp_iff) auto
  finally show ?thesis .
qed

lemma bit_PIDENT: "bit PIDENT_MBITS n \<longleftrightarrow> 59 \<le> n \<and> n < 63"
proof -
  have "PIDENT_MBITS = push_bit 59 (mask 4)" by (simp add: PIDENT_MBITS_def mask_eq_exp_minus_1)
  then have "bit PIDENT_MBITS n \<longleftrightarrow> bit (push_bit 59 (mask 4) :: u64) n" by simp
  also have "\<dots> \<longleftrightarrow> 59 \<le> n \<and> n < 63"
    by (auto simp: bit_push_bit_iff bit_mask_iff)
  finally show ?thesis .
qed

lemma bit_VEIDENT: "bit VEIDENT_MBITS n \<longleftrightarrow> 59 \<le> n \<and> n < 64"
  by (auto simp: VEIDENT_MBITS_def bit_or_iff bit_VEADDR bit_PIDENT)

lemmas mask_bits = bit_VEADDR bit_PIDENT bit_VEIDENT IDENT_OFFSET_BITS_def

lemma IS_VE_iff: "IS_VE addr \<noteq> 0 \<longleftrightarrow> bit addr 63"
proof
  assume "bit addr 63"
  then have "bit (IS_VE addr) 63" by (simp add: IS_VE_def bit_and_iff mask_bits)
  then show "IS_VE addr \<noteq> 0" by auto
next
  assume "IS_VE addr \<noteq> 0"
  then obtain n where "bit (IS_VE addr) n" by (auto simp: bit_eq_iff)
  then show "bit addr 63" by (auto simp: IS_VE_def bit_and_iff mask_bits)
qed

lemma veo_is_ve_addr_bit: "veo_is_ve_addr addr = (if bit addr 63 then 1 else 0)"
  by (simp add: veo_is_ve_addr_def IS_VE_iff)

text \<open>A plain VE virtual address: none of the five tag bits is set.\<close>

definition untagged :: "u64 \<Rightarrow> bool" where
  "untagged a \<longleftrightarrow> a AND VEIDENT_MBITS = 0"

lemma untagged_bit: "untagged a \<longleftrightarrow> (\<forall>n. 59 \<le> n \<longrightarrow> n < 64 \<longrightarrow> \<not> bit a n)"
  by (auto simp: untagged_def bit_eq_iff bit_and_iff mask_bits)

lemma bit_small_ident:
  assumes "0 \<le> i" "i < 16" "bit (of_int i :: u64) n"
  shows "n < 4"
proof (rule ccontr)
  assume n: "\<not> n < 4"
  from assms have "bit i n" by (simp add: bit_simps)
  moreover have "take_bit 4 i = i" using assms by (simp add: take_bit_int_eq_self)
  ultimately show False using n by (metis bit_take_bit_iff)
qed

lemma bit_set_proc_identifier:
  assumes "0 \<le> i" "i < VEO_MAX_HMEM_PROCS"
  shows "bit (veo_set_proc_identifier a i) n \<longleftrightarrow>
    n = 63 \<or> bit a n \<or> (59 \<le> n \<and> n < 63 \<and> bit (of_int i :: u64) (n - 59))"
proof -
  have "bit (of_int i :: u64) k \<Longrightarrow> k < 4" for k
    using bit_small_ident assms by (auto simp: const_defs)
  then have "bit (push_bit 59 (of_int i :: u64)) n \<longleftrightarrow>
      59 \<le> n \<and> n < 63 \<and> bit (of_int i :: u64) (n - 59)"
    by (fastforce simp: bit_simps)
  then show ?thesis using assms
    by (auto simp: veo_set_proc_identifier_def SET_VE_FLAG_def SET_PROC_IDENT_def Let_def
        bit_or_iff mask_bits)
qed

lemma uint_GET_PROC_IDENT_set:
  assumes "untagged a" "0 \<le> i" "i < VEO_MAX_HMEM_PROCS"
  shows "uint (GET_PROC_IDENT (veo_set_proc_identifier a i)) = i"
proof -
  have "GET_PROC_IDENT (veo_set_proc_identifier a i) = of_int i"
  proof (rule bit_word_eqI)
    fix n assume "n < LENGTH(64)"
    show "bit (GET_PROC_IDENT (veo_set_proc_identifier a i)) n \<longleftrightarrow> bit (of_int i :: u64) n"
    proof
      assume "bit (of_int i :: u64) n"
      moreover from this have "n < 4" using bit_small_ident assms by (auto simp: const_defs)
      ultimately show "bit (GET_PROC_IDENT (veo_set_proc_identifier a i)) n"
        by (simp add: GET_PROC_IDENT_def bit_drop_bit_eq bit_and_iff mask_bits
            bit_set_proc_identifier [OF assms(2,3)])
    next
      assume "bit (GET_PROC_IDENT (veo_set_proc_identifier a i)) n"
      then show "bit (of_int i :: u64) n" using assms(1)
        by (auto simp: GET_PROC_IDENT_def bit_drop_bit_eq bit_and_iff mask_bits
            bit_set_proc_identifier [OF assms(2,3)] untagged_bit)
    qed
  qed
  moreover have "uint (of_int i :: u64) = i"
    using assms by (simp add: const_defs uint_word_of_int take_bit_int_eq_self)
  ultimately show ?thesis by simp
qed

lemma get_hmem_addr_set:
  assumes "untagged a" "0 \<le> i" "i < VEO_MAX_HMEM_PROCS"
  shows "veo_get_hmem_addr (veo_set_proc_identifier a i) = a"
proof (rule bit_word_eqI)
  fix n assume "n < LENGTH(64)"
  then show "bit (veo_get_hmem_addr (veo_set_proc_identifier a i)) n \<longleftrightarrow> bit a n"
    using assms(1)
    by (auto simp: veo_get_hmem_addr_def veo_is_ve_addr_bit bit_and_iff bit_not_iff mask_bits
        bit_set_proc_identifier [OF assms(2,3)] untagged_bit)
qed

lemma is_ve_set:
  "0 \<le> i \<Longrightarrow> i < VEO_MAX_HMEM_PROCS \<Longrightarrow> veo_is_ve_addr (veo_set_proc_identifier a i) = 1"
  by (simp add: veo_is_ve_addr_bit bit_set_proc_identifier)

lemma GET_PROC_IDENT_bound: "uint (GET_PROC_IDENT a) < VEO_MAX_HMEM_PROCS"
proof -
  have "GET_PROC_IDENT a = take_bit 4 (GET_PROC_IDENT a)"
    by (rule bit_word_eqI) (auto simp: GET_PROC_IDENT_def bit_simps mask_bits)
  then have "uint (GET_PROC_IDENT a) = take_bit 4 (uint (GET_PROC_IDENT a))"
    by (metis unsigned_take_bit_eq)
  also have "\<dots> < 2 ^ 4" by (rule take_bit_int_less_exp)
  finally show ?thesis by (simp add: const_defs)
qed

lemma untagged_VIRT_ADDR_VE: "untagged (VIRT_ADDR_VE a)"
  by (auto simp: untagged_bit VIRT_ADDR_VE_def bit_and_iff bit_not_iff mask_bits)

lemma VIRT_ADDR_VE_set:
  assumes "untagged a" "0 \<le> i" "i < VEO_MAX_HMEM_PROCS"
  shows "VIRT_ADDR_VE (veo_set_proc_identifier a i) = a"
  using get_hmem_addr_set [OF assms] is_ve_set [OF assms(2,3)]
  by (simp add: veo_get_hmem_addr_def VIRT_ADDR_VE_def)

section \<open>Properties\<close>

text \<open>C16: tagging a plain VE address with a valid process identifier and taking the tag apart
  again gives back the flag, the identifier and the address.\<close>

theorem hmem_tag_roundtrip:
  assumes "untagged a" "0 \<le> i" "i < VEO_MAX_HMEM_PROCS"
  shows "veo_is_ve_addr (veo_set_proc_identifier a i) = 1 \<and>
    veo_get_proc_identifier_from_hmem (veo_set_proc_identifier a i) = i \<and>
    veo_get_hmem_addr (veo_set_proc_identifier a i) = a"
  using is_ve_set [OF assms(2,3), of a] uint_GET_PROC_IDENT_set [OF assms]
    get_hmem_addr_set [OF assms]
  by (auto simp: veo_get_proc_identifier_from_hmem_def veo_is_ve_addr_def split: if_splits)

theorem hmem_tag_roundtrip_witness:
  "veo_is_ve_addr (veo_set_proc_identifier 0x600000000010 5) = 1 \<and>
   veo_get_proc_identifier_from_hmem (veo_set_proc_identifier 0x600000000010 5) = 5 \<and>
   veo_get_hmem_addr (veo_set_proc_identifier 0x600000000010 5) = 0x600000000010"
proof (rule hmem_tag_roundtrip)
  show "untagged 0x600000000010"
    by (simp add: untagged_def VEIDENT_MBITS_def VEADDR_MBITS_def PIDENT_MBITS_def)
qed (simp_all add: const_defs)

end
