(* ===== verification/Proc_Registry.thy ===== *)
theory Proc_Registry
  imports Hmem
begin

text \<open>
  The table of VE processes (\<^verbatim>\<open>veo::__procs\<close> of \<^verbatim>\<open>ProcHandle.cpp\<close>): a vector of pointers to process
  handles, absent until the first process is created. The position of a process is its
  identifier, the number that tags heterogeneous memory addresses. A destroyed process leaves a
  null pointer behind and the next process to be created takes the first such place, so that
  identifiers of living processes never change.

  A process handle is named by its address, 0 is the null pointer.
\<close>

section \<open>Operations\<close>

type_synonym proc_table = "u64 list option"

text \<open>\<^verbatim>\<open>std::find\<close> and \<^verbatim>\<open>std::distance\<close>: the length when there is no such element.\<close>

definition proc_index :: "u64 list \<Rightarrow> u64 \<Rightarrow> nat" where
  "proc_index l p = length (takeWhile (\<lambda>x. x \<noteq> p) l)"

definition getProcIdentifier :: "u64 \<Rightarrow> proc_table \<Rightarrow> exc + int" where
  "getProcIdentifier p tab =
     (case tab of
        None \<Rightarrow> Inl NullDeref
      | Some l \<Rightarrow> (let i = proc_index l p in if i = length l then Inr (- 1) else Inr (int i)))"

definition numProcs :: "proc_table \<Rightarrow> exc + int" where
  "numProcs tab = (case tab of None \<Rightarrow> Inl NullDeref | Some l \<Rightarrow> Inr (int (length l)))"

text \<open>\<^verbatim>\<open>vector::at\<close>: a negative number is a huge \<^verbatim>\<open>size_t\<close>.\<close>

definition getProcHandle :: "int \<Rightarrow> proc_table \<Rightarrow> exc + u64" where
  "getProcHandle i tab =
     (case tab of
        None \<Rightarrow> Inl NullDeref
      | Some l \<Rightarrow> if 0 \<le> i \<and> nat i < length l then Inr (l ! nat i) else Inl StdOutOfRange)"

text \<open>The end of the constructor of a process handle.\<close>

definition register_proc :: "u64 \<Rightarrow> proc_table \<Rightarrow> proc_table" where
  "register_proc p tab =
     (case tab of
        None \<Rightarrow> Some [p]
      | Some l \<Rightarrow>
          (let i = proc_index l 0
           in if i = length l then Some (l @ [p]) else Some (l[i := p])))"

text \<open>The end of \<^verbatim>\<open>exitProc\<close>: the loop over the table.\<close>

fun clear_slot :: "u64 \<Rightarrow> u64 list \<Rightarrow> u64 list" where
  "clear_slot p [] = []"
| "clear_slot p (x # l) = (if x = p then 0 # l else x # clear_slot p l)"

definition unregister_proc :: "u64 \<Rightarrow> proc_table \<Rightarrow> exc + proc_table" where
  "unregister_proc p tab =
     (case tab of None \<Rightarrow> Inl NullDeref | Some l \<Rightarrow> Inr (Some (clear_slot p l)))"

definition veo_get_proc_handle_from_hmem :: "u64 \<Rightarrow> proc_table \<Rightarrow> exc + u64" where
  "veo_get_proc_handle_from_hmem addr tab =
     (if IS_VE addr = 0 then Inr 0 else getProcHandle (uint (GET_PROC_IDENT addr)) tab)"

section \<open>The table as slots\<close>

text \<open>The living processes; no two slots hold the same one.\<close>

definition tab_slots :: "proc_table \<Rightarrow> u64 list" where
  "tab_slots tab = (case tab of None \<Rightarrow> [] | Some l \<Rightarrow> l)"

definition tab_live :: "proc_table \<Rightarrow> u64 set" where
  "tab_live tab = set (tab_slots tab) - {0}"

definition tab_wf :: "proc_table \<Rightarrow> bool" where
  "tab_wf tab \<longleftrightarrow> distinct (filter (\<lambda>p. p \<noteq> 0) (tab_slots tab))"

lemma proc_index_le: "proc_index l p \<le> length l"
  by (simp add: proc_index_def length_takeWhile_le)

lemma proc_index_Cons: "proc_index (x # l) p = (if x = p then 0 else Suc (proc_index l p))"
  by (simp add: proc_index_def)

lemma proc_index_less: "proc_index l p < length l \<longleftrightarrow> p \<in> set l"
  by (induction l) (auto simp: proc_index_Cons proc_index_def)

lemma proc_index_nth: "p \<in> set l \<Longrightarrow> l ! proc_index l p = p"
  by (induction l) (auto simp: proc_index_Cons)

lemma proc_index_absent: "p \<notin> set l \<Longrightarrow> proc_index l p = length l"
  using proc_index_less [of l p] proc_index_le [of l p] by simp

lemma proc_index_append: "p \<in> set l \<Longrightarrow> proc_index (l @ m) p = proc_index l p"
  by (simp add: proc_index_def takeWhile_append1)

lemma proc_index_eqI:
  assumes "i < length l" "l ! i = p" "\<And>j. j < i \<Longrightarrow> l ! j \<noteq> p"
  shows "proc_index l p = i"
  using assms
proof (induction l arbitrary: i)
  case (Cons x l)
  show ?case
  proof (cases i)
    case 0
    then show ?thesis using Cons.prems by (simp add: proc_index_Cons)
  next
    case (Suc k)
    have "x \<noteq> p" using Cons.prems(3) [of 0] Suc by simp
    moreover have "proc_index l p = k"
      using Cons.IH [of k] Cons.prems Suc by (metis Suc_less_eq length_Cons nth_Cons_Suc)
    ultimately show ?thesis by (simp add: proc_index_Cons Suc)
  qed
qed simp

lemma clear_slot_update: "p \<in> set l \<Longrightarrow> clear_slot p l = l[proc_index l p := 0]"
  by (induction l) (auto simp: proc_index_Cons)

lemma clear_slot_absent: "p \<notin> set l \<Longrightarrow> clear_slot p l = l"
  by (induction l) auto

text \<open>Overwriting a slot that holds another pointer does not move a process.\<close>

lemma proc_index_update:
  assumes "q \<in> set l" "i < length l" "l ! i \<noteq> q" "p \<noteq> q"
  shows "proc_index (l[i := p]) q = proc_index l q"
proof (rule proc_index_eqI)
  have k: "proc_index l q < length l" "l ! proc_index l q = q"
    using assms(1) by (simp_all add: proc_index_less proc_index_nth)
  then show "proc_index l q < length (l[i := p])" by simp
  have "i \<noteq> proc_index l q" using assms(3) k(2) by auto
  then show "l[i := p] ! proc_index l q = q" using k by simp
  show "l[i := p] ! j \<noteq> q" if "j < proc_index l q" for j
  proof -
    have "l ! j \<noteq> q" using that nth_length_takeWhile
      by (metis (mono_tags, lifting) nth_mem proc_index_def set_takeWhileD takeWhile_nth)
    then show ?thesis using assms(4) that k(1) by (cases "i = j") auto
  qed
qed

lemma distinct_update:
  assumes "distinct (filter (\<lambda>p. p \<noteq> 0) l)" "i < length l" "p \<notin> set l \<or> p = (0 :: u64)"
  shows "distinct (filter (\<lambda>p. p \<noteq> 0) (l[i := p]))"
proof -
  have l: "l = take i l @ l ! i # drop (Suc i) l" using id_take_nth_drop [OF assms(2)] .
  have u: "l[i := p] = take i l @ p # drop (Suc i) l" using upd_conv_take_nth_drop [OF assms(2)] .
  have "set (take i l) \<subseteq> set l" "set (drop (Suc i) l) \<subseteq> set l"
    by (rule set_take_subset, rule set_drop_subset)
  moreover have "distinct (filter (\<lambda>p. p \<noteq> 0) (take i l @ l ! i # drop (Suc i) l))"
    using assms(1) l by metis
  ultimately show ?thesis using assms(3) unfolding u by (auto split: if_splits)
qed

lemma set_update_slot:
  assumes "distinct (filter (\<lambda>p. p \<noteq> 0) l)" "i < length l"
  shows "set (l[i := p]) - {0} = (set l - {0} - {l ! i}) \<union> ({p} - {0 :: u64})"
proof -
  have l: "l = take i l @ l ! i # drop (Suc i) l" using id_take_nth_drop [OF assms(2)] .
  have u: "l[i := p] = take i l @ p # drop (Suc i) l" using upd_conv_take_nth_drop [OF assms(2)] .
  have d: "distinct (filter (\<lambda>p. p \<noteq> 0) (take i l @ l ! i # drop (Suc i) l))"
    using assms(1) l by metis
  have s: "set l = set (take i l) \<union> {l ! i} \<union> set (drop (Suc i) l)" by (subst l) auto
  show ?thesis unfolding u using d unfolding s by (auto split: if_splits)
qed

section \<open>The interface\<close>

text \<open>
  What the rest of the library relies on: a process that is registered has an identifier, the
  handle is found under it, and neither registering nor removing another process changes it.
\<close>

locale proc_slots =
  fixes put :: "u64 \<Rightarrow> 't \<Rightarrow> 't" and del :: "u64 \<Rightarrow> 't \<Rightarrow> 't"
    and ident :: "u64 \<Rightarrow> 't \<Rightarrow> exc + int" and handle :: "int \<Rightarrow> 't \<Rightarrow> exc + u64"
    and live :: "'t \<Rightarrow> u64 set" and wf :: "'t \<Rightarrow> bool"
  assumes put_wf: "wf t \<Longrightarrow> p \<noteq> 0 \<Longrightarrow> p \<notin> live t \<Longrightarrow> wf (put p t) \<and> live (put p t) = insert p (live t)"
    and del_wf: "wf t \<Longrightarrow> p \<noteq> 0 \<Longrightarrow> wf (del p t) \<and> live (del p t) = live t - {p}"
    and found: "wf t \<Longrightarrow> p \<in> live t \<Longrightarrow> \<exists>i. 0 \<le> i \<and> ident p t = Inr i \<and> handle i t = Inr p"
    and put_other: "wf t \<Longrightarrow> p \<noteq> 0 \<Longrightarrow> p \<notin> live t \<Longrightarrow> q \<in> live t \<Longrightarrow> ident q (put p t) = ident q t"
    and del_other: "wf t \<Longrightarrow> p \<noteq> 0 \<Longrightarrow> p \<noteq> q \<Longrightarrow> q \<in> live t \<Longrightarrow> ident q (del p t) = ident q t"
begin

text \<open>Creations and destructions of other processes, in any order.\<close>

inductive others :: "u64 \<Rightarrow> 't \<Rightarrow> 't \<Rightarrow> bool" for q where
  none: "others q t t"
| create: "others q t u \<Longrightarrow> p \<noteq> 0 \<Longrightarrow> p \<notin> live u \<Longrightarrow> others q t (put p u)"
| destroy: "others q t u \<Longrightarrow> p \<noteq> 0 \<Longrightarrow> p \<noteq> q \<Longrightarrow> others q t (del p u)"

lemma others_stable:
  assumes "others q t u" "wf t" "q \<in> live t"
  shows "wf u" "q \<in> live u" "ident q u = ident q t"
proof -
  have "wf u \<and> q \<in> live u \<and> ident q u = ident q t"
    using assms by (induction rule: others.induct) (auto simp: put_wf del_wf put_other del_other)
  then show "wf u" "q \<in> live u" "ident q u = ident q t" by blast+
qed

lemma ident_inj:
  assumes "wf t" "p \<in> live t" "q \<in> live t" "ident p t = ident q t"
  shows "p = q"
  using found [OF assms(1,2)] found [OF assms(1,3)] assms(4) by auto

end

definition unregister_tab :: "u64 \<Rightarrow> proc_table \<Rightarrow> proc_table" where
  "unregister_tab p tab = map_option (clear_slot p) tab"

lemma unregister_proc_tab: "tab \<noteq> None \<Longrightarrow> unregister_proc p tab = Inr (unregister_tab p tab)"
  by (auto simp: unregister_proc_def unregister_tab_def)

lemma register_wf:
  assumes "tab_wf tab" "p \<noteq> 0" "p \<notin> tab_live tab"
  shows "tab_wf (register_proc p tab) \<and> tab_live (register_proc p tab) = insert p (tab_live tab)"
proof (cases tab)
  case (Some l)
  have d: "distinct (filter (\<lambda>p. p \<noteq> 0) l)" "p \<notin> set l"
    using assms by (auto simp: tab_wf_def tab_live_def tab_slots_def Some)
  show ?thesis
  proof (cases "0 \<in> set l")
    case True
    then have i: "proc_index l 0 < length l" "l ! proc_index l 0 = 0"
      by (simp_all add: proc_index_less proc_index_nth)
    then show ?thesis
      using distinct_update [OF d(1) i(1), of p] set_update_slot [OF d(1) i(1), of p] d(2) assms(2)
      by (auto simp: register_proc_def Some tab_wf_def tab_live_def tab_slots_def Let_def)
  next
    case False
    then show ?thesis using d assms(2)
      by (auto simp: register_proc_def Some tab_wf_def tab_live_def tab_slots_def proc_index_absent)
  qed
qed (use assms in \<open>simp add: register_proc_def tab_wf_def tab_live_def tab_slots_def\<close>)

lemma unregister_wf:
  assumes "tab_wf tab" "p \<noteq> 0"
  shows "tab_wf (unregister_tab p tab) \<and> tab_live (unregister_tab p tab) = tab_live tab - {p}"
proof (cases tab)
  case (Some l)
  have d: "distinct (filter (\<lambda>p. p \<noteq> 0) l)" using assms by (simp add: tab_wf_def tab_slots_def Some)
  show ?thesis
  proof (cases "p \<in> set l")
    case True
    then have i: "proc_index l p < length l" "l ! proc_index l p = p"
      by (simp_all add: proc_index_less proc_index_nth)
    then show ?thesis
      using distinct_update [OF d i(1), of 0] set_update_slot [OF d i(1), of 0] True
      by (simp add: unregister_tab_def Some tab_wf_def tab_live_def tab_slots_def clear_slot_update)
  next
    case False
    then show ?thesis using d
      by (auto simp: unregister_tab_def Some tab_wf_def tab_live_def tab_slots_def clear_slot_absent)
  qed
qed (use assms in \<open>simp add: unregister_tab_def tab_wf_def tab_live_def tab_slots_def\<close>)

lemma live_Some: "q \<in> tab_live tab \<Longrightarrow> \<exists>l. tab = Some l \<and> q \<in> set l \<and> q \<noteq> 0"
  by (auto simp: tab_live_def tab_slots_def split: option.splits)

lemma ident_live:
  "q \<in> set l \<Longrightarrow> getProcIdentifier q (Some l) = Inr (int (proc_index l q))"
  using proc_index_less [of l q] by (simp add: getProcIdentifier_def Let_def)

lemma register_other:
  assumes "p \<noteq> 0" "p \<notin> tab_live tab" "q \<in> tab_live tab"
  shows "getProcIdentifier q (register_proc p tab) = getProcIdentifier q tab"
proof -
  obtain l where l: "tab = Some l" "q \<in> set l" "q \<noteq> 0" using live_Some [OF assms(3)] by blast
  have pq: "p \<noteq> q" using assms(2,3) by blast
  show ?thesis
  proof (cases "0 \<in> set l")
    case True
    then have i: "proc_index l 0 < length l" "l ! proc_index l 0 = 0"
      by (simp_all add: proc_index_less proc_index_nth)
    have k: "proc_index (l[proc_index l 0 := p]) q = proc_index l q"
      using proc_index_update [OF l(2) i(1)] i(2) l(3) pq by simp
    then have "proc_index (l[proc_index l 0 := p]) q < length l" using l(2) by (simp add: proc_index_less)
    then have "q \<in> set (l[proc_index l 0 := p])" by (metis length_list_update proc_index_less)
    then show ?thesis using i k l by (simp add: register_proc_def Let_def ident_live)
  qed (use l in \<open>simp add: register_proc_def proc_index_absent ident_live proc_index_append\<close>)
qed

lemma unregister_other:
  assumes "p \<noteq> 0" "p \<noteq> q" "q \<in> tab_live tab"
  shows "getProcIdentifier q (unregister_tab p tab) = getProcIdentifier q tab"
proof -
  obtain l where l: "tab = Some l" "q \<in> set l" "q \<noteq> 0" using live_Some [OF assms(3)] by blast
  show ?thesis
  proof (cases "p \<in> set l")
    case True
    then have i: "proc_index l p < length l" "l ! proc_index l p = p"
      by (simp_all add: proc_index_less proc_index_nth)
    have k: "proc_index (l[proc_index l p := 0]) q = proc_index l q"
      using proc_index_update [OF l(2) i(1)] i(2) l(3) assms(2) by simp
    then have "proc_index (l[proc_index l p := 0]) q < length l" using l(2) by (simp add: proc_index_less)
    then have "q \<in> set (l[proc_index l p := 0])" by (metis length_list_update proc_index_less)
    then show ?thesis using True k l by (simp add: unregister_tab_def clear_slot_update ident_live)
  qed (use l in \<open>simp add: unregister_tab_def clear_slot_absent\<close>)
qed

lemma ident_handle:
  assumes "p \<in> tab_live tab"
  shows "\<exists>i. 0 \<le> i \<and> getProcIdentifier p tab = Inr i \<and> getProcHandle i tab = Inr p"
proof -
  obtain l where l: "tab = Some l" "p \<in> set l" using live_Some [OF assms] by blast
  then show ?thesis
    by (intro exI [of _ "int (proc_index l p)"])
      (simp add: ident_live getProcHandle_def proc_index_less proc_index_nth)
qed

interpretation ptab: proc_slots register_proc unregister_tab getProcIdentifier getProcHandle tab_live tab_wf
  by unfold_locales
    (simp_all add: register_wf unregister_wf ident_handle register_other unregister_other)

lemma ident_less:
  assumes "getProcIdentifier p tab = Inr i" "numProcs tab = Inr n"
  shows "i < n"
proof -
  obtain l where l: "tab = Some l" "n = int (length l)" using assms(2) by (auto simp: numProcs_def split: option.splits)
  show ?thesis
  proof (cases "proc_index l p = length l")
    case False
    then show ?thesis using assms(1) l proc_index_le [of l p] by (simp add: getProcIdentifier_def Let_def)
  qed (use assms(1) l in \<open>simp add: getProcIdentifier_def\<close>)
qed

section \<open>Properties\<close>

text \<open>
  C31. A tagged address finds its process for as long as that process lives: it carries the
  identifier the process had when the address was made, and whatever other processes are created
  and destroyed in between, in any order, \<^verbatim>\<open>veo_get_proc_handle_from_hmem\<close> returns the process and
  \<^verbatim>\<open>veo_get_hmem_addr\<close> the plain VE address.
\<close>

theorem hmem_finds_process:
  assumes "tab_wf tab" "p \<in> tab_live tab" "numProcs tab = Inr n" "n \<le> VEO_MAX_HMEM_PROCS"
    and "getProcIdentifier p tab = Inr i" "untagged a" "ptab.others p tab tab'"
  shows "veo_get_proc_handle_from_hmem (veo_set_proc_identifier a i) tab' = Inr p \<and>
    veo_get_hmem_addr (veo_set_proc_identifier a i) = a"
proof -
  obtain k where k: "0 \<le> k" "getProcIdentifier p tab = Inr k" using ptab.found [OF assms(1,2)] by blast
  then have i: "0 \<le> i" "i < VEO_MAX_HMEM_PROCS"
    using assms(4,5) ident_less [OF assms(5,3)] by simp_all
  note stable = ptab.others_stable [OF assms(7,1,2)]
  have h: "getProcHandle i tab' = Inr p" using ptab.found [OF stable(1,2)] stable(3) assms(5) by auto
  have "IS_VE (veo_set_proc_identifier a i) \<noteq> 0"
    using i by (simp add: IS_VE_iff bit_set_proc_identifier)
  then have "veo_get_proc_handle_from_hmem (veo_set_proc_identifier a i) tab' = getProcHandle i tab'"
    using uint_GET_PROC_IDENT_set [OF assms(6) i] by (simp add: veo_get_proc_handle_from_hmem_def)
  then show ?thesis using h get_hmem_addr_set [OF assms(6) i] by simp
qed

theorem hmem_finds_process_witness:
  "getProcIdentifier 0x20 (Some [0x10, 0x20]) = Inr 1 \<and>
    veo_get_proc_handle_from_hmem (veo_set_proc_identifier 0x600000000010 1) (Some [0x30, 0x20]) = Inr 0x20"
proof -
  have i: "getProcIdentifier 0x20 (Some [0x10, 0x20]) = Inr 1"
    by (simp add: getProcIdentifier_def proc_index_def)
  have "ptab.others 0x20 (Some [0x10, 0x20])
      (register_proc 0x30 (unregister_tab 0x10 (Some [0x10, 0x20])))"
    by (intro ptab.others.intros) (simp_all add: unregister_tab_def tab_live_def tab_slots_def)
  moreover have "register_proc 0x30 (unregister_tab 0x10 (Some [0x10, 0x20])) = Some [0x30, 0x20]"
    by (simp add: register_proc_def unregister_tab_def proc_index_def)
  ultimately have "ptab.others 0x20 (Some [0x10, 0x20]) (Some [0x30, 0x20])" by simp
  moreover have "untagged 0x600000000010"
    by (simp add: untagged_def VEIDENT_MBITS_def VEADDR_MBITS_def PIDENT_MBITS_def)
  ultimately show ?thesis
    using hmem_finds_process [of "Some [0x10, 0x20]" "0x20" 2 1 "0x600000000010" "Some [0x30, 0x20]"] i
    by (simp add: tab_wf_def tab_live_def tab_slots_def numProcs_def const_defs)
qed

end
