(* ===== verification/Proc_Handle.thy ===== *)
theory Proc_Handle
  imports Context_Ops Proc_Registry
begin

text \<open>
  Process handles (\<^verbatim>\<open>ProcHandle.hpp\<close>, \<^verbatim>\<open>ProcHandle.cpp\<close>): creation and destruction of VE processes,
  libraries and symbols, VE memory, the contexts of a process.

  The objects of the library live in a store: \<open>handles\<close> and \<open>contexts\<close> map the addresses of
  process handles and contexts to their contents, a context with the address of the process it
  belongs to. Using an address without an object is the exception \<open>NullDeref\<close>. A method of a
  context is run by \<open>on_ctx\<close>, which gives it the context, the outside world, the VH memory and
  the survival flag of its process, and writes back what it leaves.

  The choices of the scheduler that an operation meets are an argument: the results of the
  attempts to lock the progress engine, and whether a progress thread sleeps when it is stopped.
\<close>

section \<open>State\<close>

record proc_handle =
  sym_name :: "u64 \<times> string \<Rightarrow> u64 option"
  ph_up :: u64
  ph_ve_sp :: u64
  mctx :: u64
  ctx_vec :: "u64 list"
  ve_number :: int
  ve2velibh :: "u64 \<Rightarrow> u64 option"
  survival :: bool

record 'e world =
  procs :: proc_table
  handles :: "u64 \<Rightarrow> proc_handle option"
  contexts :: "u64 \<Rightarrow> (u64 \<times> ctx) option"
  wenv :: 'e
  whst :: host

record sched =
  lk_progress :: "nat \<Rightarrow> bool"
  lk_wait :: "nat \<Rightarrow> bool"
  asleep :: "u64 \<Rightarrow> bool"

type_synonym ('s, 'a) wres = "((exc + 'a) \<times> 's) option"

definition enter_ctx :: "proc_handle \<Rightarrow> ctx \<Rightarrow> ('e, 'm) world_scheme \<Rightarrow> 'e cst" where
  "enter_ctx h c w = ctx.extend c \<lparr>env = wenv w, hst = whst w, proc_survival = survival h\<rparr>"

definition leave_ctx ::
  "u64 \<Rightarrow> u64 \<Rightarrow> proc_handle \<Rightarrow> 'e cst \<Rightarrow> ('e, 'm) world_scheme \<Rightarrow> ('e, 'm) world_scheme" where
  "leave_ctx ph cp h s w = w\<lparr>handles := (handles w)(ph \<mapsto> h\<lparr>survival := proc_survival s\<rparr>),
     contexts := (contexts w)(cp \<mapsto> (ph, ctx.truncate s)), wenv := env s, whst := hst s\<rparr>"

definition on_ctx ::
  "u64 \<Rightarrow> ('e cst \<Rightarrow> ('e, 'a) res option) \<Rightarrow> ('e, 'm) world_scheme
    \<Rightarrow> (('e, 'm) world_scheme, 'a) wres" where
  "on_ctx cp f w =
     (case contexts w cp of
        None \<Rightarrow> Some (Inl NullDeref, w)
      | Some (ph, c) \<Rightarrow>
          (case handles w ph of
             None \<Rightarrow> Some (Inl NullDeref, w)
           | Some h \<Rightarrow>
               (case f (enter_ctx h c w) of
                  None \<Rightarrow> None
                | Some (r, s) \<Rightarrow> Some (r, leave_ctx ph cp h s w))))"

definition with_handle ::
  "u64 \<Rightarrow> (proc_handle \<Rightarrow> (('e, 'm) world_scheme, 'a) wres) \<Rightarrow> ('e, 'm) world_scheme
    \<Rightarrow> (('e, 'm) world_scheme, 'a) wres" where
  "with_handle ph f w = (case handles w ph of None \<Rightarrow> Some (Inl NullDeref, w) | Some h \<Rightarrow> f h)"

text \<open>An operation on the main context.\<close>

definition on_main ::
  "u64 \<Rightarrow> ('e cst \<Rightarrow> ('e, 'a) res option) \<Rightarrow> ('e, 'm) world_scheme
    \<Rightarrow> (('e, 'm) world_scheme, 'a) wres" where
  "on_main ph f w = with_handle ph (\<lambda>h. on_ctx (mctx h) f w) w"

definition upd_handle ::
  "u64 \<Rightarrow> (proc_handle \<Rightarrow> proc_handle) \<Rightarrow> ('e, 'm) world_scheme \<Rightarrow> ('e, 'm) world_scheme" where
  "upd_handle ph f w = w\<lparr>handles := (handles w)(ph := map_option f (handles w ph))\<rparr>"

text \<open>A C string as it is sent: its characters and the terminating zero.\<close>

definition cstr :: "string \<Rightarrow> bytes" where
  "cstr str = map of_char str @ [0]"

section \<open>Creation\<close>

text \<open>
  The constructor, including the allocation of the object. When it throws, the object is
  released; the main context is not.
\<close>

definition new_proc_ctx ::
  "'e urpc_ops \<Rightarrow> int \<Rightarrow> u64 \<Rightarrow> int \<Rightarrow> u64 \<Rightarrow> 'e \<Rightarrow> ('e, 'm) world_scheme
    \<Rightarrow> (exc + u64) \<times> ('e, 'm) world_scheme" where
  "new_proc_ctx ops venode upp vecore p e w =
     (let h0 = new_char p (whst w); c = op_new ops h0; h1 = new_char c h0;
          failed = (\<lambda>x s. (Inl x, w\<lparr>wenv := env s, whst := delete_char p (hst s)\<rparr>));
          (r, s1) = getStackPointer ops None
            (ctx.extend (new_Context upp True) \<lparr>env = e, hst = h1, proc_survival = True\<rparr>)
      in case r of
           Inl x \<Rightarrow> failed x s1
         | Inr None \<Rightarrow> failed Uninitialized s1
         | Inr (Some sp) \<Rightarrow>
             (let (ok, s2) = progressInit ops s1
              in if \<not> ok then failed (VEOException (errno_val ops (env s2))) s2
                 else let s3 = s2\<lparr>ctx_state := VEO_STATE_RUNNING, ve_sp := sp, core := vecore\<rparr>;
                          h = \<lparr>sym_name = Map.empty, ph_up = upp, ph_ve_sp = sp, mctx = c,
                               ctx_vec = [], ve_number = venode, ve2velibh = Map.empty,
                               survival = proc_survival s3\<rparr>
                      in (Inr p, w\<lparr>procs := register_proc p (procs w),
                            handles := (handles w)(p \<mapsto> h),
                            contexts := (contexts w)(c \<mapsto> (p, ctx.truncate s3)),
                            wenv := env s3, whst := hst s3\<rparr>)))"

definition new_ProcHandle ::
  "'e urpc_ops \<Rightarrow> int \<Rightarrow> string \<Rightarrow> ('e, 'm) world_scheme \<Rightarrow> (exc + u64) \<times> ('e, 'm) world_scheme"
  where
  "new_ProcHandle ops venode binname w =
     (let p = op_new ops (whst w);
          throw = (\<lambda>e. (Inl (VEOException (errno_val ops e)), w\<lparr>wenv := e\<rparr>));
          (upp, e1) = vh_urpc_peer_create ops (wenv w)
      in if upp = 0 then throw e1
         else case (case getenv_var ops ''VE_CORE_NUMBER'' of None \<Rightarrow> Inr (- 1) | Some str \<Rightarrow> stoi str) of
                Inl x \<Rightarrow> (Inl x, w\<lparr>wenv := e1\<rparr>)
              | Inr vecore \<Rightarrow>
                  let (rv, e2) = vh_urpc_child_create ops upp binname venode vecore e1
                  in if rv \<noteq> 0 then throw (snd (vh_urpc_peer_destroy ops upp e2))
                     else let (rv', e3) = urpc_wait_peer_attach ops upp e2
                          in if rv' \<noteq> 0 then throw (snd (vh_urpc_peer_destroy ops upp e3))
                             else new_proc_ctx ops venode upp vecore p e3 w)"

section \<open>Requests through the main context\<close>

text \<open>The common pattern: an asynchronous request and the wait for its result.\<close>

definition sync_request ::
  "'e urpc_ops \<Rightarrow> sched \<Rightarrow> nat \<Rightarrow> item list \<Rightarrow> u64 option \<Rightarrow> 'e cst
    \<Rightarrow> ('e, veo_command_state option \<times> u64 option) res option" where
  "sync_request ops sc cm its ret s =
     bind_so (Some (genericAsyncReq ops (lk_progress sc 0) cm its s))
       (\<lambda>req t. case callWaitResult ops (lk_wait sc) req ret t of
                  None \<Rightarrow> None
                | Some (Inl e, _, u) \<Rightarrow> Some (Inl e, u)
                | Some (Inr rv, v, u) \<Rightarrow> Some (Inr (rv, v), u))"

text \<open>A variable that may not have been assigned.\<close>

definition assigned :: "'a option \<Rightarrow> exc + 'a" where
  "assigned v = (case v of None \<Rightarrow> Inl Uninitialized | Some x \<Rightarrow> Inr x)"

text \<open>The result of a request, 0 unless its status is \<^verbatim>\<open>VEO_COMMAND_OK\<close>.\<close>

definition value_if_ok ::
  "'e urpc_ops \<Rightarrow> sched \<Rightarrow> u64 \<Rightarrow> nat \<Rightarrow> item list \<Rightarrow> ('e, 'm) world_scheme
    \<Rightarrow> (('e, 'm) world_scheme, u64) wres" where
  "value_if_ok ops sc ph cm its w =
     bind_so (on_main ph (sync_request ops sc cm its (Some 0)) w)
       (\<lambda>(rv, v) t. Some (if rv \<noteq> Some VEO_COMMAND_OK then Inr 0 else assigned v, t))"

definition loadLibrary ::
  "'e urpc_ops \<Rightarrow> sched \<Rightarrow> u64 \<Rightarrow> string \<Rightarrow> ('e, 'm) world_scheme \<Rightarrow> (('e, 'm) world_scheme, u64) wres"
  where
  "loadLibrary ops sc ph libname w =
     (if length libname > VEO_SYMNAME_LEN_MAX then Some (Inl (VEOException ENAMETOOLONG), w)
      else value_if_ok ops sc ph URPC_CMD_LOADLIB [ItemP (cstr libname)] w)"

definition forget_symbols :: "u64 \<Rightarrow> proc_handle \<Rightarrow> proc_handle" where
  "forget_symbols hdl h = h\<lparr>sym_name := (\<lambda>k. if fst k = hdl then None else sym_name h k)\<rparr>"

definition unloadLibrary ::
  "'e urpc_ops \<Rightarrow> sched \<Rightarrow> u64 \<Rightarrow> u64 \<Rightarrow> ('e, 'm) world_scheme \<Rightarrow> (('e, 'm) world_scheme, int) wres"
  where
  "unloadLibrary ops sc ph hdl w =
     with_handle ph (\<lambda>_.
       bind_so (on_main ph (sync_request ops sc URPC_CMD_UNLOADLIB [ItemL hdl] (Some (- 1)))
                  (upd_handle ph (forget_symbols hdl) w))
         (\<lambda>(rv, v) t. Some (case assigned v of Inl x \<Rightarrow> Inl x | Inr r \<Rightarrow> Inr (to_int32 (uint r)), t))) w"

definition getSym ::
  "'e urpc_ops \<Rightarrow> sched \<Rightarrow> u64 \<Rightarrow> u64 \<Rightarrow> string \<Rightarrow> ('e, 'm) world_scheme
    \<Rightarrow> (('e, 'm) world_scheme, u64) wres" where
  "getSym ops sc ph libhdl symname w =
     (if length symname > VEO_SYMNAME_LEN_MAX then Some (Inl (VEOException ENAMETOOLONG), w)
      else with_handle ph (\<lambda>h.
        case sym_name h (libhdl, symname) of
          Some a \<Rightarrow> Some (Inr a, w)
        | None \<Rightarrow>
            bind_so (value_if_ok ops sc ph URPC_CMD_GETSYM [ItemL libhdl, ItemP (cstr symname)] w)
              (\<lambda>a t. if a = 0 then Some (Inr 0, t)
                     else Some (Inr a, upd_handle ph
                       (\<lambda>h. h\<lparr>sym_name := (sym_name h)((libhdl, symname) \<mapsto> a)\<rparr>) t))) w)"

definition allocBuff ::
  "'e urpc_ops \<Rightarrow> sched \<Rightarrow> u64 \<Rightarrow> u64 \<Rightarrow> ('e, 'm) world_scheme \<Rightarrow> (('e, 'm) world_scheme, u64) wres"
  where
  "allocBuff ops sc ph sz w = value_if_ok ops sc ph URPC_CMD_ALLOC [ItemL sz] w"

definition freeBuff ::
  "'e urpc_ops \<Rightarrow> sched \<Rightarrow> u64 \<Rightarrow> u64 \<Rightarrow> ('e, 'm) world_scheme \<Rightarrow> (('e, 'm) world_scheme, unit) wres"
  where
  "freeBuff ops sc ph buff w =
     bind_so (on_main ph (sync_request ops sc URPC_CMD_FREE [ItemL buff] None) w)
       (\<lambda>_ t. Some (Inr (), t))"

definition ph_readMem ::
  "'e urpc_ops \<Rightarrow> sched \<Rightarrow> u64 \<Rightarrow> u64 \<Rightarrow> u64 \<Rightarrow> u64 \<Rightarrow> ('e, 'm) world_scheme
    \<Rightarrow> (('e, 'm) world_scheme, int) wres" where
  "ph_readMem ops sc ph dst src sz w =
     on_main ph (\<lambda>s. bind_so (asyncReadMem ops (lk_progress sc 0) dst src sz s)
                         (\<lambda>req t. wait_ok ops (lk_wait sc) req t)) w"

definition ph_writeMem ::
  "'e urpc_ops \<Rightarrow> sched \<Rightarrow> u64 \<Rightarrow> u64 \<Rightarrow> u64 \<Rightarrow> u64 \<Rightarrow> ('e, 'm) world_scheme
    \<Rightarrow> (('e, 'm) world_scheme, int) wres" where
  "ph_writeMem ops sc ph dst src sz w =
     on_main ph (\<lambda>s. bind_so (asyncWriteMem ops (lk_progress sc 0) dst src sz s)
                         (\<lambda>req t. wait_ok ops (lk_wait sc) req t)) w"

definition veMemcpy ::
  "'e urpc_ops \<Rightarrow> sched \<Rightarrow> u64 \<Rightarrow> u64 \<Rightarrow> u64 \<Rightarrow> u64 \<Rightarrow> ('e, 'm) world_scheme
    \<Rightarrow> (('e, 'm) world_scheme, int) wres" where
  "veMemcpy ops sc ph dst src sz w =
     bind_so (on_main ph (sync_request ops sc URPC_CMD_MEMCPY [ItemL dst, ItemL src, ItemL sz] (Some 0)) w)
       (\<lambda>(rv, v) t. Some (Inr (if rv \<noteq> Some VEO_COMMAND_OK then - 1 else 0), t))"

section \<open>Contexts\<close>

definition numContexts :: "u64 \<Rightarrow> ('e, 'm) world_scheme \<Rightarrow> exc + int" where
  "numContexts ph w =
     (case handles w ph of None \<Rightarrow> Inl NullDeref | Some h \<Rightarrow> Inr (int (length (ctx_vec h))))"

definition getContext :: "u64 \<Rightarrow> int \<Rightarrow> ('e, 'm) world_scheme \<Rightarrow> exc + u64" where
  "getContext ph idx w =
     (case handles w ph of
        None \<Rightarrow> Inl NullDeref
      | Some h \<Rightarrow> if 0 \<le> idx \<and> nat idx < length (ctx_vec h) then Inr (ctx_vec h ! nat idx)
                  else Inl StdOutOfRange)"

text \<open>Erasing a context from the vector destroys it.\<close>

definition drop_ctx :: "u64 \<Rightarrow> u64 \<Rightarrow> ('e, 'm) world_scheme \<Rightarrow> ('e, 'm) world_scheme" where
  "drop_ctx ph c w =
     (upd_handle ph (\<lambda>h. h\<lparr>ctx_vec := remove1 c (ctx_vec h)\<rparr>) w)
       \<lparr>contexts := (contexts w)(c := None), whst := delete_char c (whst w)\<rparr>"

definition delContext ::
  "'e urpc_ops \<Rightarrow> sched \<Rightarrow> u64 \<Rightarrow> u64 \<Rightarrow> ('e, 'm) world_scheme \<Rightarrow> (('e, 'm) world_scheme, unit) wres"
  where
  "delContext ops sc ph c w =
     with_handle ph (\<lambda>h.
       if c \<in> set (ctx_vec h)
       then bind_so (on_ctx c (close_ctx ops (asleep sc c)) w)
              (\<lambda>_ t. Some (Inr (), drop_ctx ph c t))
       else Some (Inr (), w)) w"

fun del_others ::
  "'e urpc_ops \<Rightarrow> sched \<Rightarrow> u64 \<Rightarrow> u64 \<Rightarrow> u64 list \<Rightarrow> ('e, 'm) world_scheme
    \<Rightarrow> (('e, 'm) world_scheme, unit) wres" where
  "del_others ops sc ph m [] w = Some (Inr (), w)"
| "del_others ops sc ph m (c # cs) w =
     (if c \<noteq> m then bind_so (delContext ops sc ph c w) (\<lambda>_ t. del_others ops sc ph m cs t)
      else del_others ops sc ph m cs w)"

definition exitProc ::
  "'e urpc_ops \<Rightarrow> sched \<Rightarrow> u64 \<Rightarrow> ('e, 'm) world_scheme \<Rightarrow> (('e, 'm) world_scheme, int) wres" where
  "exitProc ops sc ph w =
     with_handle ph (\<lambda>h.
       bind_so (del_others ops sc ph (mctx h) (ctx_vec h) w) (\<lambda>_ w1.
         bind_so (on_ctx (mctx h) (close_ctx ops (asleep sc (mctx h))) w1) (\<lambda>rc w2.
           let w3 = upd_handle ph (\<lambda>h. h\<lparr>ve_number := - 1\<rparr>) w2
           in case unregister_proc ph (procs w3) of
                Inl e \<Rightarrow> Some (Inl e, w3)
              | Inr tab \<Rightarrow> Some (Inr 0, w3\<lparr>procs := tab\<rparr>)))) w"

text \<open>The wait until the VE thread has set its flag.\<close>

partial_function (option) wait_ready :: "'e urpc_ops \<Rightarrow> u64 \<Rightarrow> 'e \<Rightarrow> 'e option" where
  "wait_ready ops p e =
     (case urpc_receiver_ready ops p e of
        (r, e') \<Rightarrow> if r then Some e' else wait_ready ops p e')"

declare wait_ready.simps [code]

text \<open>The core of the next context, or the exception when the OpenMP threads are not set to 1.\<close>

definition next_core :: "'e urpc_ops \<Rightarrow> 'e \<Rightarrow> int \<Rightarrow> exc + int" where
  "next_core ops e prev_core =
     bind_exc (case getenv_var ops ''VE_OMP_NUM_THREADS'' of None \<Rightarrow> Inr (- 1) | Some str \<Rightarrow> stoi str)
       (\<lambda>threads. if threads \<noteq> 1 then Inl (VEOException (errno_val ops e))
                  else Inr (if prev_core \<ge> 0 then prev_core + threads else - 1))"

text \<open>A new context on an attached peer: its stack pointer, its progress thread, its place.\<close>

definition attach_context ::
  "'e urpc_ops \<Rightarrow> u64 \<Rightarrow> u64 \<Rightarrow> int \<Rightarrow> ('e, 'm) world_scheme \<Rightarrow> (exc + u64) \<times> ('e, 'm) world_scheme"
  where
  "attach_context ops ph new_up cor w =
     (let c = op_new ops (whst w); alive = (case handles w ph of None \<Rightarrow> False | Some h \<Rightarrow> survival h);
          (r, s1) = getStackPointer ops None (ctx.extend (new_Context new_up False)
            \<lparr>env = wenv w, hst = new_char c (whst w), proc_survival = alive\<rparr>);
          failed = (\<lambda>x s. (Inl x, w\<lparr>wenv := env s, whst := hst s\<rparr>))
      in case r of
           Inl x \<Rightarrow> failed x s1
         | Inr None \<Rightarrow> failed Uninitialized s1
         | Inr (Some sp) \<Rightarrow>
             (let (ok, s2) = progressInit ops s1
              in if \<not> ok then failed (VEOException (errno_val ops (env s2))) s2
                 else let s3 = s2\<lparr>ve_sp := sp, core := cor, ctx_state := VEO_STATE_RUNNING\<rparr>
                      in (Inr c, (upd_handle ph (\<lambda>h. h\<lparr>ctx_vec := ctx_vec h @ [c]\<rparr>) w)
                            \<lparr>contexts := (contexts w)(c \<mapsto> (ph, ctx.truncate s3)),
                             wenv := env s3, whst := hst s3\<rparr>)))"

text \<open>The request for another VE thread, sent through the peer of the process.\<close>

definition new_peer ::
  "'e urpc_ops \<Rightarrow> u64 \<Rightarrow> u64 \<Rightarrow> int \<Rightarrow> u64 \<Rightarrow> ('e, 'm) world_scheme
    \<Rightarrow> (('e, 'm) world_scheme, u64) wres" where
  "new_peer ops ph upp cor stack_sz w =
     (let destroy = (\<lambda>p e. snd (vh_urpc_peer_destroy ops p e));
          (new_up, e1) = vh_urpc_peer_create ops (wenv w)
      in if new_up = 0 then Some (Inl (VEOException (errno_val ops e1)), w\<lparr>wenv := e1\<rparr>)
         else let (req, e2) = urpc_generic_send ops upp URPC_CMD_NEWPEER
                    [ItemI (urpc_shm_segid ops new_up e1), ItemI (of_int cor), ItemL stack_sz] e1
              in if req < 0 then Some (Inr 0, w\<lparr>wenv := destroy new_up e2\<rparr>)
                 else let (rv, e3) = urpc_wait_peer_attach ops new_up e2
                      in if rv \<noteq> 0
                         then let e4 = destroy new_up e3
                              in Some (Inl (VEOException (errno_val ops e4)), w\<lparr>wenv := e4\<rparr>)
                         else case wait_req_result ops upp req None e3 of
                                (_, None, e4) \<Rightarrow> Some (Inl Uninitialized, w\<lparr>wenv := e4\<rparr>)
                              | (_, Some rc, e4) \<Rightarrow>
                                  if rc \<noteq> 0 then Some (Inr 0, w\<lparr>wenv := destroy new_up e4\<rparr>)
                                  else (case wait_ready ops new_up e4 of
                                          None \<Rightarrow> None
                                        | Some e5 \<Rightarrow>
                                            Some (attach_context ops ph new_up cor (w\<lparr>wenv := e5\<rparr>))))"

definition openContext ::
  "'e urpc_ops \<Rightarrow> sched \<Rightarrow> u64 \<Rightarrow> u64 \<Rightarrow> u64 \<Rightarrow> ('e, 'm) world_scheme
    \<Rightarrow> (('e, 'm) world_scheme, u64) wres" where
  "openContext ops sc sync_func stack_sz ph w =
     bind_so (on_main ph (synchronize ops (lk_wait sc) sync_func) w) (\<lambda>_ w1.
       with_handle ph (\<lambda>h.
         if ctx_vec h = []
         then Some (Inr (mctx h), upd_handle ph (\<lambda>h. h\<lparr>ctx_vec := [mctx h]\<rparr>) w1)
         else case contexts w1 (last (ctx_vec h)) of
                None \<Rightarrow> Some (Inl NullDeref, w1)
              | Some (_, c) \<Rightarrow>
                  (case next_core ops (wenv w1) (core c) of
                     Inl x \<Rightarrow> Some (Inl x, w1)
                   | Inr cor \<Rightarrow> new_peer ops ph (ph_up h) cor stack_sz w1)) w1)"

fun access_loop ::
  "'e urpc_ops \<Rightarrow> sched \<Rightarrow> nat \<Rightarrow> u64 list \<Rightarrow> ('e, 'm) world_scheme
    \<Rightarrow> (('e, 'm) world_scheme, unit) wres" where
  "access_loop ops sc n [] w = Some (Inr (), w)"
| "access_loop ops sc n (c # cs) w =
     bind_so (on_ctx c (\<lambda>s. Some (genericAsyncReq ops (lk_progress sc n) URPC_CMD_ACS_PCIRCVSYC [] s)) w)
       (\<lambda>_ t. access_loop ops sc (Suc n) cs t)"

definition accessPciRecvSyncRegister ::
  "'e urpc_ops \<Rightarrow> sched \<Rightarrow> u64 \<Rightarrow> ('e, 'm) world_scheme \<Rightarrow> (('e, 'm) world_scheme, unit) wres" where
  "accessPciRecvSyncRegister ops sc ph w = with_handle ph (\<lambda>h. access_loop ops sc 0 (ctx_vec h) w) w"

section \<open>Libraries for VE to VE communication\<close>

text \<open>The map of library handles is keyed by the pointer to the name, not by the name.\<close>

definition getLibh_from_hashmap :: "u64 \<Rightarrow> proc_handle \<Rightarrow> u64" where
  "getLibh_from_hashmap libname h = (case ve2velibh h libname of None \<Rightarrow> 0 | Some l \<Rightarrow> l)"

definition setLibh_to_hashmap :: "u64 \<Rightarrow> u64 \<Rightarrow> proc_handle \<Rightarrow> proc_handle" where
  "setLibh_to_hashmap libname l h = h\<lparr>ve2velibh := (ve2velibh h)(libname \<mapsto> l)\<rparr>"

definition getSym_from_hashmap :: "u64 \<Rightarrow> string \<Rightarrow> proc_handle \<Rightarrow> u64" where
  "getSym_from_hashmap libh symn h = (case sym_name h (libh, symn) of None \<Rightarrow> 0 | Some a \<Rightarrow> a)"

definition loadVE2VELibrary ::
  "'e urpc_ops \<Rightarrow> sched \<Rightarrow> u64 \<Rightarrow> u64 \<times> string \<Rightarrow> ('e, 'm) world_scheme
    \<Rightarrow> (('e, 'm) world_scheme, u64) wres" where
  "loadVE2VELibrary ops sc ph libname w =
     with_handle ph (\<lambda>h.
       let l = getLibh_from_hashmap (fst libname) h
       in if l \<noteq> 0 then Some (Inr l, w)
          else bind_so (loadLibrary ops sc ph (snd libname) w)
                 (\<lambda>l' t. Some (Inr l', upd_handle ph (setLibh_to_hashmap (fst libname) l') t))) w"

fun vedma_loop ::
  "'e urpc_ops \<Rightarrow> (nat \<Rightarrow> sched) \<Rightarrow> nat \<Rightarrow> u64 \<Rightarrow> u64 \<Rightarrow> string \<Rightarrow> string list \<Rightarrow> u64
    \<Rightarrow> ('e, 'm) world_scheme \<Rightarrow> (('e, 'm) world_scheme, u64) wres" where
  "vedma_loop ops sc n ph libh symn [] target w = Some (Inr target, w)"
| "vedma_loop ops sc n ph libh symn (s # ss) target w =
     bind_so (getSym ops (sc n) ph libh s w)
       (\<lambda>a t. let target' = (if s = symn then a else target)
              in if a = 0 then Some (Inr a, t)
                 else vedma_loop ops sc (Suc n) ph libh symn ss target' t)"

definition getVEDMASyms ::
  "'e urpc_ops \<Rightarrow> (nat \<Rightarrow> sched) \<Rightarrow> u64 \<Rightarrow> u64 \<Rightarrow> string \<Rightarrow> ('e, 'm) world_scheme
    \<Rightarrow> (('e, 'm) world_scheme, u64) wres" where
  "getVEDMASyms ops sc ph libh symn w =
     with_handle ph (\<lambda>h.
       let a = getSym_from_hashmap libh symn h
       in if a \<noteq> 0 then Some (Inr a, w)
          else vedma_loop ops sc 0 ph libh symn
                 [''ve_dma_post'', ''ve_dma_poll'', ''ve_dma_post_wait''] 0 w) w"

section \<open>The end of the program\<close>

text \<open>\<^verbatim>\<open>_cleanup_procs\<close>: \<open>k\<close> is the position of the iterator, the list what is behind it.\<close>

fun cleanup_loop ::
  "'e urpc_ops \<Rightarrow> sched \<Rightarrow> u64 list \<Rightarrow> nat \<Rightarrow> ('e, 'm) world_scheme
    \<Rightarrow> (('e, 'm) world_scheme, unit) wres" where
  "cleanup_loop ops sc [] k w = Some (Inr (), w)"
| "cleanup_loop ops sc (p # ps) k w =
     (if p \<noteq> 0
      then bind_so (exitProc ops sc p w)
             (\<lambda>_ t. cleanup_loop ops sc ps k
                (t\<lparr>procs := map_option (\<lambda>l. take k l @ drop (Suc k) l) (procs t)\<rparr>))
      else cleanup_loop ops sc ps (Suc k) w)"

definition cleanup_procs ::
  "'e urpc_ops \<Rightarrow> sched \<Rightarrow> ('e, 'm) world_scheme \<Rightarrow> (('e, 'm) world_scheme, unit) wres" where
  "cleanup_procs ops sc w =
     (case procs w of
        None \<Rightarrow> Some (Inr (), w)
      | Some l \<Rightarrow> bind_so (cleanup_loop ops sc l 0 w) (\<lambda>_ t. Some (Inr (), t\<lparr>procs := None\<rparr>)))"

end
