(* ===== verification/Ve_Node.thy ===== *)
theory Ve_Node
  imports Aveo_Prelude
begin

text \<open>
  VE nodes: the architecture number from the files of the VE driver (\<^verbatim>\<open>veo_get_arch_info.cpp\<close>) and
  the choice of a node from the environment (\<^verbatim>\<open>set_venode_from_env\<close> and \<^verbatim>\<open>veo_get_ve_arch\<close> of
  \<^verbatim>\<open>veo_api.cpp\<close>). What the operating system provides is an argument: the environment variables,
  the names in the driver's directory and the contents of its files.
\<close>

section \<open>The architecture number\<close>

definition ARCH_FILE_BSIZE :: nat where [const_defs]: "ARCH_FILE_BSIZE = 16"
definition ARCH_PATH_BSIZE :: nat where [const_defs]: "ARCH_PATH_BSIZE = 64"
definition CLASS_VE :: string where "CLASS_VE = ''/sys/class/ve''"
definition ARCH_FILE :: string where "ARCH_FILE = ''ve_arch_class''"

definition NUL :: char where "NUL = CHR 0x00"
definition NL :: char where "NL = CHR 0x0A"

text \<open>
  The argument is what is in memory from the pointer on, up to and including a terminating zero
  if there is one; reading behind it reads uninitialised memory. \<^verbatim>\<open>strtol\<close> saturates to \<^verbatim>\<open>long\<close>, the
  result is converted to \<^verbatim>\<open>int\<close>.
\<close>

definition strtol_long :: "int \<Rightarrow> int" where
  "strtol_long n = max (- (2 ^ 63)) (min (2 ^ 63 - 1) n)"

definition get_num_from_vestr :: "string \<Rightarrow> exc + int" where
  "get_num_from_vestr str =
     (if \<exists>i < min 2 (length str). str ! i \<noteq> ''ve'' ! i then Inr (- 1)
      else if length str < 2 then Inl Uninitialized
      else let (num, endp) = (case scan_int (drop 2 str) of
                                None \<Rightarrow> (0, drop 2 str)
                              | Some (n, r) \<Rightarrow> (to_int32 (strtol_long n), r))
           in case endp of
                [] \<Rightarrow> Inl Uninitialized
              | c # _ \<Rightarrow> if c \<noteq> NUL \<and> c \<noteq> NL then Inr (- 1) else Inr num)"

text \<open>The loop over the directory.\<close>

fun find_ve :: "int \<Rightarrow> string list \<Rightarrow> exc + int" where
  "find_ve node [] = Inr (- 1)"
| "find_ve node (d # ds) =
     bind_exc (get_num_from_vestr (d @ [NUL]))
       (\<lambda>ve. if node \<noteq> - 1 then if ve = node then Inr ve else find_ve node ds
             else if ve \<noteq> - 1 then Inr ve else find_ve node ds)"

text \<open>Printing with \<^verbatim>\<open>%d\<close>.\<close>

fun dec_nat :: "nat \<Rightarrow> string" where
  "dec_nat n = (if n < 10 then [char_of (48 + n)] else dec_nat (n div 10) @ [char_of (48 + n mod 10)])"

declare dec_nat.simps [simp del]

definition dec_int :: "int \<Rightarrow> string" where
  "dec_int i = (if i < 0 then CHR ''-'' # dec_nat (nat (- i)) else dec_nat (nat i))"

definition snprintf_cut :: "nat \<Rightarrow> string \<Rightarrow> string" where
  "snprintf_cut n str = take (n - 1) str"

definition arch_path :: "int \<Rightarrow> string" where
  "arch_path ve = snprintf_cut ARCH_PATH_BSIZE (CLASS_VE @ ''/ve'' @ dec_int ve @ ''/'' @ ARCH_FILE)"

text \<open>What opening and reading a file gives.\<close>

datatype file_read = NoEntry | OpenFailed | ReadFailed | Contents string

definition veo_arch_number_sysfs :: "string list option \<Rightarrow> (string \<Rightarrow> file_read) \<Rightarrow> int \<Rightarrow> exc + int" where
  "veo_arch_number_sysfs dir files node =
     (case dir of
        None \<Rightarrow> Inr (- 1)
      | Some names \<Rightarrow>
          bind_exc (find_ve node names)
            (\<lambda>ve. if ve = - 1 then Inr (- 1)
                  else case files (arch_path ve) of
                         NoEntry \<Rightarrow> Inr 1
                       | OpenFailed \<Rightarrow> Inr (- 1)
                       | ReadFailed \<Rightarrow> Inr (- 1)
                       | Contents buf \<Rightarrow> get_num_from_vestr (take ARCH_FILE_BSIZE buf)))"

section \<open>The node from the environment\<close>

text \<open>\<^verbatim>\<open>std::getline\<close> until the end of the stream: no empty line behind a final separator.\<close>

function getlines :: "string \<Rightarrow> string list" where
  "getlines str =
     (if str = [] then []
      else takeWhile (\<lambda>c. c \<noteq> CHR '' '') str # getlines (drop 1 (dropWhile (\<lambda>c. c \<noteq> CHR '' '') str)))"
  by pat_completeness auto
termination
proof (relation "measure length")
  fix str :: string assume "str \<noteq> []"
  then have "length (drop 1 (dropWhile (\<lambda>c. c \<noteq> CHR '' '') str)) < length str"
    using length_dropWhile_le [of "\<lambda>c. c \<noteq> CHR '' ''" str] by (cases str) auto
  then show "(drop 1 (dropWhile (\<lambda>c. c \<noteq> CHR '' '') str), str) \<in> measure length" by simp
qed simp

declare getlines.simps [simp del]

text \<open>The search for the node number in the list of the scheduler.\<close>

fun node_listed :: "string \<Rightarrow> string list \<Rightarrow> exc + bool" where
  "node_listed num [] = Inr False"
| "node_listed num (v # vs) =
     bind_exc (stoi v) (\<lambda>a. bind_exc (stoi num) (\<lambda>b. if a = b then Inr True else node_listed num vs))"

definition set_venode_from_env :: "(string \<Rightarrow> string option) \<Rightarrow> int \<Rightarrow> exc + int" where
  "set_venode_from_env genv venode =
     (if venode < - 1 then Inr (- 2)
      else case genv ''_VENODELIST'' of
             Some str \<Rightarrow>
               (let v = getlines str
                in if venode = - 1
                   then (case genv ''VE_NODE_NUMBER'' of
                           Some num \<Rightarrow>
                             bind_exc (node_listed num v) (\<lambda>found.
                               bind_exc (stoi num) (\<lambda>n. if \<not> found then Inr (- 2) else Inr n))
                         | None \<Rightarrow> if length v > 0 then stoi (v ! 0) else Inr (- 2))
                   else if int (length v) \<le> venode then Inr (- 2) else stoi (v ! nat venode))
           | None \<Rightarrow>
               if venode = - 1
               then (case genv ''VE_NODE_NUMBER'' of Some num \<Rightarrow> stoi num | None \<Rightarrow> Inr 0)
               else Inr venode)"

definition veo_get_ve_arch ::
  "(string \<Rightarrow> string option) \<Rightarrow> string list option \<Rightarrow> (string \<Rightarrow> file_read) \<Rightarrow> int \<Rightarrow> exc + int" where
  "veo_get_ve_arch genv dir files venode =
     (case bind_exc (set_venode_from_env genv venode)
             (\<lambda>node. if node \<ge> - 1 then veo_arch_number_sysfs dir files node else Inr 0) of
        Inl StdInvalidArgument \<Rightarrow> Inr (- 1)
      | Inl StdOutOfRange \<Rightarrow> Inr (- 1)
      | Inl (VEOException _) \<Rightarrow> Inr (- 1)
      | r \<Rightarrow> r)"

section \<open>Numbers that are printed and read back\<close>

lemma of_char_digit: "(d :: nat) < 10 \<Longrightarrow> of_char (char_of (48 + d) :: char) = (48 + d :: nat)"
  by simp

lemma of_char_digit_int:
  assumes "(d :: nat) < 10"
  shows "(of_char (char_of (48 + d) :: char) :: int) = 48 + int d"
proof -
  have "(of_char (char_of (48 + d) :: char) :: int) = int (of_char (char_of (48 + d) :: char))"
    by (simp only: of_nat_of_char)
  also have "\<dots> = int (48 + d)" by (simp only: of_char_digit [OF assms])
  finally show ?thesis by simp
qed

lemma is_digit_char: "(d :: nat) < 10 \<Longrightarrow> is_digit (char_of (48 + d))"
  by (simp add: is_digit_def Let_def)

lemma dec_nat_digits: "list_all is_digit (dec_nat n)"
proof (induction n rule: dec_nat.induct)
  case (1 n)
  then show ?case by (subst dec_nat.simps) (simp add: is_digit_char)
qed

lemma dec_nat_nonempty: "dec_nat n \<noteq> []"
  by (subst dec_nat.simps) simp

lemma digits_value_snoc: "digits_value (ds @ [c]) = 10 * digits_value ds + (of_char c - 48)"
  by (simp add: digits_value_def)

lemma digits_value_dec: "digits_value (dec_nat n) = int n"
proof (induction n rule: dec_nat.induct)
  case (1 n)
  show ?case
  proof (cases "n < 10")
    case True
    then show ?thesis
      by (subst dec_nat.simps) (simp add: digits_value_def of_char_digit_int del: of_char_of)
  next
    case False
    have "n mod 10 < 10" by simp
    from of_char_digit_int [OF this] show ?thesis using False 1
      by (subst dec_nat.simps) (simp add: digits_value_snoc zdiv_int zmod_int del: of_char_of)
  qed
qed

lemma digit_facts:
  assumes "is_digit c"
  shows "\<not> is_space c" "c \<noteq> CHR ''-''" "c \<noteq> CHR ''+''" "c \<noteq> CHR '' ''"
  using assms by (auto simp: is_digit_def is_space_def Let_def)

lemma scan_dec_nat:
  assumes "r = [] \<or> \<not> is_digit (hd r)"
  shows "takeWhile is_digit (dec_nat n @ r) = dec_nat n" "dropWhile is_digit (dec_nat n @ r) = r"
proof -
  have d: "\<And>c. c \<in> set (dec_nat n) \<Longrightarrow> is_digit c" using dec_nat_digits [of n] by (simp add: list_all_iff)
  have "takeWhile is_digit r = []" "dropWhile is_digit r = r" using assms by (cases r; simp)+
  then show "takeWhile is_digit (dec_nat n @ r) = dec_nat n" "dropWhile is_digit (dec_nat n @ r) = r"
    using d by (simp_all add: takeWhile_append2 dropWhile_append2)
qed

lemma scan_dec_int:
  assumes "r = [] \<or> \<not> is_digit (hd r)"
  shows "scan_int (dec_int i @ r) = Some (i, r)"
proof (cases "i < 0")
  case True
  then show ?thesis using scan_dec_nat [OF assms, of "nat (- i)"] dec_nat_nonempty [of "nat (- i)"]
    by (simp add: scan_int_def dec_int_def is_space_def Let_def digits_value_dec)
next
  case False
  obtain c cs where c: "dec_nat (nat i) = c # cs" using dec_nat_nonempty [of "nat i"] by (cases "dec_nat (nat i)") auto
  then have dc: "is_digit c" using dec_nat_digits [of "nat i"] by simp
  have "dropWhile is_space (dec_nat (nat i) @ r) = dec_nat (nat i) @ r" using digit_facts(1) [OF dc] c by simp
  then show ?thesis
    using False scan_dec_nat [OF assms, of "nat i"] c digit_facts(2,3) [OF dc] digits_value_dec [of "nat i"]
    by (simp add: scan_int_def dec_int_def Let_def)
qed

definition is_int :: "int \<Rightarrow> bool" where
  "is_int i \<longleftrightarrow> - (2 ^ 31) \<le> i \<and> i < 2 ^ 31"

lemma stoi_dec [simp]: "is_int i \<Longrightarrow> stoi (dec_int i) = Inr i"
  using scan_dec_int [of "[]" i] by (simp add: stoi_def is_int_def)

text \<open>A list of words separated by spaces.\<close>

fun join_words :: "string list \<Rightarrow> string" where
  "join_words [] = []"
| "join_words [x] = x"
| "join_words (x # xs) = x @ '' '' @ join_words xs"

lemma getlines_word:
  assumes "x \<noteq> []" "CHR '' '' \<notin> set x"
  shows "getlines x = [x]" "getlines (x @ CHR '' '' # r) = x # getlines r"
proof -
  have c: "\<And>c. c \<in> set x \<Longrightarrow> c \<noteq> CHR '' ''" using assms(2) by auto
  then have "takeWhile (\<lambda>c. c \<noteq> CHR '' '') x = x" "dropWhile (\<lambda>c. c \<noteq> CHR '' '') x = []"
    by (simp_all add: takeWhile_eq_all_conv dropWhile_eq_Nil_conv)
  then show "getlines x = [x]" using assms(1)
    by (subst getlines.simps) (simp only: getlines.simps [of "[]"] drop_Nil if_False if_True simp_thms)
  have "takeWhile (\<lambda>c. c \<noteq> CHR '' '') (x @ CHR '' '' # r) = x"
    "dropWhile (\<lambda>c. c \<noteq> CHR '' '') (x @ CHR '' '' # r) = CHR '' '' # r"
    using c by (simp_all add: takeWhile_append2 dropWhile_append2)
  then show "getlines (x @ CHR '' '' # r) = x # getlines r"
    using assms(1) by (subst getlines.simps) simp
qed

lemma getlines_join:
  "\<forall>x \<in> set xs. x \<noteq> [] \<and> CHR '' '' \<notin> set x \<Longrightarrow> getlines (join_words xs) = xs"
proof (induction xs rule: join_words.induct)
  case 1
  then show ?case by (simp add: getlines.simps)
qed (simp_all add: getlines_word)

lemma dec_int_word: "dec_int i \<noteq> []" "CHR '' '' \<notin> set (dec_int i)"
proof -
  have "CHR '' '' \<notin> set (dec_nat n)" for n
    using dec_nat_digits [of n] by (auto simp: list_all_iff is_digit_def)
  then show "dec_int i \<noteq> []" "CHR '' '' \<notin> set (dec_int i)"
    by (simp_all add: dec_int_def dec_nat_nonempty)
qed

lemma getlines_dec: "getlines (join_words (map dec_int ns)) = map dec_int ns"
  by (rule getlines_join) (auto simp: dec_int_word)

lemma node_listed_dec:
  "is_int m \<Longrightarrow> \<forall>n \<in> set ns. is_int n \<Longrightarrow> node_listed (dec_int m) (map dec_int ns) = Inr (m \<in> set ns)"
  by (induction ns) (auto simp: bind_exc_def)

lemma length_dec_nat: "n < 10 ^ k \<Longrightarrow> 0 < k \<Longrightarrow> length (dec_nat n) \<le> k"
proof (induction k arbitrary: n)
  case (Suc k)
  show ?case
  proof (cases "n < 10")
    case False
    then have "0 < k" using Suc.prems(1) by (cases k) auto
    moreover have "n div 10 < 10 ^ k" using Suc.prems(1) by (simp add: less_mult_imp_div_less)
    ultimately show ?thesis using Suc.IH False by (subst dec_nat.simps) simp
  qed (subst dec_nat.simps, simp)
qed simp

lemma length_dec_int:
  assumes "is_int i"
  shows "length (dec_int i) \<le> 11"
proof -
  have "length (dec_nat n) \<le> 10" if "n \<le> 2 ^ 31" for n
    using length_dec_nat [of n 10] that by simp
  moreover have "nat (- i) \<le> 2 ^ 31" "nat i \<le> 2 ^ 31" using assms by (auto simp: is_int_def nat_le_iff)
  ultimately have "length (dec_nat (nat (- i))) \<le> 10" "length (dec_nat (nat i)) \<le> 10" by blast+
  then show ?thesis by (simp add: dec_int_def)
qed

lemma to_int32_id: "is_int i \<Longrightarrow> to_int32 i = i"
  unfolding to_int32_def is_int_def by (rule signed_take_bit_int_eq_self) simp_all

lemma vestr_dec:
  assumes "is_int k" "c = NUL \<or> c = NL"
  shows "get_num_from_vestr (''ve'' @ dec_int k @ c # r) = Inr k"
proof -
  have "\<not> is_digit c" using assms(2) by (auto simp: is_digit_def NUL_def NL_def Let_def)
  then have s: "scan_int (dec_int k @ c # r) = Some (k, c # r)" by (simp add: scan_dec_int)
  have "strtol_long k = k" using assms(1) by (simp add: strtol_long_def is_int_def)
  moreover have "\<not> (\<exists>i < min 2 (length (''ve'' @ dec_int k @ c # r)). (''ve'' @ dec_int k @ c # r) ! i \<noteq> ''ve'' ! i)"
    using nth_append [of "''ve''" "dec_int k @ c # r"] by (auto simp: numeral_2_eq_2)
  ultimately show ?thesis using assms s to_int32_id by (auto simp: get_num_from_vestr_def)
qed

section \<open>Properties\<close>



text \<open>
  C39. The path of the architecture file always fits its buffer: for every \<^verbatim>\<open>int\<close> the call of
  \<^verbatim>\<open>snprintf\<close> writes it in full, with room for the terminating zero.
\<close>

theorem arch_path_fits:
  assumes "is_int ve"
  shows "arch_path ve = CLASS_VE @ ''/ve'' @ dec_int ve @ ''/'' @ ARCH_FILE \<and>
    length (arch_path ve) < ARCH_PATH_BSIZE"
  using length_dec_int [OF assms]
  by (simp add: arch_path_def snprintf_cut_def ARCH_PATH_BSIZE_def CLASS_VE_def ARCH_FILE_def)

theorem arch_path_fits_witness: "arch_path 7 = ''/sys/class/ve/ve7/ve_arch_class''"
proof -
  have "dec_int 7 = ''7''" by code_simp
  then show ?thesis using arch_path_fits [of 7] by (simp add: is_int_def CLASS_VE_def ARCH_FILE_def)
qed



end
