(* ===== verification/Veo_Api.thy ===== *)
theory Veo_Api
  imports Proc_Handle Ve_Node
begin

text \<open>
  The C interface (\<^verbatim>\<open>veo_api.hpp\<close>, \<^verbatim>\<open>veo_api.cpp\<close>).

  \<open>api\<close> extends the store of processes and contexts with what the interface adds: \<^verbatim>\<open>errno\<close>, the
  argument and attribute objects, the table of hooks, and the calls of application hooks made so
  far. A C handle is the address of an object. Where a function has an out-parameter, the model
  returns its value with the result. \<open>catch_veo\<close> is the \<^verbatim>\<open>catch\<close> clause for \<^verbatim>\<open>VEOException\<close>, the
  only one most functions have: any other exception leaves the function.
\<close>

section \<open>State\<close>

text \<open>The functions hooks can be registered for, and the hooks.\<close>

datatype api_fun = FAllocMem | FAllocHmem | FFreeMem | FFreeHmem | FAllocMemAsync | FFreeMemAsync | FOther u64

datatype hook = HookApp u64 | HookAllocHmem | HookFreeHmem | HookAllocHmemAsync | HookFreeHmemAsync

datatype hook_call = CallHook u64 u64 "u64 list" | CallAlloc u64 u64 u64 | CallFree u64 u64
  \<comment> \<open>function, payload and arguments; function, address and size; function and address\<close>

record 'e api = "'e world" +
  errno :: int
  arg_objs :: "u64 \<Rightarrow> call_args option"
  attr_objs :: "u64 \<Rightarrow> thread_context_attr option"
  static_hooks :: "api_fun \<Rightarrow> (hook \<times> u64) option"
  alloc_hook :: u64
  free_hook :: u64
  hook_log :: "hook_call list"

definition catch_veo :: "('s, 'a) wres \<Rightarrow> (int \<Rightarrow> 's \<Rightarrow> ('s, 'a) wres) \<Rightarrow> ('s, 'a) wres" where
  "catch_veo r f = (case r of Some (Inl (VEOException n), t) \<Rightarrow> f n t | _ \<Rightarrow> r)"

lemma catch_veo_simps [simp]:
  "catch_veo None f = None" "catch_veo (Some (Inr a, t)) f = Some (Inr a, t)"
  "catch_veo (Some (Inl (VEOException n), t)) f = f n t"
  by (simp_all add: catch_veo_def)

definition set_errno :: "'a \<Rightarrow> int \<Rightarrow> 'e api \<Rightarrow> ('e api, 'a) wres" where
  "set_errno v n w = Some (Inr v, w\<lparr>errno := n\<rparr>)"

section \<open>Hooks\<close>

definition veo_register_hook :: "api_fun \<Rightarrow> hook \<Rightarrow> u64 \<Rightarrow> 'e api \<Rightarrow> 'e api" where
  "veo_register_hook f hk payload w = w\<lparr>static_hooks := (static_hooks w)(f \<mapsto> (hk, payload))\<rparr>"

definition veo_get_hook :: "api_fun \<Rightarrow> 'e api \<Rightarrow> hook option" where
  "veo_get_hook f w = map_option fst (static_hooks w f)"

definition veo_unregister_hook :: "api_fun \<Rightarrow> 'e api \<Rightarrow> 'e api" where
  "veo_unregister_hook f w = w\<lparr>static_hooks := (static_hooks w)(f := None)\<rparr>"

definition veo_register_hmem_hook_functions :: "u64 \<Rightarrow> u64 \<Rightarrow> 'e api \<Rightarrow> 'e api" where
  "veo_register_hmem_hook_functions alloc free w =
     veo_register_hook FFreeMemAsync HookFreeHmemAsync 0
       (veo_register_hook FAllocMemAsync HookAllocHmemAsync 0
         (veo_register_hook FFreeMem HookFreeHmem 0
           (veo_register_hook FAllocMem HookAllocHmem 0
             (w\<lparr>alloc_hook := alloc, free_hook := free\<rparr>))))"

definition veo_unregister_hmem_hook_functions :: "'e api \<Rightarrow> 'e api" where
  "veo_unregister_hmem_hook_functions w =
     veo_unregister_hook FFreeMemAsync (veo_unregister_hook FAllocMemAsync
       (veo_unregister_hook FFreeMem (veo_unregister_hook FAllocMem w)))"

text \<open>The hooks of the library report the tagged address of the process.\<close>

definition tagged_addr :: "u64 \<Rightarrow> u64 \<Rightarrow> 'e api \<Rightarrow> exc + u64" where
  "tagged_addr ph addr w =
     bind_exc (getProcIdentifier ph (procs w)) (\<lambda>i. Inr (veo_set_proc_identifier addr i))"

definition alloc_hmem_hook :: "u64 \<Rightarrow> u64 \<Rightarrow> u64 \<Rightarrow> 'e api \<Rightarrow> exc + 'e api" where
  "alloc_hmem_hook ph addr sz w =
     bind_exc (tagged_addr ph addr w)
       (\<lambda>hmem. Inr (w\<lparr>hook_log := hook_log w @ [CallAlloc (alloc_hook w) hmem sz]\<rparr>))"

definition free_hmem_hook :: "u64 \<Rightarrow> u64 \<Rightarrow> 'e api \<Rightarrow> exc + 'e api" where
  "free_hmem_hook ph addr w =
     bind_exc (tagged_addr ph addr w)
       (\<lambda>hmem. Inr (w\<lparr>hook_log := hook_log w @ [CallFree (free_hook w) hmem]\<rparr>))"

definition ctx_proc :: "u64 \<Rightarrow> 'e api \<Rightarrow> exc + u64" where
  "ctx_proc c w = (case contexts w c of None \<Rightarrow> Inl NullDeref | Some (p, _) \<Rightarrow> Inr p)"

definition alloc_hmem_async_hook :: "u64 \<Rightarrow> u64 \<Rightarrow> u64 \<Rightarrow> 'e api \<Rightarrow> exc + 'e api" where
  "alloc_hmem_async_hook c addr sz w = bind_exc (ctx_proc c w) (\<lambda>p. alloc_hmem_hook p addr sz w)"

definition free_hmem_async_hook :: "u64 \<Rightarrow> u64 \<Rightarrow> 'e api \<Rightarrow> exc + 'e api" where
  "free_hmem_async_hook c addr w = bind_exc (ctx_proc c w) (\<lambda>p. free_hmem_hook p addr w)"

text \<open>
  A call of a hook. The first argument is a process or a context, the second an address, which
  \<^verbatim>\<open>veo_alloc_mem\<close> passes by reference, the third a size. Taking more arguments than were passed
  is undefined.
\<close>

fun run_hook :: "hook \<Rightarrow> u64 \<Rightarrow> u64 list \<Rightarrow> 'e api \<Rightarrow> exc + 'e api" where
  "run_hook (HookApp f) payload args w = Inr (w\<lparr>hook_log := hook_log w @ [CallHook f payload args]\<rparr>)"
| "run_hook HookAllocHmem payload (p # addr # sz # _) w = alloc_hmem_hook p addr sz w"
| "run_hook HookFreeHmem payload (p # addr # _) w = free_hmem_hook p addr w"
| "run_hook HookAllocHmemAsync payload (c # addr # sz # _) w = alloc_hmem_async_hook c addr sz w"
| "run_hook HookFreeHmemAsync payload (c # addr # _) w = free_hmem_async_hook c addr w"
| "run_hook _ payload _ w = Inl Uninitialized"

definition call_hooks :: "api_fun \<Rightarrow> u64 list \<Rightarrow> 'a \<Rightarrow> 'e api \<Rightarrow> ('e api, 'a) wres" where
  "call_hooks f args v w =
     (case static_hooks w f of
        None \<Rightarrow> Some (Inr v, w)
      | Some (hk, payload) \<Rightarrow>
          (case run_hook hk payload args w of Inl e \<Rightarrow> Some (Inl e, w) | Inr t \<Rightarrow> Some (Inr v, t)))"

section \<open>Processes\<close>

definition CMD_VEGDB :: string where "CMD_VEGDB = ''/opt/nec/ve/bin/ve-gdb''"
definition CMD_XTERM :: string where "CMD_XTERM = ''/usr/bin/xterm''"

text \<open>The command that starts the VE process, written into a buffer of a size fixed before.\<close>

definition veobin_size :: "string \<Rightarrow> nat" where
  "veobin_size tmp_veobin = length tmp_veobin + length CMD_VEGDB + length CMD_XTERM + length ''-e'' + 4"

definition veobin_command :: "(string \<Rightarrow> string option) \<Rightarrow> string \<Rightarrow> string" where
  "veobin_command genv tmp_veobin =
     (case genv ''VEO_DEBUG'' of
        Some m \<Rightarrow>
          if m = ''console'' then CMD_VEGDB @ '' '' @ tmp_veobin
          else if m = ''xterm'' then CMD_XTERM @ '' -e '' @ CMD_VEGDB @ '' '' @ tmp_veobin
          else tmp_veobin
      | None \<Rightarrow> tmp_veobin)"

definition veo_proc_create_static ::
  "'e urpc_ops \<Rightarrow> int \<Rightarrow> string \<Rightarrow> 'e api \<Rightarrow> (exc + u64) \<times> 'e api" where
  "veo_proc_create_static ops venode tmp_veobin w =
     (let genv = getenv_var ops;
          r = (case set_venode_from_env genv venode of
                 Inl e \<Rightarrow> (Inl e, w)
               | Inr v \<Rightarrow>
                   if v < - 1 then (Inr 0, w)
                   else new_ProcHandle ops v
                     (snprintf_cut (veobin_size tmp_veobin) (veobin_command genv tmp_veobin)) w)
      in case r of
           (Inl StdInvalidArgument, t) \<Rightarrow> (Inr 0, t)
         | (Inl StdOutOfRange, t) \<Rightarrow> (Inr 0, t)
         | (Inl (VEOException _), t) \<Rightarrow> (Inr 0, t)
         | _ \<Rightarrow> r)"

text \<open>\<open>bin1\<close> and \<open>bin3\<close> are the programs for the two architectures, set by the build.\<close>

definition veo_proc_create ::
  "'e urpc_ops \<Rightarrow> string \<Rightarrow> string \<Rightarrow> string list option \<Rightarrow> (string \<Rightarrow> file_read) \<Rightarrow> int \<Rightarrow> 'e api
    \<Rightarrow> (exc + u64) \<times> 'e api" where
  "veo_proc_create ops bin1 bin3 dir files venode w =
     (case getenv_var ops ''VEORUN_BIN'' of
        Some veobin \<Rightarrow> veo_proc_create_static ops venode veobin w
      | None \<Rightarrow>
          (case veo_arch_number_sysfs dir files (- 1) of
             Inl e \<Rightarrow> (Inl e, w)
           | Inr n \<Rightarrow> veo_proc_create_static ops venode (if n = 3 then bin3 else bin1) w))"

definition veo_proc_destroy :: "'e urpc_ops \<Rightarrow> sched \<Rightarrow> u64 \<Rightarrow> 'e api \<Rightarrow> ('e api, int) wres" where
  "veo_proc_destroy ops sc h w = exitProc ops sc h w"

definition veo_proc_identifier :: "u64 \<Rightarrow> 'e api \<Rightarrow> exc + int" where
  "veo_proc_identifier h w = getProcIdentifier h (procs w)"

definition veo_load_library :: "'e urpc_ops \<Rightarrow> sched \<Rightarrow> u64 \<Rightarrow> string \<Rightarrow> 'e api \<Rightarrow> ('e api, u64) wres" where
  "veo_load_library ops sc h libname w = catch_veo (loadLibrary ops sc h libname w) (set_errno 0)"

definition veo_unload_library :: "'e urpc_ops \<Rightarrow> sched \<Rightarrow> u64 \<Rightarrow> u64 \<Rightarrow> 'e api \<Rightarrow> ('e api, int) wres" where
  "veo_unload_library ops sc h libhandle w =
     catch_veo (unloadLibrary ops sc h libhandle w) (set_errno (- 1))"

definition veo_get_sym :: "'e urpc_ops \<Rightarrow> sched \<Rightarrow> u64 \<Rightarrow> u64 \<Rightarrow> string \<Rightarrow> 'e api \<Rightarrow> ('e api, u64) wres"
  where
  "veo_get_sym ops sc h libhdl symname w = catch_veo (getSym ops sc h libhdl symname w) (set_errno 0)"

section \<open>Memory\<close>

text \<open>Results: the return value and \<^verbatim>\<open>*addr\<close> if it was assigned.\<close>

definition veo_alloc_mem ::
  "'e urpc_ops \<Rightarrow> sched \<Rightarrow> u64 \<Rightarrow> u64 \<Rightarrow> 'e api \<Rightarrow> ('e api, int \<times> u64 option) wres" where
  "veo_alloc_mem ops sc h sz w =
     catch_veo (bind_so (allocBuff ops sc h sz w) (\<lambda>addr t.
         if addr = 0 then Some (Inr (- 1, Some 0), t)
         else call_hooks FAllocMem [h, addr, sz] (0, Some addr) t))
       (\<lambda>_ t. Some (Inr (- 2, None), t))"

definition veo_alloc_hmem ::
  "'e urpc_ops \<Rightarrow> sched \<Rightarrow> u64 \<Rightarrow> u64 \<Rightarrow> 'e api \<Rightarrow> ('e api, int \<times> u64 option) wres" where
  "veo_alloc_hmem ops sc h sz w =
     (if h = 0
      then let p = op_new ops (whst w)
           in if p = 0 then Some (Inr (- 1, Some 0), w)
              else Some (Inr (0, Some p), w\<lparr>whst := new_char p (whst w)\<rparr>)
      else case numProcs (procs w) of
             Inl e \<Rightarrow> Some (Inl e, w)
           | Inr nprocs \<Rightarrow>
               if nprocs > VEO_MAX_HMEM_PROCS then Some (Inr (- 1, None), w)
               else catch_veo (bind_so (veo_alloc_mem ops sc h sz w) (\<lambda>(ret, veaddr) t.
                        if ret \<noteq> 0 then Some (Inr (ret, None), t)
                        else case (getProcIdentifier h (procs t), veaddr) of
                               (Inl e, _) \<Rightarrow> Some (Inl e, t)
                             | (_, None) \<Rightarrow> Some (Inl Uninitialized, t)
                             | (Inr i, Some a) \<Rightarrow>
                                 if i < 0 then Some (Inr (i, None), t)
                                 else let hmem = SET_PROC_IDENT (SET_VE_FLAG a) i
                                      in call_hooks FAllocHmem [h, hmem, sz] (ret, Some hmem) t))
                      (\<lambda>_ t. Some (Inr (- 1, None), t)))"

definition veo_free_mem :: "'e urpc_ops \<Rightarrow> sched \<Rightarrow> u64 \<Rightarrow> u64 \<Rightarrow> 'e api \<Rightarrow> ('e api, int) wres" where
  "veo_free_mem ops sc h addr w =
     catch_veo (bind_so (freeBuff ops sc h addr w) (\<lambda>_ t. call_hooks FFreeMem [h, addr] 0 t))
       (\<lambda>_ t. Some (Inr (- 1), t))"

definition veo_free_hmem :: "'e urpc_ops \<Rightarrow> sched \<Rightarrow> u64 \<Rightarrow> 'e api \<Rightarrow> ('e api, int) wres" where
  "veo_free_hmem ops sc addr w =
     (if veo_is_ve_addr addr = 0 then Some (Inr 0, w\<lparr>whst := delete_char addr (whst w)\<rparr>)
      else case getProcHandle (uint (GET_PROC_IDENT addr)) (procs w) of
             Inl e \<Rightarrow> Some (Inl e, w)
           | Inr h \<Rightarrow>
               catch_veo (bind_so (veo_free_mem ops sc h (VIRT_ADDR_VE addr) w)
                            (\<lambda>ret t. call_hooks FFreeHmem [h, addr] ret t))
                 (\<lambda>_ t. Some (Inr (- 1), t)))"

definition veo_read_mem ::
  "'e urpc_ops \<Rightarrow> sched \<Rightarrow> u64 \<Rightarrow> u64 \<Rightarrow> u64 \<Rightarrow> u64 \<Rightarrow> 'e api \<Rightarrow> ('e api, int) wres" where
  "veo_read_mem ops sc h dst src sz w =
     catch_veo (ph_readMem ops sc h dst src sz w) (\<lambda>_ t. Some (Inr (- 1), t))"

definition veo_write_mem ::
  "'e urpc_ops \<Rightarrow> sched \<Rightarrow> u64 \<Rightarrow> u64 \<Rightarrow> u64 \<Rightarrow> u64 \<Rightarrow> 'e api \<Rightarrow> ('e api, int) wres" where
  "veo_write_mem ops sc h dst src sz w =
     catch_veo (ph_writeMem ops sc h dst src sz w) (\<lambda>_ t. Some (Inr (- 1), t))"

text \<open>The body of \<^verbatim>\<open>veo_hmemcpy\<close> and its two \<^verbatim>\<open>catch\<close> clauses.\<close>

definition hmemcpy_body ::
  "'e urpc_ops \<Rightarrow> sched \<Rightarrow> u64 \<Rightarrow> u64 \<Rightarrow> u64 \<Rightarrow> 'e api \<Rightarrow> ('e api, int) wres" where
  "hmemcpy_body ops sc dst src sz w =
     (let lift = (\<lambda>r f. case r of Inl e \<Rightarrow> Some (Inl e, w) | Inr x \<Rightarrow> f x)
      in if IS_VE dst \<noteq> 0 \<and> \<not> IS_VE src \<noteq> 0
         then lift (getProcHandle (uint (GET_PROC_IDENT dst)) (procs w))
                (\<lambda>h. veo_write_mem ops sc h (VIRT_ADDR_VE dst) src sz w)
         else if \<not> IS_VE dst \<noteq> 0 \<and> IS_VE src \<noteq> 0
         then lift (getProcHandle (uint (GET_PROC_IDENT src)) (procs w))
                (\<lambda>h. veo_read_mem ops sc h dst (VIRT_ADDR_VE src) sz w)
         else if \<not> IS_VE dst \<noteq> 0 \<and> \<not> IS_VE src \<noteq> 0
         then Some (Inr 0, w\<lparr>whst := memcpy_to dst (mem_read (vhmem (whst w)) src (unat sz)) (whst w)\<rparr>)
         else lift (veo_get_proc_handle_from_hmem dst (procs w)) (\<lambda>dst_h.
                lift (veo_get_proc_handle_from_hmem src (procs w)) (\<lambda>src_h.
                  if dst_h = src_h
                  then veMemcpy ops sc src_h (veo_get_hmem_addr dst) (veo_get_hmem_addr src) sz w
                  else Some (Inr (- 1), w))))"

definition veo_hmemcpy ::
  "'e urpc_ops \<Rightarrow> sched \<Rightarrow> u64 \<Rightarrow> u64 \<Rightarrow> u64 \<Rightarrow> 'e api \<Rightarrow> ('e api, int) wres" where
  "veo_hmemcpy ops sc dst src sz w =
     (case hmemcpy_body ops sc dst src sz w of
        Some (Inl StdOutOfRange, t) \<Rightarrow> Some (Inr (- 1), t)
      | Some (Inl (VEOException _), t) \<Rightarrow> Some (Inr (- 1), t)
      | r \<Rightarrow> r)"

definition veo_get_venum_from_hmem :: "u64 \<Rightarrow> 'e api \<Rightarrow> exc + int" where
  "veo_get_venum_from_hmem addr w =
     (if IS_VE addr = 0 then Inr (- 1)
      else bind_exc (veo_get_proc_handle_from_hmem addr (procs w))
        (\<lambda>h. case handles w h of None \<Rightarrow> Inl NullDeref | Some p \<Rightarrow> Inr (ve_number p)))"

definition veo_get_pid_from_hmem :: "'e urpc_ops \<Rightarrow> u64 \<Rightarrow> 'e api \<Rightarrow> exc + int" where
  "veo_get_pid_from_hmem ops addr w =
     (if IS_VE addr \<noteq> 0
      then bind_exc (veo_get_proc_handle_from_hmem addr (procs w))
        (\<lambda>h. case handles w h of None \<Rightarrow> Inl NullDeref | Some p \<Rightarrow> Inr (urpc_child_pid ops (ph_up p) (wenv w)))
      else Inr (- 1))"

section \<open>Contexts\<close>

definition veo_num_contexts :: "u64 \<Rightarrow> 'e api \<Rightarrow> ('e api, int) wres" where
  "veo_num_contexts h w = (if h = 0 then set_errno (- 1) EINVAL w else Some (numContexts h w, w))"

text \<open>A pointer that is negative as a signed number is reported as an error.\<close>

definition ctx_handle :: "u64 \<Rightarrow> 'e api \<Rightarrow> ('e api, u64) wres" where
  "ctx_handle c w = (if sint c < 0 then set_errno 0 (to_int32 (- sint c)) w else Some (Inr c, w))"

definition veo_get_context :: "u64 \<Rightarrow> int \<Rightarrow> 'e api \<Rightarrow> ('e api, u64) wres" where
  "veo_get_context h idx w =
     (case getContext h idx w of
        Inr c \<Rightarrow> ctx_handle c w
      | Inl (VEOException n) \<Rightarrow> set_errno 0 n w
      | Inl StdOutOfRange \<Rightarrow> Some (Inr 0, w)
      | Inl e \<Rightarrow> Some (Inl e, w))"

definition veo_context_open :: "'e urpc_ops \<Rightarrow> sched \<Rightarrow> u64 \<Rightarrow> u64 \<Rightarrow> 'e api \<Rightarrow> ('e api, u64) wres" where
  "veo_context_open ops sc sync_func h w =
     catch_veo (bind_so (openContext ops sc sync_func VEO_DEFAULT_STACKSIZE h w) ctx_handle) (set_errno 0)"

definition veo_context_open_with_attr ::
  "'e urpc_ops \<Rightarrow> sched \<Rightarrow> u64 \<Rightarrow> u64 \<Rightarrow> u64 \<Rightarrow> 'e api \<Rightarrow> ('e api, u64) wres" where
  "veo_context_open_with_attr ops sc sync_func h tca w =
     (if tca = 0 \<or> h = 0 then set_errno 0 EINVAL w
      else case attr_objs w tca of
             None \<Rightarrow> Some (Inl NullDeref, w)
           | Some attr \<Rightarrow>
               catch_veo (bind_so (openContext ops sc sync_func (stacksize attr) h w) ctx_handle)
                 (set_errno 0))"

definition veo_context_close :: "'e urpc_ops \<Rightarrow> sched \<Rightarrow> u64 \<Rightarrow> 'e api \<Rightarrow> ('e api, int) wres" where
  "veo_context_close ops sc c w =
     (case contexts w c of
        None \<Rightarrow> Some (Inl NullDeref, w)
      | Some (p, x) \<Rightarrow>
          if is_main x then Some (Inr 0, w)
          else bind_so (delContext ops sc p c w) (\<lambda>_ t. Some (Inr 0, t)))"

definition veo_context_sync :: "'e urpc_ops \<Rightarrow> sched \<Rightarrow> u64 \<Rightarrow> u64 \<Rightarrow> 'e api \<Rightarrow> ('e api, unit) wres" where
  "veo_context_sync ops sc sync_func c w = on_ctx c (synchronize ops (lk_wait sc) sync_func) w"

definition veo_get_context_state :: "u64 \<Rightarrow> 'e api \<Rightarrow> exc + veo_context_state" where
  "veo_get_context_state c w =
     (case contexts w c of None \<Rightarrow> Inl NullDeref | Some (_, x) \<Rightarrow> Inr (ctx_state x))"

section \<open>Arguments\<close>

definition veo_args_alloc :: "'e urpc_ops \<Rightarrow> 'e api \<Rightarrow> u64 \<times> 'e api" where
  "veo_args_alloc ops w =
     (let p = op_new ops (whst w)
      in (p, w\<lparr>arg_objs := (arg_objs w)(p \<mapsto> new_CallArgs), whst := new_char p (whst w)\<rparr>))"

text \<open>The template \<^verbatim>\<open>veo_args_set_\<close> and \<^verbatim>\<open>veo_args_set_stack\<close>: change the object, catch.\<close>

definition upd_args :: "u64 \<Rightarrow> (call_args \<Rightarrow> exc + call_args) \<Rightarrow> 'e api \<Rightarrow> (exc + int) \<times> 'e api" where
  "upd_args ca f w =
     (case arg_objs w ca of
        None \<Rightarrow> (Inl NullDeref, w)
      | Some a \<Rightarrow>
          (case f a of
             Inr a' \<Rightarrow> (Inr 0, w\<lparr>arg_objs := (arg_objs w)(ca \<mapsto> a')\<rparr>)
           | Inl (VEOException _) \<Rightarrow> (Inr (- 1), w)
           | Inl e \<Rightarrow> (Inl e, w)))"

definition veo_args_set :: "u64 \<Rightarrow> int \<Rightarrow> arg \<Rightarrow> 'e api \<Rightarrow> (exc + int) \<times> 'e api" where
  "veo_args_set ca argnum a w = upd_args ca (set_arg argnum a) w"

definition veo_args_set_i64 :: "u64 \<Rightarrow> int \<Rightarrow> u64 \<Rightarrow> 'e api \<Rightarrow> (exc + int) \<times> 'e api" where
  "veo_args_set_i64 ca argnum val w = veo_args_set ca argnum (ArgI64 val) w"
definition veo_args_set_u64 :: "u64 \<Rightarrow> int \<Rightarrow> u64 \<Rightarrow> 'e api \<Rightarrow> (exc + int) \<times> 'e api" where
  "veo_args_set_u64 ca argnum val w = veo_args_set ca argnum (ArgU64 val) w"
definition veo_args_set_i32 :: "u64 \<Rightarrow> int \<Rightarrow> u32 \<Rightarrow> 'e api \<Rightarrow> (exc + int) \<times> 'e api" where
  "veo_args_set_i32 ca argnum val w = veo_args_set ca argnum (ArgI32 val) w"
definition veo_args_set_u32 :: "u64 \<Rightarrow> int \<Rightarrow> u32 \<Rightarrow> 'e api \<Rightarrow> (exc + int) \<times> 'e api" where
  "veo_args_set_u32 ca argnum val w = veo_args_set ca argnum (ArgU32 val) w"
definition veo_args_set_i16 :: "u64 \<Rightarrow> int \<Rightarrow> u16 \<Rightarrow> 'e api \<Rightarrow> (exc + int) \<times> 'e api" where
  "veo_args_set_i16 ca argnum val w = veo_args_set ca argnum (ArgI16 val) w"
definition veo_args_set_u16 :: "u64 \<Rightarrow> int \<Rightarrow> u16 \<Rightarrow> 'e api \<Rightarrow> (exc + int) \<times> 'e api" where
  "veo_args_set_u16 ca argnum val w = veo_args_set ca argnum (ArgU16 val) w"
definition veo_args_set_i8 :: "u64 \<Rightarrow> int \<Rightarrow> byte \<Rightarrow> 'e api \<Rightarrow> (exc + int) \<times> 'e api" where
  "veo_args_set_i8 ca argnum val w = veo_args_set ca argnum (ArgI8 val) w"
definition veo_args_set_u8 :: "u64 \<Rightarrow> int \<Rightarrow> byte \<Rightarrow> 'e api \<Rightarrow> (exc + int) \<times> 'e api" where
  "veo_args_set_u8 ca argnum val w = veo_args_set ca argnum (ArgU8 val) w"
definition veo_args_set_double :: "u64 \<Rightarrow> int \<Rightarrow> u64 \<Rightarrow> 'e api \<Rightarrow> (exc + int) \<times> 'e api" where
  "veo_args_set_double ca argnum val w = veo_args_set ca argnum (ArgDouble val) w"
definition veo_args_set_float :: "u64 \<Rightarrow> int \<Rightarrow> u32 \<Rightarrow> 'e api \<Rightarrow> (exc + int) \<times> 'e api" where
  "veo_args_set_float ca argnum val w = veo_args_set ca argnum (ArgFloat val) w"
definition veo_args_set_stack ::
  "u64 \<Rightarrow> veo_args_intent \<Rightarrow> int \<Rightarrow> u64 \<Rightarrow> u64 \<Rightarrow> 'e api \<Rightarrow> (exc + int) \<times> 'e api" where
  "veo_args_set_stack ca inout argnum buff len w = upd_args ca (setOnStack inout argnum buff len) w"
definition veo_args_set_hmem :: "u64 \<Rightarrow> int \<Rightarrow> u64 \<Rightarrow> 'e api \<Rightarrow> (exc + int) \<times> 'e api" where
  "veo_args_set_hmem ca argnum val w = veo_args_set_u64 ca argnum val w"

definition veo_args_clear :: "u64 \<Rightarrow> 'e api \<Rightarrow> (exc + int) \<times> 'e api" where
  "veo_args_clear ca w = upd_args ca (\<lambda>a. Inr (clear_args a)) w"

text \<open>The destructor releases the stack buffer.\<close>

definition veo_args_free :: "u64 \<Rightarrow> 'e api \<Rightarrow> (exc + unit) \<times> 'e api" where
  "veo_args_free ca w =
     (case arg_objs w ca of
        None \<Rightarrow> if ca = 0 then (Inr (), w) else (Inl NullDeref, w)
      | Some a \<Rightarrow> (Inr (), w\<lparr>arg_objs := (arg_objs w)(ca := None),
                         whst := delete_char ca (delete_char (stack_buf a) (whst w))\<rparr>))"

section \<open>Calls\<close>

text \<open>A method that takes an argument object by reference and leaves it changed.\<close>

definition with_args ::
  "u64 \<Rightarrow> u64 \<Rightarrow> (call_args \<Rightarrow> 'e cst \<Rightarrow> (('e, 'a) res \<times> call_args) option) \<Rightarrow> 'e api \<Rightarrow> ('e api, 'a) wres"
  where
  "with_args c ca f w =
     (case arg_objs w ca of
        None \<Rightarrow> Some (Inl NullDeref, w)
      | Some a \<Rightarrow>
          bind_so (on_ctx c (\<lambda>s. map_option (\<lambda>((r, t), a'). (Inr (r, a'), t)) (f a s)) w)
            (\<lambda>(r, a') t. Some (r, t\<lparr>arg_objs := (arg_objs t)(ca \<mapsto> a')\<rparr>)))"

text \<open>Results: the return value and \<^verbatim>\<open>*result\<close>.\<close>

definition ph_callSync ::
  "'e urpc_ops \<Rightarrow> sched \<Rightarrow> u64 \<Rightarrow> u64 \<Rightarrow> u64 \<Rightarrow> u64 option \<Rightarrow> 'e api \<Rightarrow> ('e api, int \<times> u64 option) wres" where
  "ph_callSync ops sc h addr ca result w =
     with_handle h (\<lambda>p. with_args (mctx p) ca
       (\<lambda>a s. map_option (\<lambda>((r, t), v, a'). ((map_sum id (\<lambda>x. (x, v)) r, t), a'))
                (callSync ops (lk_progress sc) (lk_wait sc) addr a result s)) w) w"

definition veo_call_sync ::
  "'e urpc_ops \<Rightarrow> sched \<Rightarrow> u64 \<Rightarrow> u64 \<Rightarrow> u64 \<Rightarrow> u64 option \<Rightarrow> 'e api \<Rightarrow> ('e api, int \<times> u64 option) wres" where
  "veo_call_sync ops sc h addr ca result w =
     catch_veo (ph_callSync ops sc h addr ca result w) (\<lambda>_ t. Some (Inr (- 1, result), t))"

definition invalid_on_veo :: "('e api, u64) wres \<Rightarrow> ('e api, u64) wres" where
  "invalid_on_veo r = catch_veo r (\<lambda>_ t. Some (Inr VEO_REQUEST_ID_INVALID, t))"

definition veo_call_async :: "'e urpc_ops \<Rightarrow> sched \<Rightarrow> u64 \<Rightarrow> u64 \<Rightarrow> u64 \<Rightarrow> 'e api \<Rightarrow> ('e api, u64) wres" where
  "veo_call_async ops sc c addr ca w =
     invalid_on_veo (with_args c ca (callAsync ops (lk_progress sc) addr) w)"

definition callAsyncByName ::
  "'e urpc_ops \<Rightarrow> sched \<Rightarrow> sched \<Rightarrow> u64 \<Rightarrow> u64 \<Rightarrow> string \<Rightarrow> u64 \<Rightarrow> 'e api \<Rightarrow> ('e api, u64) wres" where
  "callAsyncByName ops sc sc' c libhdl symname ca w =
     (case ctx_proc c w of
        Inl e \<Rightarrow> Some (Inl e, w)
      | Inr p \<Rightarrow> bind_so (getSym ops sc p libhdl symname w)
                  (\<lambda>addr t. with_args c ca (callAsync ops (lk_progress sc') addr) t))"

definition veo_call_async_by_name ::
  "'e urpc_ops \<Rightarrow> sched \<Rightarrow> sched \<Rightarrow> u64 \<Rightarrow> u64 \<Rightarrow> string \<Rightarrow> u64 \<Rightarrow> 'e api \<Rightarrow> ('e api, u64) wres" where
  "veo_call_async_by_name ops sc sc' c libhdl symname ca w =
     invalid_on_veo (callAsyncByName ops sc sc' c libhdl symname ca w)"

definition veo_call_async_vh :: "'e urpc_ops \<Rightarrow> u64 \<Rightarrow> u64 \<Rightarrow> u64 \<Rightarrow> 'e api \<Rightarrow> ('e api, u64) wres" where
  "veo_call_async_vh ops c func a w =
     invalid_on_veo (on_ctx c (\<lambda>s. Some (map_prod Inr id (callVHAsync ops func a s))) w)"

text \<open>Results: the return value, \<open>None\<close> for -1, and \<^verbatim>\<open>*retp\<close>.\<close>

definition result_of ::
  "((exc + veo_command_state option) \<times> u64 option \<times> 'e cst) option
    \<Rightarrow> ('e, veo_command_state option \<times> u64 option) res option" where
  "result_of r = map_option (\<lambda>(x, v, t). (map_sum id (\<lambda>rc. (rc, v)) x, t)) r"

definition veo_call_peek_result ::
  "'e urpc_ops \<Rightarrow> sched \<Rightarrow> u64 \<Rightarrow> u64 \<Rightarrow> u64 option \<Rightarrow> 'e api
    \<Rightarrow> ('e api, veo_command_state option \<times> u64 option) wres" where
  "veo_call_peek_result ops sc c reqid ret w =
     catch_veo (on_ctx c (\<lambda>s. result_of (Some (callPeekResult ops (lk_progress sc 0) reqid ret s))) w)
       (\<lambda>_ t. Some (Inr (None, ret), t))"

definition veo_call_wait_result ::
  "'e urpc_ops \<Rightarrow> sched \<Rightarrow> u64 \<Rightarrow> u64 \<Rightarrow> u64 option \<Rightarrow> 'e api
    \<Rightarrow> ('e api, veo_command_state option \<times> u64 option) wres" where
  "veo_call_wait_result ops sc c reqid ret w =
     catch_veo (on_ctx c (\<lambda>s. result_of (callWaitResult ops (lk_wait sc) reqid ret s)) w)
       (\<lambda>_ t. Some (Inr (None, ret), t))"

section \<open>Asynchronous memory operations\<close>

text \<open>
  \<open>hook_func\<close> is the address of the VH function that runs the hook, \<open>data\<close> the tuple it is given.
\<close>

definition veo_alloc_mem_async ::
  "'e urpc_ops \<Rightarrow> sched \<Rightarrow> u64 \<Rightarrow> u64 \<Rightarrow> u64 \<Rightarrow> u64 \<Rightarrow> 'e api \<Rightarrow> ('e api, u64) wres" where
  "veo_alloc_mem_async ops sc hook_func data c sz w =
     (case on_ctx c (\<lambda>s. Some (genericAsyncReq ops (lk_progress sc 0) URPC_CMD_ALLOC [ItemL sz] s)) w of
        Some (Inl (VEOException _), t) \<Rightarrow> Some (Inr VEO_REQUEST_ID_INVALID, t)
      | Some (Inr req, t) \<Rightarrow>
          if static_hooks t FAllocMemAsync \<noteq> None then veo_call_async_vh ops c hook_func data t
          else Some (Inr req, t)
      | r \<Rightarrow> r)"

definition veo_free_mem_async ::
  "'e urpc_ops \<Rightarrow> sched \<Rightarrow> u64 \<Rightarrow> u64 \<Rightarrow> u64 \<Rightarrow> u64 \<Rightarrow> 'e api \<Rightarrow> ('e api, u64) wres" where
  "veo_free_mem_async ops sc hook_func data c addr w =
     (case on_ctx c (\<lambda>s. Some (genericAsyncReq ops (lk_progress sc 0) URPC_CMD_FREE [ItemL addr] s)) w of
        Some (Inl (VEOException _), t) \<Rightarrow> Some (Inr VEO_REQUEST_ID_INVALID, t)
      | Some (Inr req, t) \<Rightarrow>
          if static_hooks t FFreeMemAsync \<noteq> None then veo_call_async_vh ops c hook_func data t
          else Some (Inr req, t)
      | r \<Rightarrow> r)"

text \<open>The VH functions that wait for the request before them and run the hook.\<close>

definition alloc_mem_async_hook ::
  "'e urpc_ops \<Rightarrow> sched \<Rightarrow> u64 \<Rightarrow> u64 \<Rightarrow> u64 \<Rightarrow> 'e api \<Rightarrow> ('e api, u64) wres" where
  "alloc_mem_async_hook ops sc c alloc_req sz w =
     bind_so (on_ctx c (\<lambda>s. result_of (callWaitResult ops (lk_wait sc) alloc_req (Some 0) s)) w)
       (\<lambda>(rv, v) t. if rv \<noteq> Some VEO_COMMAND_OK then Some (Inr 0, t)
                    else case v of
                           None \<Rightarrow> Some (Inl Uninitialized, t)
                         | Some addr \<Rightarrow> call_hooks FAllocMemAsync [c, addr, sz] addr t)"

definition free_mem_async_hook ::
  "'e urpc_ops \<Rightarrow> sched \<Rightarrow> u64 \<Rightarrow> u64 \<Rightarrow> u64 \<Rightarrow> 'e api \<Rightarrow> ('e api, u64) wres" where
  "free_mem_async_hook ops sc c free_req addr w =
     bind_so (on_ctx c (\<lambda>s. result_of (callWaitResult ops (lk_wait sc) free_req (Some 0) s)) w)
       (\<lambda>(rv, v) t. if rv \<noteq> Some VEO_COMMAND_OK then Some (Inr (- 1), t)
                    else call_hooks FFreeMemAsync [c, addr] 0 t)"

definition veo_async_read_mem ::
  "'e urpc_ops \<Rightarrow> sched \<Rightarrow> u64 \<Rightarrow> u64 \<Rightarrow> u64 \<Rightarrow> u64 \<Rightarrow> 'e api \<Rightarrow> ('e api, u64) wres" where
  "veo_async_read_mem ops sc c dst src sz w =
     invalid_on_veo (on_ctx c (asyncReadMem ops (lk_progress sc 0) dst src sz) w)"

definition veo_async_write_mem ::
  "'e urpc_ops \<Rightarrow> sched \<Rightarrow> u64 \<Rightarrow> u64 \<Rightarrow> u64 \<Rightarrow> u64 \<Rightarrow> 'e api \<Rightarrow> ('e api, u64) wres" where
  "veo_async_write_mem ops sc c dst src sz w =
     invalid_on_veo (on_ctx c (asyncWriteMem ops (lk_progress sc 0) dst src sz) w)"

section \<open>Thread attributes\<close>

definition veo_alloc_thr_ctxt_attr :: "'e urpc_ops \<Rightarrow> 'e api \<Rightarrow> u64 \<times> 'e api" where
  "veo_alloc_thr_ctxt_attr ops w =
     (let p = op_new ops (whst w)
      in (p, w\<lparr>attr_objs := (attr_objs w)(p \<mapsto> new_ThreadContextAttr), whst := new_char p (whst w)\<rparr>))"

definition veo_free_thr_ctxt_attr :: "u64 \<Rightarrow> 'e api \<Rightarrow> ('e api, int) wres" where
  "veo_free_thr_ctxt_attr tca w =
     (if tca = 0 then set_errno (- 1) EINVAL w
      else if attr_objs w tca = None then Some (Inl NullDeref, w)
      else Some (Inr 0, w\<lparr>attr_objs := (attr_objs w)(tca := None), whst := delete_char tca (whst w)\<rparr>))"

definition veo_set_thr_ctxt_stacksize :: "u64 \<Rightarrow> u64 \<Rightarrow> 'e api \<Rightarrow> ('e api, int) wres" where
  "veo_set_thr_ctxt_stacksize tca stack_sz w =
     (if tca = 0 then set_errno (- 1) EINVAL w
      else case attr_objs w tca of
             None \<Rightarrow> Some (Inl NullDeref, w)
           | Some attr \<Rightarrow>
               (case setStacksize stack_sz attr of
                  Inl (VEOException n) \<Rightarrow> set_errno (- 1) n w
                | Inl e \<Rightarrow> Some (Inl e, w)
                | Inr attr' \<Rightarrow> Some (Inr 0, w\<lparr>attr_objs := (attr_objs w)(tca \<mapsto> attr')\<rparr>)))"

text \<open>\<open>given\<close> says that the pointer for the result is not null.\<close>

definition veo_get_thr_ctxt_stacksize :: "u64 \<Rightarrow> bool \<Rightarrow> 'e api \<Rightarrow> ('e api, int \<times> u64 option) wres" where
  "veo_get_thr_ctxt_stacksize tca given w =
     (if tca = 0 \<or> \<not> given then set_errno (- 1, None) EINVAL w
      else case attr_objs w tca of
             None \<Rightarrow> Some (Inl NullDeref, w)
           | Some attr \<Rightarrow> Some (Inr (0, Some (stacksize attr)), w))"

end
