(* ===== verification/Veo_Ve2ve.thy ===== *)
theory Veo_Ve2ve
  imports Veo_Api
begin

text \<open>
  Functions for communication between VEs (\<^verbatim>\<open>veo_vedma.cpp\<close>, \<^verbatim>\<open>veo_veshm.cpp\<close>, \<^verbatim>\<open>veo_vhveshm.cpp\<close>
  and \<^verbatim>\<open>callSyscallWrapper\<close> of \<^verbatim>\<open>veo_api.hpp\<close>): each builds an argument object, finds a VE function in a
  library that is loaded once, and calls it. The argument objects are never freed.

  The name of a library is given with the address of the string; \<open>sc n\<close> are the choices of the
  scheduler in the \<open>n\<close>-th request of the function.
\<close>

section \<open>Constants\<close>

definition SYS_sysve :: u64 where "SYS_sysve = 316"
definition VE_SYSVE_VESHM_CTL :: u64 where "VE_SYSVE_VESHM_CTL = 0x20"
definition VE_SYSVE_VHSHM_CTL :: u64 where "VE_SYSVE_VHSHM_CTL = 0x40"
definition VESHM_OPEN :: u64 where "VESHM_OPEN = 0x30"
definition VESHM_ATTACH :: u64 where "VESHM_ATTACH = 0x31"
definition VESHM_DETACH :: u64 where "VESHM_DETACH = 0x32"
definition VESHM_CLOSE :: u64 where "VESHM_CLOSE = 0x33"
definition VHSHM_GET :: u64 where "VHSHM_GET = 1"
definition VHSHM_AT :: u64 where "VHSHM_AT = 2"
definition VHSHM_DT :: u64 where "VHSHM_DT = 3"
definition VE_REGISTER_VEMVA :: u64 where "VE_REGISTER_VEMVA = 0x2000"
definition VE_MEM_LOCAL :: u64 where "VE_MEM_LOCAL = 0x8000"

section \<open>Calling a VE function\<close>

type_synonym 'e setter = "u64 \<Rightarrow> 'e api \<Rightarrow> (exc + int) \<times> 'e api"

fun fill_args :: "u64 \<Rightarrow> 'e setter list \<Rightarrow> 'e api \<Rightarrow> (exc + unit) \<times> 'e api" where
  "fill_args ca [] w = (Inr (), w)"
| "fill_args ca (f # fs) w = (case f ca w of (Inl e, t) \<Rightarrow> (Inl e, t) | (Inr _, t) \<Rightarrow> fill_args ca fs t)"

definition new_args :: "'e urpc_ops \<Rightarrow> 'e setter list \<Rightarrow> 'e api \<Rightarrow> ('e api, u64) wres" where
  "new_args ops fs w =
     (let (ca, w1) = veo_args_alloc ops w
      in bind_so (Some (fill_args ca fs w1)) (\<lambda>_ t. Some (Inr ca, t)))"

definition vedma_call ::
  "'e urpc_ops \<Rightarrow> u64 \<times> string \<Rightarrow> (nat \<Rightarrow> sched) \<Rightarrow> u64 \<Rightarrow> string \<Rightarrow> 'e setter list \<Rightarrow> 'e api
    \<Rightarrow> ('e api, int) wres" where
  "vedma_call ops libveio sc ph name fs w =
     bind_so (new_args ops fs w) (\<lambda>ca w1.
     bind_so (loadVE2VELibrary ops (sc 0) ph libveio w1) (\<lambda>libh w2.
       if libh = 0 then Some (Inr (- ENOTSUP), w2)
       else bind_so (getVEDMASyms ops (\<lambda>n. sc (n + 1)) ph libh name w2) (\<lambda>sym_addr w3.
              if sym_addr = 0 then Some (Inr (- ENOTSUP), w3)
              else bind_so (ph_callSync ops (sc 4) ph sym_addr ca (Some 0) w3) (\<lambda>(ret, result) w4.
                     if ret \<noteq> 0 then Some (Inr (- EBUSY), w4)
                     else case result of
                            None \<Rightarrow> Some (Inl Uninitialized, w4)
                          | Some r \<Rightarrow> Some (Inr (to_int32 (uint r)), w4)))))"

text \<open>
  What the VE function \<^verbatim>\<open>syscall_wrapper\<close> returns for a system call with the given result and
  \<^verbatim>\<open>errno\<close>, and how the host reads it: as an \<^verbatim>\<open>int\<close>.
\<close>

definition syscall_wrapper ::
  "(int \<Rightarrow> u64 list \<Rightarrow> 'v \<Rightarrow> u64 \<times> int \<times> 'v) \<Rightarrow> int \<Rightarrow> u64 list \<Rightarrow> 'v \<Rightarrow> u64 \<times> 'v" where
  "syscall_wrapper sys number args x =
     (let (ret, err, x') = sys number args x in (if ret = - 1 then - of_int err else ret, x'))"

definition syscall_result :: "u64 \<Rightarrow> 'e api \<Rightarrow> ('e api, u64) wres" where
  "syscall_result r w =
     (if - 4096 < to_int32 (uint r) \<and> to_int32 (uint r) < - 1
      then set_errno (- 1) \<bar>to_int32 (uint r)\<bar> w
      else Some (Inr r, w))"

definition callSyscallWrapper ::
  "'e urpc_ops \<Rightarrow> u64 \<times> string \<Rightarrow> (nat \<Rightarrow> sched) \<Rightarrow> u64 \<Rightarrow> u64 \<Rightarrow> 'e api \<Rightarrow> ('e api, u64) wres" where
  "callSyscallWrapper ops libveohmem sc h ca w =
     bind_so (loadVE2VELibrary ops (sc 0) h libveohmem w) (\<lambda>libh w1.
       if libh = 0 then set_errno (- 1) ENOTSUP w1
       else bind_so (getSym ops (sc 1) h libh ''syscall_wrapper'' w1) (\<lambda>sym_addr w2.
              if sym_addr = 0 then set_errno (- 1) ENOTSUP w2
              else bind_so (ph_callSync ops (sc 2) h sym_addr ca (Some (- 1)) w2) (\<lambda>(ret, result) w3.
                     if ret \<noteq> 0 then set_errno (- 1) EBUSY w3
                     else case result of
                            None \<Rightarrow> Some (Inl Uninitialized, w3)
                          | Some r \<Rightarrow> syscall_result r w3)))"

definition syscall ::
  "'e urpc_ops \<Rightarrow> u64 \<times> string \<Rightarrow> (nat \<Rightarrow> sched) \<Rightarrow> u64 \<Rightarrow> 'e setter list \<Rightarrow> 'e api \<Rightarrow> ('e api, u64) wres" where
  "syscall ops lib sc h fs w = bind_so (new_args ops fs w) (\<lambda>ca t. callSyscallWrapper ops lib sc h ca t)"

definition to_int_res :: "('s, u64) wres \<Rightarrow> ('s, int) wres" where
  "to_int_res r = bind_so r (\<lambda>v t. Some (Inr (to_int32 (uint v)), t))"

section \<open>VE DMA\<close>

text \<open>\<open>dhandle\<close> is the address of a DMA handle of 8 bytes. An \<^verbatim>\<open>int\<close> argument is sign-extended.\<close>

definition of_int64 :: "int \<Rightarrow> u64" where "of_int64 i = of_int i"

definition veo_dma_post ::
  "'e urpc_ops \<Rightarrow> u64 \<times> string \<Rightarrow> (nat \<Rightarrow> sched) \<Rightarrow> u64 \<Rightarrow> u64 \<Rightarrow> u64 \<Rightarrow> int \<Rightarrow> u64 \<Rightarrow> 'e api \<Rightarrow> ('e api, int) wres"
  where
  "veo_dma_post ops lib sc ph dst src sz dhandle w =
     (if dhandle = 0 then Some (Inr (- EFAULT), w)
      else vedma_call ops lib sc ph ''ve_dma_post''
             [\<lambda>ca. veo_args_set_u64 ca 0 dst, \<lambda>ca. veo_args_set_u64 ca 1 src,
              \<lambda>ca. veo_args_set_i64 ca 2 (of_int64 sz),
              \<lambda>ca. veo_args_set_stack ca VEO_INTENT_OUT 3 dhandle 8] w)"

text \<open>The classes of a DMA exception are only logged.\<close>

definition veo_dma_poll ::
  "'e urpc_ops \<Rightarrow> u64 \<times> string \<Rightarrow> (nat \<Rightarrow> sched) \<Rightarrow> u64 \<Rightarrow> u64 \<Rightarrow> 'e api \<Rightarrow> ('e api, int) wres" where
  "veo_dma_poll ops lib sc ph dhandle w =
     (if dhandle = 0 then Some (Inr (- EFAULT), w)
      else vedma_call ops lib sc ph ''ve_dma_poll''
             [\<lambda>ca. veo_args_set_stack ca VEO_INTENT_IN 0 dhandle 8] w)"

definition veo_dma_post_wait ::
  "'e urpc_ops \<Rightarrow> u64 \<times> string \<Rightarrow> (nat \<Rightarrow> sched) \<Rightarrow> u64 \<Rightarrow> u64 \<Rightarrow> u64 \<Rightarrow> int \<Rightarrow> 'e api \<Rightarrow> ('e api, int) wres"
  where
  "veo_dma_post_wait ops lib sc ph dst src sz w =
     vedma_call ops lib sc ph ''ve_dma_post_wait''
       [\<lambda>ca. veo_args_set_u64 ca 0 dst, \<lambda>ca. veo_args_set_u64 ca 1 src,
        \<lambda>ca. veo_args_set_i64 ca 2 (of_int64 sz)] w"

definition veo_access_pcircvsyc_register :: "'e urpc_ops \<Rightarrow> sched \<Rightarrow> u64 \<Rightarrow> 'e api \<Rightarrow> ('e api, unit) wres" where
  "veo_access_pcircvsyc_register ops sc h w =
     catch_veo (accessPciRecvSyncRegister ops sc h w) (\<lambda>_ t. Some (Inr (), t))"

section \<open>Shared memory of VEs\<close>

text \<open>Opening and closing have the same shape; the result is converted to \<^verbatim>\<open>int\<close>.\<close>

definition veshm_ctl ::
  "'e urpc_ops \<Rightarrow> u64 \<times> string \<Rightarrow> (nat \<Rightarrow> sched) \<Rightarrow> u64 \<Rightarrow> u64 \<Rightarrow> u64 \<Rightarrow> int \<Rightarrow> u64 \<Rightarrow> 'e api \<Rightarrow> ('e api, int) wres"
  where
  "veshm_ctl ops lib sc cmd vemva sz syncnum mode_flag w =
     (case veo_get_proc_handle_from_hmem vemva (procs w) of
        Inl e \<Rightarrow> Some (Inl e, w)
      | Inr h \<Rightarrow>
          if h = 0 then set_errno (- 1) EINVAL w
          else to_int_res (syscall ops lib sc h
                 [\<lambda>ca. veo_args_set_u64 ca 0 SYS_sysve, \<lambda>ca. veo_args_set_u64 ca 1 VE_SYSVE_VESHM_CTL,
                  \<lambda>ca. veo_args_set_u64 ca 2 cmd,
                  \<lambda>ca. veo_args_set_hmem ca 3 (veo_get_hmem_addr vemva),
                  \<lambda>ca. veo_args_set_u64 ca 4 sz, \<lambda>ca. veo_args_set_i64 ca 5 (of_int64 syncnum),
                  \<lambda>ca. veo_args_set_i64 ca 6 mode_flag] w))"

definition veo_shared_mem_open ::
  "'e urpc_ops \<Rightarrow> u64 \<times> string \<Rightarrow> (nat \<Rightarrow> sched) \<Rightarrow> u64 \<Rightarrow> u64 \<Rightarrow> int \<Rightarrow> u64 \<Rightarrow> 'e api \<Rightarrow> ('e api, int) wres"
  where
  "veo_shared_mem_open ops lib sc vemva sz syncnum mode_flag w =
     veshm_ctl ops lib sc VESHM_OPEN vemva sz syncnum mode_flag w"

definition veo_shared_mem_close ::
  "'e urpc_ops \<Rightarrow> u64 \<times> string \<Rightarrow> (nat \<Rightarrow> sched) \<Rightarrow> u64 \<Rightarrow> u64 \<Rightarrow> int \<Rightarrow> u64 \<Rightarrow> 'e api \<Rightarrow> ('e api, int) wres"
  where
  "veo_shared_mem_close ops lib sc vemva sz syncnum mode_flag w =
     veshm_ctl ops lib sc VESHM_CLOSE vemva sz syncnum mode_flag w"

text \<open>\<open>buf\<close> is the address of the local array \<^verbatim>\<open>arg\<close>, passed as a buffer on the stack.\<close>

definition attach_record :: "int \<Rightarrow> u64 \<Rightarrow> u64 \<Rightarrow> int \<Rightarrow> u64 \<Rightarrow> u64 list" where
  "attach_record pid vemva sz syncnum mode_flag =
     [of_int64 pid, veo_get_hmem_addr vemva, sz, of_int64 syncnum, mode_flag]"

definition tag_attached :: "u64 \<Rightarrow> u64 \<Rightarrow> 'e api \<Rightarrow> exc + u64" where
  "tag_attached h result w =
     bind_exc (getProcIdentifier h (procs w)) (\<lambda>ident. Inr (SET_PROC_IDENT (SET_VE_FLAG result) ident))"

definition veo_shared_mem_attach ::
  "'e urpc_ops \<Rightarrow> u64 \<times> string \<Rightarrow> (nat \<Rightarrow> sched) \<Rightarrow> u64 \<Rightarrow> u64 \<Rightarrow> int \<Rightarrow> u64 \<Rightarrow> u64 \<Rightarrow> int \<Rightarrow> u64 \<Rightarrow> 'e api
    \<Rightarrow> ('e api, u64) wres" where
  "veo_shared_mem_attach ops lib sc buf h pid veshm_vemva sz syncnum mode_flag w =
     (let args = concat (map (le_bytes 8) (attach_record pid veshm_vemva sz syncnum mode_flag))
      in bind_so (syscall ops lib sc h
             [\<lambda>ca. veo_args_set_u64 ca 0 SYS_sysve, \<lambda>ca. veo_args_set_u64 ca 1 VE_SYSVE_VESHM_CTL,
              \<lambda>ca. veo_args_set_u64 ca 2 VESHM_ATTACH,
              \<lambda>ca. veo_args_set_stack ca VEO_INTENT_IN 3 buf (of_nat (length args))]
             (w\<lparr>whst := memcpy_to buf args (whst w)\<rparr>))
           (\<lambda>result t. if mode_flag AND VE_REGISTER_VEMVA \<noteq> 0
                       then Some (tag_attached h result t, t) else Some (Inr result, t)))"

definition veo_shared_mem_detach ::
  "'e urpc_ops \<Rightarrow> u64 \<times> string \<Rightarrow> (nat \<Rightarrow> sched) \<Rightarrow> u64 \<Rightarrow> u64 \<Rightarrow> u64 \<Rightarrow> 'e api \<Rightarrow> ('e api, int) wres" where
  "veo_shared_mem_detach ops lib sc h veshm_addr mode_flag w =
     to_int_res (syscall ops lib sc h
       [\<lambda>ca. veo_args_set_u64 ca 0 SYS_sysve, \<lambda>ca. veo_args_set_u64 ca 1 VE_SYSVE_VESHM_CTL,
        \<lambda>ca. veo_args_set_u64 ca 2 VESHM_DETACH,
        \<lambda>ca. veo_args_set_hmem ca 3 (veo_get_hmem_addr veshm_addr),
        \<lambda>ca. veo_args_set_i64 ca 4 mode_flag] w)"

definition veo_register_mem_to_dmaatb ::
  "'e urpc_ops \<Rightarrow> u64 \<times> string \<Rightarrow> (nat \<Rightarrow> sched) \<Rightarrow> u64 \<Rightarrow> u64 \<Rightarrow> u64 \<Rightarrow> 'e api \<Rightarrow> ('e api, u64) wres" where
  "veo_register_mem_to_dmaatb ops lib sc buf vemva sz w =
     (case (veo_get_proc_handle_from_hmem vemva (procs w), veo_get_pid_from_hmem ops vemva w) of
        (Inr h, Inr pid) \<Rightarrow> veo_shared_mem_attach ops lib sc buf h pid vemva sz 0 VE_MEM_LOCAL w
      | (Inl e, _) \<Rightarrow> Some (Inl e, w)
      | (_, Inl e) \<Rightarrow> Some (Inl e, w))"

definition veo_unregister_mem_from_dmaatb ::
  "'e urpc_ops \<Rightarrow> u64 \<times> string \<Rightarrow> (nat \<Rightarrow> sched) \<Rightarrow> u64 \<Rightarrow> u64 \<Rightarrow> 'e api \<Rightarrow> ('e api, int) wres" where
  "veo_unregister_mem_from_dmaatb ops lib sc h vehva w =
     veo_shared_mem_detach ops lib sc h vehva VE_MEM_LOCAL w"

section \<open>Shared memory of the VH\<close>

definition veo_shmget ::
  "'e urpc_ops \<Rightarrow> u64 \<times> string \<Rightarrow> (nat \<Rightarrow> sched) \<Rightarrow> u64 \<Rightarrow> int \<Rightarrow> u64 \<Rightarrow> int \<Rightarrow> 'e api \<Rightarrow> ('e api, int) wres" where
  "veo_shmget ops lib sc h key sz shmflag w =
     to_int_res (syscall ops lib sc h
       [\<lambda>ca. veo_args_set_u64 ca 0 SYS_sysve, \<lambda>ca. veo_args_set_u64 ca 1 VE_SYSVE_VHSHM_CTL,
        \<lambda>ca. veo_args_set_u64 ca 2 VHSHM_GET, \<lambda>ca. veo_args_set_u64 ca 3 (of_int64 key),
        \<lambda>ca. veo_args_set_u64 ca 4 sz, \<lambda>ca. veo_args_set_i64 ca 5 (of_int64 shmflag)] w)"

definition veo_shmat ::
  "'e urpc_ops \<Rightarrow> u64 \<times> string \<Rightarrow> (nat \<Rightarrow> sched) \<Rightarrow> u64 \<Rightarrow> int \<Rightarrow> u64 \<Rightarrow> int \<Rightarrow> u64 \<Rightarrow> 'e api \<Rightarrow> ('e api, u64) wres"
  where
  "veo_shmat ops lib sc h shmid shmaddr shmflag vehva w =
     (if vehva = 0 then set_errno (- 1) EFAULT w
      else syscall ops lib sc h
        [\<lambda>ca. veo_args_set_u64 ca 0 SYS_sysve, \<lambda>ca. veo_args_set_u64 ca 1 VE_SYSVE_VHSHM_CTL,
         \<lambda>ca. veo_args_set_u64 ca 2 VHSHM_AT, \<lambda>ca. veo_args_set_i64 ca 3 (of_int64 shmid),
         \<lambda>ca. veo_args_set_hmem ca 4 shmaddr, \<lambda>ca. veo_args_set_i64 ca 5 (of_int64 shmflag),
         \<lambda>ca. veo_args_set_stack ca VEO_INTENT_OUT 6 vehva 8] w)"

definition veo_shmdt ::
  "'e urpc_ops \<Rightarrow> u64 \<times> string \<Rightarrow> (nat \<Rightarrow> sched) \<Rightarrow> u64 \<Rightarrow> u64 \<Rightarrow> 'e api \<Rightarrow> ('e api, int) wres" where
  "veo_shmdt ops lib sc h shmaddr w =
     to_int_res (syscall ops lib sc h
       [\<lambda>ca. veo_args_set_u64 ca 0 SYS_sysve, \<lambda>ca. veo_args_set_u64 ca 1 VE_SYSVE_VHSHM_CTL,
        \<lambda>ca. veo_args_set_u64 ca 2 VHSHM_DT, \<lambda>ca. veo_args_set_hmem ca 3 shmaddr] w)"

section \<open>Properties\<close>

lemma to_int32_minus:
  assumes "0 < n" "n < 2 ^ 31"
  shows "to_int32 (uint (- of_int n :: u64)) = - n"
proof -
  have "uint (- of_int n :: u64) = take_bit 64 (- n)" by (simp flip: of_int_minus add: uint_word_of_int take_bit_eq_mod)
  then have "to_int32 (uint (- of_int n :: u64)) = signed_take_bit 31 (- n)"
    by (simp add: to_int32_def signed_take_bit_take_bit)
  also have "\<dots> = - n" using assms by (intro signed_take_bit_int_eq_self) simp_all
  finally show ?thesis .
qed



end
