(* ===== verification/Context_Inv.thy ===== *)
theory Context_Inv
  imports Context_Ops
begin

text \<open>
  The invariant of a context and its preservation by every step of its operations: each request
  is in exactly one queue, the identifiers that may be waited for are those of the requests not
  yet collected, and the requests in flight are those the transport has pending.
\<close>

section \<open>The invariant\<close>

definition all_cmds :: "'k comm_queue \<Rightarrow> 'k command list" where
  "all_cmds q = request q @ map snd (inflight q) @ map snd (completion q)"

definition tags :: "'k comm_queue \<Rightarrow> (u64 \<times> bool) list" where
  "tags q = map (\<lambda>c. (msgid c, nowait c)) (all_cmds q)"

lemma ids_tags: "ids q = map fst (tags q)"
  by (simp add: ids_def tags_def all_cmds_def comp_def)

definition keyed :: "'k comm_queue \<Rightarrow> bool" where
  "keyed q \<longleftrightarrow> distinct (map fst (inflight q)) \<and>
     (\<forall>(i, c) \<in> set (inflight q). urpc_req c \<noteq> None \<and> cmd_key c = i) \<and>
     (\<forall>(i, c) \<in> set (completion q). msgid c = i)"

lemma comq_wf_keyed: "comq_wf q \<longleftrightarrow> distinct (ids q) \<and> keyed q"
  by (auto simp: comq_wf_def keyed_def)

text \<open>The commands built with the constructor for VH commands are those of a VH kind.\<close>

fun vh_kind :: "cmd_kind \<Rightarrow> bool" where
  "vh_kind KNop = True"
| "vh_kind (KVHFunc f a) = True"
| "vh_kind (KLargeCall w cl r stk cout cs) = True"
| "vh_kind _ = False"

definition kinds_ok :: "cmd_kind comm_queue \<Rightarrow> bool" where
  "kinds_ok q \<longleftrightarrow> (\<forall>c \<in> set (request q). is_vh c = vh_kind (kind c)) \<and>
     (\<forall>c \<in> snd ` set (inflight q). \<not> is_vh c \<and> \<not> vh_kind (kind c))"

definition ctx_inv :: "'e cst \<Rightarrow> bool" where
  "ctx_inv s \<longleftrightarrow> distinct (ids (comq s)) \<and> keyed (comq s) \<and> kinds_ok (comq s) \<and>
     rem_reqid s = fst ` {t \<in> set (tags (comq s)). \<not> snd t} \<and>
     (\<forall>i \<in> set (ids (comq s)). i < seq_no s)"

text \<open>Moving commands between queues keeps it.\<close>

lemma ctx_inv_move:
  assumes "ctx_inv s" "mset (tags q) = mset (tags (comq s))" "keyed q" "kinds_ok q"
  shows "ctx_inv (s\<lparr>comq := q\<rparr>)"
proof -
  have "mset (ids q) = mset (ids (comq s))"
    using assms(2) by (simp add: ids_tags mset_map)
  then have "distinct (ids q) = distinct (ids (comq s))" "set (ids q) = set (ids (comq s))"
    by (auto dest: mset_eq_imp_distinct_iff mset_eq_setD)
  moreover have "set (tags q) = set (tags (comq s))" using assms(2) by (rule mset_eq_setD)
  ultimately show ?thesis using assms by (simp add: ctx_inv_def)
qed

lemma ctx_inv_cong:
  "ctx_inv s \<Longrightarrow> comq t = comq s \<Longrightarrow> rem_reqid t = rem_reqid s \<Longrightarrow> seq_no t = seq_no s \<Longrightarrow> ctx_inv t"
  by (simp add: ctx_inv_def)

section \<open>A command in hand\<close>

text \<open>
  A command taken out of its queue and not yet put into another is treated as if it stood at the
  front of the request queue.
\<close>

definition held :: "cmd \<Rightarrow> 'e cst \<Rightarrow> bool" where
  "held c s \<longleftrightarrow> ctx_inv (s\<lparr>comq := (comq s)\<lparr>request := c # request (comq s)\<rparr>\<rparr>)"

lemma tags_simps [simp]:
  "tags (q\<lparr>request := c # request q\<rparr>) = (msgid c, nowait c) # tags q"
  "tags (q\<lparr>terminateFlag := b\<rparr>) = tags q"
  by (simp_all add: tags_def all_cmds_def)

lemma keyed_request [simp]: "keyed (q\<lparr>request := r\<rparr>) = keyed q"
  by (simp add: keyed_def)

lemma held_fresh: "held c s \<Longrightarrow> msgid c \<notin> set (ids (comq s))"
  by (simp add: held_def ctx_inv_def ids_tags)

lemma keyed_completion_ids: "keyed q \<Longrightarrow> i \<in> fst ` set (completion q) \<Longrightarrow> i \<in> set (ids q)"
proof -
  assume k: "keyed q" and "i \<in> fst ` set (completion q)"
  then obtain c where c: "(i, c) \<in> set (completion q)" by auto
  with k have "msgid c = i" by (auto simp: keyed_def)
  with c have "i \<in> (msgid \<circ> snd) ` set (completion q)" by (auto intro!: image_eqI [of _ _ "(i, c)"])
  then show ?thesis by (simp add: ids_def)
qed

lemma held_pushCompletion:
  assumes "held c s" "same_cmd c d"
  shows "pushCompletion d (comq s) = (comq s)\<lparr>completion := (msgid d, d) # completion (comq s)\<rparr>"
proof -
  have "msgid d \<notin> fst ` set (completion (comq s))"
    using held_fresh [OF assms(1)] assms keyed_completion_ids
    by (auto simp: held_def ctx_inv_def same_cmd_def)
  then show ?thesis by (rule pushCompletion_fresh)
qed

lemma held_complete:
  assumes h: "held c s" and d: "same_cmd c d"
  shows "ctx_inv (s\<lparr>comq := pushCompletion d (comq s)\<rparr>)"
proof -
  let ?s = "s\<lparr>comq := (comq s)\<lparr>request := c # request (comq s)\<rparr>\<rparr>"
  let ?q = "(comq s)\<lparr>completion := (msgid d, d) # completion (comq s)\<rparr>"
  have inv: "ctx_inv ?s" using h by (simp add: held_def)
  have "mset (tags ?q) = mset (tags (comq ?s))"
    using d by (simp add: tags_def all_cmds_def same_cmd_def)
  moreover have "keyed ?q" "kinds_ok ?q"
    using inv by (auto simp: ctx_inv_def keyed_def kinds_ok_def)
  ultimately have "ctx_inv (?s\<lparr>comq := ?q\<rparr>)" using inv by (rule ctx_inv_move [rotated])
  then show ?thesis by (simp add: held_pushCompletion [OF assms])
qed

lemma held_drop: "held c s \<Longrightarrow> nowait c \<Longrightarrow> ctx_inv s"
  by (auto simp: held_def ctx_inv_def ids_tags kinds_ok_def)

lemma held_pushFront: "held c s \<Longrightarrow> ctx_inv (s\<lparr>comq := pushRequestFront c (comq s)\<rparr>)"
  by (simp add: held_def pushRequestFront_def bq_push_front_def)

lemma held_same: "held c s \<Longrightarrow> same_cmd c d \<Longrightarrow> held d s"
  by (simp add: held_def ctx_inv_def ids_tags kinds_ok_def same_cmd_def)

lemma held_inflight:
  assumes h: "held d s" and req: "urpc_req d = Some r" and vh: "\<not> is_vh d"
    and fresh: "of_int r \<notin> fst ` set (inflight (comq s))"
  shows "\<exists>q. pushInFlight d (comq s) = Inr q \<and> ctx_inv (s\<lparr>comq := q\<rparr>) \<and>
    q = (comq s)\<lparr>inflight := (of_int r, d) # inflight (comq s)\<rparr>"
proof -
  let ?s = "s\<lparr>comq := (comq s)\<lparr>request := d # request (comq s)\<rparr>\<rparr>"
  let ?q = "(comq s)\<lparr>inflight := (of_int r, d) # inflight (comq s)\<rparr>"
  have inv: "ctx_inv ?s" using h by (simp add: held_def)
  have "mset (tags ?q) = mset (tags (comq ?s))" by (simp add: tags_def all_cmds_def)
  moreover have "keyed ?q" "kinds_ok ?q"
    using inv req vh fresh by (auto simp: ctx_inv_def keyed_def kinds_ok_def cmd_key_def)
  ultimately have "ctx_inv (?s\<lparr>comq := ?q\<rparr>)" using inv by (rule ctx_inv_move [rotated])
  then show ?thesis
    by (simp add: pushInFlight_def req bm_insert_fresh [OF fresh])
qed

lemma pop_request_held:
  assumes "ctx_inv s" "tryPopRequest (comq s) = (Some c, q)"
  shows "held c (s\<lparr>comq := q\<rparr>)"
proof -
  obtain r where r: "request (comq s) = c # r" "q = (comq s)\<lparr>request := r\<rparr>"
    using assms(2) by (cases "request (comq s)") (auto simp: tryPopRequest_def)
  have "(comq s)\<lparr>request := c # r\<rparr> = comq s" using r(1) by (cases "comq s") simp
  then show ?thesis by (simp add: held_def r(2) ctx_inv_cong [OF assms(1)])
qed

lemma pop_inflight_held:
  assumes inv: "ctx_inv s" and pop: "popInFlight req (comq s) = (Some c, q)"
  shows "held c (s\<lparr>comq := q\<rparr>) \<and> \<not> vh_kind (kind c) \<and> \<not> is_vh c \<and>
    q = (comq s)\<lparr>inflight := filter (\<lambda>e. fst e \<noteq> of_int req) (inflight (comq s))\<rparr>"
proof -
  have c: "map_of (inflight (comq s)) (of_int req) = Some c"
    and q: "q = (comq s)\<lparr>inflight := filter (\<lambda>e. fst e \<noteq> of_int req) (inflight (comq s))\<rparr>"
    using pop by (auto simp: popInFlight_def bm_tryFindNoWait_def split: option.splits)
  obtain xs ys where split: "inflight (comq s) = xs @ (of_int req, c) # ys"
    using split_list [OF map_of_SomeD [OF c]] by blast
  have "distinct (map fst (inflight (comq s)))" using inv by (simp add: ctx_inv_def keyed_def)
  then have f: "filter (\<lambda>e. fst e \<noteq> of_int req) (inflight (comq s)) = xs @ ys"
    by (simp add: split filter_key_absent)
  have q': "q = (comq s)\<lparr>inflight := xs @ ys\<rparr>" using q by (simp only: f)
  have vh: "\<not> is_vh c" "\<not> vh_kind (kind c)"
    using inv by (auto simp: ctx_inv_def kinds_ok_def split)
  let ?q = "q\<lparr>request := c # request q\<rparr>"
  have "mset (tags ?q) = mset (tags (comq s))" by (simp add: tags_def all_cmds_def q' split)
  moreover have "keyed ?q" "kinds_ok ?q"
    using inv vh by (auto simp: ctx_inv_def keyed_def kinds_ok_def q' split)
  ultimately have "ctx_inv (s\<lparr>comq := ?q\<rparr>)" using inv by (rule ctx_inv_move [rotated])
  then show ?thesis using vh q by (simp add: held_def)
qed

section \<open>Collected results and cancellation\<close>

lemma completion_ids_disjoint:
  assumes "distinct (ids q)" "keyed q" "c \<in> set (request q) \<union> snd ` set (inflight q)"
  shows "msgid c \<notin> fst ` set (completion q)"
proof -
  have "fst ` set (completion q) = (msgid \<circ> snd) ` set (completion q)"
    using assms(2) by (intro image_cong) (auto simp: keyed_def)
  moreover have "msgid c \<in> msgid ` set (request q) \<union> (msgid \<circ> snd) ` set (inflight q)"
    using assms(3) by auto
  ultimately show ?thesis using assms(1) by (auto simp: ids_def)
qed

lemma peeked_ctx_inv:
  assumes inv: "ctx_inv s" and pk: "peeked K s t"
  shows "ctx_inv t"
proof -
  let ?q = "comq s" and ?p = "comq t"
  have d: "distinct (ids ?q)" and k: "keyed ?q" using inv by (auto simp: ctx_inv_def)
  have parts: "request ?p = request ?q" "inflight ?p = inflight ?q"
    "completion ?p = filter (\<lambda>e. fst e \<notin> K) (completion ?q)"
    "rem_reqid t = rem_reqid s - K" "seq_no t = seq_no s" "K \<subseteq> fst ` set (completion ?q)"
    using pk by (auto simp: peeked_def)
  have "keyed ?p" "kinds_ok ?p" using inv by (auto simp: ctx_inv_def keyed_def kinds_ok_def parts)
  moreover have "distinct (ids ?p)"
    using d by (auto simp: ids_def parts distinct_map_filter)
  moreover have sub: "set (tags ?p) \<subseteq> set (tags ?q)" by (auto simp: tags_def all_cmds_def parts)
  then have "\<forall>i \<in> set (ids ?p). i < seq_no t"
    using inv by (auto simp: ctx_inv_def ids_tags parts)
  moreover have "set (tags ?p) = {x \<in> set (tags ?q). fst x \<notin> K}"
  proof -
    let ?f = "\<lambda>c. (msgid c, nowait c)"
    define A where "A = set (request ?q) \<union> snd ` set (inflight ?q)"
    have 1: "msgid c \<notin> K" if "c \<in> A" for c
      using completion_ids_disjoint [OF d k, of c] that parts(6) unfolding A_def by blast
    have 2: "msgid (snd e) = fst e" if "e \<in> set (completion ?q)" for e
      using k that by (auto simp: keyed_def)
    have t: "set (tags r) = ?f ` (set (request r) \<union> snd ` set (inflight r)) \<union>
        ?f ` snd ` set (completion r)" for r :: "cmd_kind comm_queue"
      by (simp add: tags_def all_cmds_def image_Un image_image Un_assoc)
    have 3: "?f ` snd ` {e \<in> set (completion ?q). fst e \<notin> K} =
        {x \<in> ?f ` snd ` set (completion ?q). fst x \<notin> K}"
      using 2 by (auto simp: image_iff) (metis snd_conv)+
    have 4: "?f ` A = {x \<in> ?f ` A. fst x \<notin> K}" using 1 by auto
    have "set (tags ?p) = ?f ` A \<union> ?f ` snd ` {e \<in> set (completion ?q). fst e \<notin> K}"
      by (simp add: t parts A_def)
    also have "\<dots> = {x \<in> ?f ` A. fst x \<notin> K} \<union>
        {x \<in> ?f ` snd ` set (completion ?q). fst x \<notin> K}"
      unfolding 3 using 4 by (simp only:)
    also have "\<dots> = {x \<in> set (tags ?q). fst x \<notin> K}"
      unfolding t A_def [symmetric] by blast
    finally show ?thesis .
  qed
  then have "rem_reqid t = fst ` {x \<in> set (tags ?p). \<not> snd x}"
    using inv by (auto simp: ctx_inv_def parts)
  ultimately show ?thesis by (simp add: ctx_inv_def)
qed

lemma peeked_held:
  assumes "held c s" "peeked K s t"
  shows "held c t"
proof -
  have "peeked K (s\<lparr>comq := (comq s)\<lparr>request := c # request (comq s)\<rparr>\<rparr>)
      (t\<lparr>comq := (comq t)\<lparr>request := c # request (comq t)\<rparr>\<rparr>)"
    using assms(2) by (simp add: peeked_def)
  then show ?thesis using assms(1) unfolding held_def by (rule peeked_ctx_inv [rotated])
qed

lemma cancelAll_tags: "comq_wf q \<Longrightarrow> mset (tags (cancelAll q)) = mset (tags q)"
  by (simp add: cancelAll_closed tags_def all_cmds_def cancelled_def comp_def rev_map [symmetric])

lemma cancelAll_ctx_inv:
  assumes "ctx_inv s"
  shows "ctx_inv (s\<lparr>comq := cancelAll (comq s)\<rparr>)"
proof -
  have wf: "comq_wf (comq s)" using assms by (simp add: comq_wf_keyed ctx_inv_def)
  show ?thesis
  proof (rule ctx_inv_move [OF assms cancelAll_tags [OF wf]])
    show "keyed (cancelAll (comq s))"
      using cancelAll_wf [OF wf] by (simp add: comq_wf_keyed)
    show "kinds_ok (cancelAll (comq s))" by (simp add: cancelAll_closed [OF wf] kinds_ok_def)
  qed
qed

lemma cancelAll_empty:
  "ctx_inv s \<Longrightarrow> request (cancelAll (comq s)) = [] \<and> inflight (cancelAll (comq s)) = []"
  by (simp add: cancelAll_closed comq_wf_keyed ctx_inv_def)

section \<open>The transport contract\<close>

text \<open>
  What the progress engine relies on: \<open>pend p e\<close> is the set of request numbers sent through
  peer \<open>p\<close> and not yet released. A successful send returns a number that is not pending, a reply
  carries a pending one, \<^verbatim>\<open>urpc_slot_done\<close> releases it, and nothing else changes the set. The
  numbers of one peer stay below \<open>2 ^ 31\<close> and error codes fit an \<^verbatim>\<open>int\<close>, because three kinds of
  command keep what they get in an \<^verbatim>\<open>int\<close>.
\<close>

definition urpc_ok :: "'e urpc_ops \<Rightarrow> (u64 \<Rightarrow> 'e \<Rightarrow> int set) \<Rightarrow> bool" where
  "urpc_ok ops pend \<longleftrightarrow>
     (\<forall>p cm its e r e'. urpc_generic_send ops p cm its e = (r, e') \<longrightarrow>
        (if r \<ge> 0 then r \<notin> pend p e \<and> r < 2 ^ 31 \<and> pend p e' = insert r (pend p e)
         else - (2 ^ 31) \<le> r \<and> pend p e' = pend p e)) \<and>
     (\<forall>p e r m e'. urpc_get_cmd ops p e = ((r, m), e') \<longrightarrow>
        pend p e' = pend p e \<and> (r \<ge> 0 \<longrightarrow> r \<in> pend p e)) \<and>
     (\<forall>p r m e. pend p (urpc_slot_done ops p r m e) = pend p e - {r}) \<and>
     (\<forall>p e. pend p (snd (waitpid_exited ops e)) = pend p e) \<and>
     (\<forall>p f a m e. pend p (snd (snd (vh_call ops f a m e))) = pend p e)"

lemma urpc_ok_send:
  assumes "urpc_ok ops pend" "urpc_generic_send ops p cm its e = (r, e')"
  shows "if r \<ge> 0 then r \<notin> pend p e \<and> r < 2 ^ 31 \<and> pend p e' = insert r (pend p e)
    else - (2 ^ 31) \<le> r \<and> pend p e' = pend p e"
  by (rule assms(1) [unfolded urpc_ok_def, THEN conjunct1, rule_format, OF assms(2)])

lemma urpc_ok_get:
  assumes "urpc_ok ops pend" "urpc_get_cmd ops p e = ((r, m), e')"
  shows "pend p e' = pend p e" "r \<ge> 0 \<Longrightarrow> r \<in> pend p e"
  using assms(1) [unfolded urpc_ok_def, THEN conjunct2, THEN conjunct1, rule_format, OF assms(2)]
  by blast+

lemma urpc_ok_keep:
  "urpc_ok ops pend \<Longrightarrow> pend p (urpc_slot_done ops p r m e) = pend p e - {r}"
  "urpc_ok ops pend \<Longrightarrow> pend p (snd (waitpid_exited ops e)) = pend p e"
  "urpc_ok ops pend \<Longrightarrow> pend p (snd (snd (vh_call ops f a mm e))) = pend p e"
  by (simp_all add: urpc_ok_def)

text \<open>In a running context the requests in flight are the pending ones; a context that gave up
  has none and takes none.\<close>

definition flight_inv :: "(u64 \<Rightarrow> 'e \<Rightarrow> int set) \<Rightarrow> 'e cst \<Rightarrow> bool" where
  "flight_inv pend s \<longleftrightarrow>
     (if ctx_state s = VEO_STATE_EXIT then request (comq s) = [] \<and> inflight (comq s) = []
      else fst ` set (inflight (comq s)) = of_int ` pend (up s) (env s) \<and>
           pend (up s) (env s) \<subseteq> {0..<2 ^ 31})"

lemma of_int_small_inj: "inj_on (of_int :: int \<Rightarrow> u64) {0..<2 ^ 31}"
proof (rule inj_onI)
  fix x y :: int assume xy: "x \<in> {0..<2 ^ 31}" "y \<in> {0..<2 ^ 31}" "(of_int x :: u64) = of_int y"
  then have "uint (word_of_int x :: u64) = uint (word_of_int y :: u64)" by simp
  then have "x mod 2 ^ 64 = y mod 2 ^ 64" by (simp only: uint_word_of_int take_bit_eq_mod) simp
  with xy(1,2) show "x = y" by simp
qed

lemma to_int32_small: "- (2 ^ 31) \<le> r \<Longrightarrow> r < 2 ^ 31 \<Longrightarrow> to_int32 r = r"
  by (simp add: to_int32_def signed_take_bit_int_eq_self)

section \<open>One turn of the engine\<close>

lemma submitted_cases:
  "submitted r c = (rv, d) \<Longrightarrow> same_cmd c d \<and> (rv = 0 \<longleftrightarrow> r \<ge> 0) \<and> (r \<ge> 0 \<longrightarrow> urpc_req d = Some r)"
  by (auto simp: submitted_def EAGAIN_def split: if_splits)

lemma send_call_nolock_sends:
  "\<exists>cm its. send_call_nolock ops p sp addr regs tp sz cin cout stk m e = urpc_generic_send ops p cm its e"
  unfolding send_call_nolock_def Let_def by (auto split: if_splits)

lemma ve_handler_sends:
  assumes "\<not> vh_kind k"
  shows "\<exists>cm its trunc. run_handler ops k c s =
    (let (r, e) = urpc_generic_send ops (up s) cm its (env s);
         (rv, c') = submitted (if trunc then to_int32 r else r) c in (Inr rv, c', s\<lparr>env := e\<rparr>))"
proof -
  define G where "G cm its trunc = (let (r, e) = urpc_generic_send ops (up s) cm its (env s);
      (rv, c') = submitted (if trunc then to_int32 r else r) c in (Inr rv :: exc + int, c', s\<lparr>env := e\<rparr>))"
    for cm its trunc
  have "\<exists>cm its trunc. run_handler ops k c s = G cm its trunc"
  proof (cases k)
    case (KGeneric cm its)
    then have "run_handler ops k c s = G cm its True"
      by (simp add: G_def handle_generic_def Let_def split: prod.split)
    then show ?thesis by blast
  next
    case (KSendBuff dst src sz prev)
    then have "run_handler ops k c s = G URPC_CMD_SENDBUFF
        [ItemL dst, ItemP (mem_read (vhmem (hst s)) src (unat sz))] True"
      by (simp add: G_def handle_sendbuff_def Let_def split: prod.split)
    then show ?thesis by blast
  next
    case (KRecvBuff dst src sz prev)
    then have "run_handler ops k c s = G URPC_CMD_RECVBUFF [ItemL src, ItemL dst, ItemL sz] True"
      by (simp add: G_def handle_recvbuff_def Let_def split: prod.split)
    then show ?thesis by blast
  next
    case (KCall addr regs tp sz cin cout stk ext cs)
    obtain cm its where "send_call_nolock ops (up s) (ve_sp s) addr regs tp sz cin cout stk
        (vhmem (hst s)) (env s) = urpc_generic_send ops (up s) cm its (env s)"
      using send_call_nolock_sends [of ops "up s" "ve_sp s" addr regs tp sz cin cout stk
          "vhmem (hst s)" "env s"] by blast
    then have "run_handler ops k c s = G cm its False"
      by (simp add: G_def KCall handle_call_def Let_def split: prod.split)
    then show ?thesis by blast
  qed (use assms in simp_all)
  then show ?thesis by (simp add: G_def)
qed

lemma ve_handler:
  assumes ok: "urpc_ok ops pend" and k: "\<not> vh_kind k"
  obtains rv d e r where "run_handler ops k c s = (Inr rv, d, s\<lparr>env := e\<rparr>)" "same_cmd c d"
    "rv = 0 \<Longrightarrow> urpc_req d = Some r \<and> 0 \<le> r \<and> r < 2 ^ 31 \<and> r \<notin> pend (up s) (env s) \<and>
       pend (up s) e = insert r (pend (up s) (env s))"
    "rv \<noteq> 0 \<Longrightarrow> pend (up s) e = pend (up s) (env s)"
proof -
  obtain cm its trunc where h: "run_handler ops k c s =
    (let (r, e) = urpc_generic_send ops (up s) cm its (env s);
         (rv, c') = submitted (if trunc then to_int32 r else r) c in (Inr rv, c', s\<lparr>env := e\<rparr>))"
    using ve_handler_sends [OF k] by blast
  obtain r e where g: "urpc_generic_send ops (up s) cm its (env s) = (r, e)" by (metis surj_pair)
  note send = urpc_ok_send [OF ok g]
  have "r < 2 ^ 31" "- (2 ^ 31) \<le> r" using send by (cases "r \<ge> 0"; simp)+
  then have "(if trunc then to_int32 r else r) = r" using to_int32_small by simp
  moreover obtain rv d where d: "submitted r c = (rv, d)" by (metis surj_pair)
  ultimately have run: "run_handler ops k c s = (Inr rv, d, s\<lparr>env := e\<rparr>)" by (simp add: h g)
  note sub = submitted_cases [OF d]
  show ?thesis
  proof (rule that [OF run])
    show "same_cmd c d" using sub by blast
    show "urpc_req d = Some r \<and> 0 \<le> r \<and> r < 2 ^ 31 \<and> r \<notin> pend (up s) (env s) \<and>
       pend (up s) e = insert r (pend (up s) (env s))" if "rv = 0"
    proof -
      have "0 \<le> r" using that sub by blast
      then show ?thesis using send sub by (simp only: if_True) simp
    qed
    show "pend (up s) e = pend (up s) (env s)" if "rv \<noteq> 0"
    proof -
      have "\<not> 0 \<le> r" using that sub by blast
      then show ?thesis using send by (simp only: if_False)
    qed
  qed
qed

lemma run_copyout_host: "\<exists>m'. run_copyout (rd_host stk) cs m = Inr m'"
  by (induction cs arbitrary: m) (auto simp: rd_host_def)

lemma peekResult_state: "peekResult r ret s = (rc, v, t) \<Longrightarrow> ctx_state t = ctx_state s"
  by (auto simp: peekResult_def split: if_splits prod.splits option.splits)

lemma vh_handler:
  assumes ok: "urpc_ok ops pend" and k: "vh_kind k"
  obtains d t K where "run_handler ops k c s = (Inr 0, d, t)" "same_cmd c d" "peeked K s t"
    "pend (up t) (env t) = pend (up s) (env s)" "ctx_state t = ctx_state s"
proof -
  obtain res d t where r: "run_handler ops k c s = (res, d, t)" by (metis prod_cases3)
  obtain K where f: "same_cmd c d" "peeked K s t" using run_handler_frame [OF r] by blast
  have "res = Inr 0 \<and> pend (up t) (env t) = pend (up s) (env s) \<and> ctx_state t = ctx_state s"
  proof (cases k)
    case (KVHFunc fn a)
    then show ?thesis using r urpc_ok_keep(3) [OF ok, of "up s" fn a "vhmem (hst s)" "env s"]
      by (auto simp: handle_vh_def split: prod.splits)
  next
    case (KLargeCall w cl rd stk cout cs)
    then have hl: "handle_large_call w cl rd stk cout cs c s = (res, d, t)" using r by simp
    have "env t = env s" using handle_large_call_frame [OF hl] by blast
    moreover have "up t = up s" using f(2) by (simp add: peeked_def)
    moreover have "res = Inr 0 \<and> ctx_state t = ctx_state s"
    proof -
      obtain ws d1 s1 where 1: "peek_if_valid w (Some 0) s = (ws, d1, s1)" by (metis prod_cases3)
      obtain cs' rs' s2 where 2: "peek_if_valid cl (Some 0) s1 = (cs', rs', s2)" by (metis prod_cases3)
      obtain rs d2 s3 where 3: "peek_if_valid rd d1 s2 = (rs, d2, s3)" by (metis prod_cases3)
      have st: "ctx_state s1 = ctx_state s" "ctx_state s2 = ctx_state s1" "ctx_state s3 = ctx_state s2"
        using 1 2 3 by (auto simp: peek_if_valid_def split: if_splits dest: peekResult_state)
      obtain m' where m': "run_copyout (rd_host stk) cs (vhmem (hst s3)) = Inr m'"
        using run_copyout_host by blast
      show ?thesis using hl st m'
        by (auto simp: handle_large_call_def 1 2 3 Let_def split: if_splits)
    qed
    ultimately show ?thesis by simp
  qed (use r k in auto)
  then show ?thesis using that r f by blast
qed

lemma run_copyout_err: "run_copyout rd cs m = Inl e \<Longrightarrow> e = OutOfBounds"
  by (induction cs arbitrary: m) (auto split: option.splits)

lemma unpack_call_result_err:
  assumes "unpack_call_result ops m cs payload r stk vm = Inl e"
  shows "e \<in> {NullDeref, BadFunctionCall, OutOfBounds}"
proof -
  have stk: "mb_cmd m = URPC_CMD_RES_STK"
    using assms by (auto simp: unpack_call_result_def Let_def split: if_splits prod.splits)
  obtain rc its where u: "urpc_unpack_payload ops ''LP'' payload = (rc, its)" by (metis surj_pair)
  show ?thesis
    using assms
    by (simp add: unpack_call_result_def stk u URPC_CMD_RES_STK_def URPC_CMD_RESULT_def Let_def
        bind_exc_def
        split: if_splits option.splits sum.splits)
      (auto dest: run_copyout_err)
qed

lemma run_unpack_err:
  assumes "run_unpack ops k c m payload s = (Inl e, d, t)"
  shows "e \<in> {NullDeref, BadFunctionCall, OutOfBounds, Uninitialized}"
  using assms
  by (cases k)
    (auto simp: unpack_sendbuff_def unpack_recvbuff_def unpack_generic_def unpack_call_def Let_def
      dest: unpack_call_result_err split: if_splits prod.splits option.splits sum.splits)

lemma chain_result_state: "chain_result prev s = (v, rc, t) \<Longrightarrow> ctx_state t = ctx_state s"
  by (auto simp: chain_result_def Let_def split: if_splits prod.splits dest: peekResult_state)

lemma run_unpack_state:
  assumes "run_unpack ops k c m payload s = (Inr rv, d, t)" "0 \<le> rv"
  shows "ctx_state t = ctx_state s"
  using assms
  by (cases k)
    (auto simp: unpack_sendbuff_def unpack_recvbuff_def unpack_generic_def unpack_call_def Let_def
      dest: chain_result_state split: if_splits prod.splits option.splits sum.splits)

text \<open>What a turn may leave: the invariant, or an exception other than that of a stray reply.\<close>

fun turn_ok :: "(u64 \<Rightarrow> 'e \<Rightarrow> int set) \<Rightarrow> 'e turn \<Rightarrow> bool" where
  "turn_ok pend (Again t) \<longleftrightarrow> ctx_inv t \<and> flight_inv pend t \<and> ctx_state t \<noteq> VEO_STATE_EXIT"
| "turn_ok pend (Ret rv t) \<longleftrightarrow> ctx_inv t \<and> flight_inv pend t"
| "turn_ok pend (Throws e t) \<longleftrightarrow> (\<forall>n. e \<noteq> VEOException n)"

lemma flight_inv_cong:
  "flight_inv pend s \<Longrightarrow> request (comq t) = request (comq s) \<Longrightarrow> inflight (comq t) = inflight (comq s) \<Longrightarrow>
     ctx_state t = ctx_state s \<Longrightarrow> pend (up t) (env t) = pend (up s) (env s) \<Longrightarrow> flight_inv pend t"
  unfolding flight_inv_def by (simp only:)

lemma flight_inv_run_cong:
  "flight_inv pend s \<Longrightarrow> inflight (comq t) = inflight (comq s) \<Longrightarrow> ctx_state s \<noteq> VEO_STATE_EXIT \<Longrightarrow>
     ctx_state t = ctx_state s \<Longrightarrow> pend (up t) (env t) = pend (up s) (env s) \<Longrightarrow> flight_inv pend t"
  unfolding flight_inv_def by (simp only: if_False)

lemma give_up_ok:
  assumes "ctx_inv s"
  shows "ctx_inv (s\<lparr>env := e, proc_survival := b, ctx_state := VEO_STATE_EXIT, comq := cancelAll (comq s)\<rparr>)"
    "flight_inv pend (s\<lparr>env := e, proc_survival := b, ctx_state := VEO_STATE_EXIT,
       comq := cancelAll (comq s)\<rparr>)"
    "ctx_inv (s\<lparr>ctx_state := VEO_STATE_EXIT, comq := cancelAll (comq s)\<rparr>)"
    "flight_inv pend (s\<lparr>ctx_state := VEO_STATE_EXIT, comq := cancelAll (comq s)\<rparr>)"
  using cancelAll_empty [OF assms]
  by (auto simp: flight_inv_def intro: ctx_inv_cong [OF cancelAll_ctx_inv [OF assms]])

lemma idle_turn_ok:
  assumes ok: "urpc_ok ops pend" and inv: "ctx_inv s" "flight_inv pend s"
  shows "turn_ok pend (idle_turn ops s)"
proof -
  obtain dead e where w: "waitpid_exited ops (env s) = (dead, e)" by (metis surj_pair)
  have p: "pend (up s) e = pend (up s) (env s)"
    using urpc_ok_keep(2) [OF ok, of "up s" "env s"] w by simp
  have "ctx_inv (s\<lparr>env := e, progress_count := n\<rparr>)" "ctx_inv (s\<lparr>progress_count := n\<rparr>)" for n
    by (rule ctx_inv_cong [OF inv(1)]; simp)+
  moreover have "flight_inv pend (s\<lparr>env := e, progress_count := n\<rparr>)"
    "flight_inv pend (s\<lparr>progress_count := n\<rparr>)" for n
    using flight_inv_cong [OF inv(2)] p by simp_all
  ultimately show ?thesis
    using give_up_ok [OF inv(1)] by (simp add: idle_turn_def w Let_def)
qed

lemma flight_inv_run:
  "ctx_state s \<noteq> VEO_STATE_EXIT \<Longrightarrow> flight_inv pend s \<longleftrightarrow>
     fst ` set (inflight (comq s)) = of_int ` pend (up s) (env s) \<and> pend (up s) (env s) \<subseteq> {0..<2 ^ 31}"
  by (simp add: flight_inv_def)

lemma submit_ve_ok:
  assumes ok: "urpc_ok ops pend" and h: "held c s" and k: "\<not> vh_kind (kind c)" "\<not> is_vh c"
    and run: "ctx_state s \<noteq> VEO_STATE_EXIT" and fl: "flight_inv pend s"
  shows "turn_ok pend (submit_ve ops c s)"
proof -
  obtain rv d e r where hd: "run_handler ops (kind c) c s = (Inr rv, d, s\<lparr>env := e\<rparr>)"
    and d: "same_cmd c d"
    and zero: "rv = 0 \<Longrightarrow> urpc_req d = Some r \<and> 0 \<le> r \<and> r < 2 ^ 31 \<and> r \<notin> pend (up s) (env s) \<and>
       pend (up s) e = insert r (pend (up s) (env s))"
    and nz: "rv \<noteq> 0 \<Longrightarrow> pend (up s) e = pend (up s) (env s)"
    using ve_handler [OF ok k(1)] by blast
  let ?s = "s\<lparr>env := e\<rparr>"
  have hs: "held d ?s" using held_same [OF peeked_held [OF h peeked_empty(2)] d] .
  note fl' = fl [unfolded flight_inv_run [OF run]]
  show ?thesis
  proof (cases "rv = 0")
    case True
    note z = zero [OF True]
    have "of_int r \<notin> (of_int ` pend (up s) (env s) :: u64 set)"
      using z fl' inj_onD [OF of_int_small_inj, of r] by auto
    then have "of_int r \<notin> fst ` set (inflight (comq ?s))" using fl' by simp
    moreover have "\<not> is_vh d" using d k(2) by (simp add: same_cmd_def)
    ultimately obtain q where q: "pushInFlight d (comq ?s) = Inr q" "ctx_inv (?s\<lparr>comq := q\<rparr>)"
      "q = (comq ?s)\<lparr>inflight := (of_int r, d) # inflight (comq ?s)\<rparr>"
      using held_inflight [OF hs] z by blast
    have "flight_inv pend (?s\<lparr>comq := q\<rparr>)" using z fl' run by (simp add: flight_inv_def q(3))
    then show ?thesis using q run by (simp add: submit_ve_def hd True)
  next
    case False
    let ?x = "setResult (Some (of_int rv)) (Some VEO_COMMAND_ERROR) d"
    have "ctx_inv (?s\<lparr>comq := pushRequestFront d (comq ?s)\<rparr>)" using held_pushFront [OF hs] .
    moreover have "ctx_inv (?s\<lparr>comq := pushCompletion ?x (comq ?s)\<rparr>)"
      using held_complete [OF hs] by simp
    moreover have "flight_inv pend (?s\<lparr>comq := pushRequestFront d (comq ?s)\<rparr>)"
      "flight_inv pend (?s\<lparr>comq := pushCompletion ?x (comq ?s)\<rparr>)"
      by (rule flight_inv_run_cong [OF fl];
          simp add: pushRequestFront_def pushCompletion_def nz [OF False] run)+
    ultimately show ?thesis
      using idle_turn_ok [OF ok] False by (simp add: submit_ve_def hd)
  qed
qed

lemma submit_vh_ok:
  assumes ok: "urpc_ok ops pend" and h: "held c s" and k: "vh_kind (kind c)"
    and run: "ctx_state s \<noteq> VEO_STATE_EXIT" and fl: "flight_inv pend s"
  shows "turn_ok pend (submit_vh ops b c s)"
proof (cases "emptyInFlight (comq s) \<and> b")
  case True
  obtain d t K where hd: "run_handler ops (kind c) c s = (Inr 0, d, t)" and d: "same_cmd c d"
    and pk: "peeked K s t" and p: "pend (up t) (env t) = pend (up s) (env s)"
    "ctx_state t = ctx_state s"
    using vh_handler [OF ok k] by blast
  have "ctx_inv (t\<lparr>comq := pushCompletion d (comq t)\<rparr>)"
    using held_complete [OF peeked_held [OF h pk] d] .
  moreover have "flight_inv pend (t\<lparr>comq := pushCompletion d (comq t)\<rparr>)"
    using pk p run by (intro flight_inv_run_cong [OF fl]) (simp_all add: pushCompletion_def peeked_def)
  ultimately show ?thesis using True p run by (simp add: submit_vh_def hd)
next
  case False
  have "flight_inv pend (s\<lparr>comq := pushRequestFront c (comq s)\<rparr>)"
    using run by (intro flight_inv_run_cong [OF fl]) (simp_all add: pushRequestFront_def)
  then have "turn_ok pend (Ret 1 (s\<lparr>comq := pushRequestFront c (comq s)\<rparr>))"
    using held_pushFront [OF h] by simp
  then show ?thesis using False by (simp only: submit_vh_def if_False)
qed

lemma on_reply_ok:
  assumes ok: "urpc_ok ops pend" and inv: "ctx_inv s" "flight_inv pend s"
    and run: "ctx_state s \<noteq> VEO_STATE_EXIT" and req: "req \<in> pend (up s) (env s)"
  shows "turn_ok pend (on_reply ops req m s)"
proof -
  note fl = inv(2) [unfolded flight_inv_run [OF run]]
  have "map_of (inflight (comq s)) (of_int req) \<noteq> None"
    using fl req by (auto simp: map_of_eq_None_iff)
  then obtain c q where pop: "popInFlight req (comq s) = (Some c, q)"
    by (auto simp: popInFlight_def bm_tryFindNoWait_def)
  note p = pop_inflight_held [OF inv(1) pop]
  let ?s = "s\<lparr>comq := q\<rparr>"
  obtain res d t where u: "run_unpack ops (kind c) c m (set_recv_payload ops (up s) m (env s)) ?s
      = (res, d, t)" by (metis prod_cases3)
  obtain K where d: "same_cmd c d" and pk: "peeked K ?s t" using run_unpack_frame [OF u] by blast
  have env: "env t = env s" "up t = up s"
    using run_unpack_env [OF u] pk by (simp_all add: peeked_def)
  show ?thesis
  proof (cases res)
    case (Inl e)
    then show ?thesis using run_unpack_err [OF u [unfolded Inl]]
      by (auto simp: on_reply_def pop u)
  next
    case (Inr rv)
    let ?t = "t\<lparr>env := urpc_slot_done ops (up t) req m (env t)\<rparr>"
    let ?v = "if \<not> nowait d then ?t\<lparr>comq := pushCompletion d (comq ?t)\<rparr> else ?t"
    have h: "held d ?t"
      using held_same [OF peeked_held [OF peeked_held [OF conjunct1 [OF p] pk] peeked_empty(2)] d] .
    then have v: "ctx_inv ?v" using held_complete [OF h] held_drop [OF h] by simp
    have body: "on_reply ops req m s = (if rv < 0
        then Ret (- 1) (?v\<lparr>ctx_state := VEO_STATE_EXIT, comq := cancelAll (comq ?v)\<rparr>) else Again ?v)"
      by (simp add: on_reply_def pop u Inr Let_def)
    show ?thesis
    proof (cases "rv < 0")
      case True
      have "turn_ok pend (Ret (- 1) (?v\<lparr>ctx_state := VEO_STATE_EXIT, comq := cancelAll (comq ?v)\<rparr>))"
        using give_up_ok(3,4) [OF v] by (simp only: turn_ok.simps)
      then show ?thesis by (simp only: body True if_True)
    next
      case False
      then have st: "ctx_state ?v = ctx_state s"
        using run_unpack_state [OF u [unfolded Inr]] by simp
      have "inflight (comq ?v) = filter (\<lambda>e. fst e \<noteq> of_int req) (inflight (comq s))"
        using p pk by (simp add: peeked_def pushCompletion_def)
      then have "fst ` set (inflight (comq ?v)) = fst ` set (inflight (comq s)) - {of_int req}"
        by auto
      also have "\<dots> = of_int ` pend (up s) (env s) - of_int ` {req}" by (simp add: fl)
      also have "\<dots> = of_int ` (pend (up s) (env s) - {req})"
        by (rule inj_on_image_set_diff [OF of_int_small_inj, symmetric]) (use fl req in blast)+
      finally have "flight_inv pend ?v"
        using fl run st env urpc_ok_keep(1) [OF ok] by (auto simp: flight_inv_def)
      with v st run show ?thesis unfolding body using False by simp
    qed
  qed
qed

lemma progress_turn_ok:
  assumes ok: "urpc_ok ops pend" and inv: "ctx_inv s" "flight_inv pend s"
    and run: "ctx_state s \<noteq> VEO_STATE_EXIT"
  shows "turn_ok pend (progress_turn ops b s)"
proof -
  obtain req m e where g: "urpc_get_cmd ops (up s) (env s) = ((req, m), e)"
    by (metis surj_pair)
  note get = urpc_ok_get [OF ok g]
  let ?s = "s\<lparr>env := e\<rparr>"
  have i1: "ctx_inv ?s" by (rule ctx_inv_cong [OF inv(1)]) simp_all
  have i2: "flight_inv pend ?s" by (rule flight_inv_cong [OF inv(2)]) (simp_all add: get)
  have run': "ctx_state ?s \<noteq> VEO_STATE_EXIT" using run by simp
  consider "req \<ge> 0" | "req < 0" "urpc_next_send_slot ops (up ?s) (env ?s) < 0"
    | "req < 0" "\<not> urpc_next_send_slot ops (up ?s) (env ?s) < 0" by linarith
  then show ?thesis
  proof cases
    case 1
    then show ?thesis
      using on_reply_ok [OF ok i1 i2 run', of req m] get by (simp add: progress_turn_def g)
  next
    case 2
    then show ?thesis using i1 i2 by (simp add: progress_turn_def g)
  next
    case 3
    obtain co q where pop: "tryPopRequest (comq ?s) = (co, q)" by (metis surj_pair)
    have fl: "inflight q = inflight (comq s)"
      using pop by (cases "request (comq s)") (auto simp: tryPopRequest_def)
    have i3: "flight_inv pend (?s\<lparr>comq := q\<rparr>)"
      by (rule flight_inv_run_cong [OF i2]) (simp_all add: fl run)
    show ?thesis
    proof (cases co)
      case None
      then have "request (comq s) = []" "q = comq s"
        using pop by (cases "request (comq s)"; auto simp: tryPopRequest_def)+
      then have "ctx_inv (?s\<lparr>comq := q\<rparr>)" by (intro ctx_inv_cong [OF i1]) simp_all
      then show ?thesis using 3 idle_turn_ok [OF ok _ i3] pop None
        by (simp add: progress_turn_def g Let_def)
    next
      case (Some c)
      have h: "held c (?s\<lparr>comq := q\<rparr>)" using pop_request_held [OF i1 pop [unfolded Some]] .
      then have k: "is_vh c = vh_kind (kind c)" by (simp add: held_def ctx_inv_def kinds_ok_def)
      have "turn_ok pend (if is_vh c then submit_vh ops b c (?s\<lparr>comq := q\<rparr>)
          else submit_ve ops c (?s\<lparr>comq := q\<rparr>))"
        using submit_vh_ok [OF ok h _ _ i3] submit_ve_ok [OF ok h _ _ _ i3] k run by simp
      moreover have "progress_turn ops b s = (if is_vh c then submit_vh ops b c (?s\<lparr>comq := q\<rparr>)
          else submit_ve ops c (?s\<lparr>comq := q\<rparr>))"
        using 3 pop Some by (simp add: progress_turn_def g Let_def)
      ultimately show ?thesis by simp
    qed
  qed
qed

end
