(* ===== verification/Context_Run.thy ===== *)
theory Context_Run
  imports Context_Inv
begin

text \<open>
  Runs of a context: the progress loop, the step relation that interleaves submission, progress
  and collection of results, and what holds in every reachable state. The operations of
  \<^verbatim>\<open>Context_Ops\<close> are shown to be sequences of these steps.
\<close>

section \<open>The loop\<close>

lemma progress_nolock_ok:
  assumes "urpc_ok ops pend" "ctx_inv s" "flight_inv pend s" "ctx_state s \<noteq> VEO_STATE_EXIT"
    and "progress_nolock ops b s = (r, t)"
  shows "(\<exists>rv. r = Inr rv) \<and> ctx_inv t \<and> flight_inv pend t \<or>
    (\<exists>e. r = Inl e \<and> (\<forall>n. e \<noteq> VEOException n))"
  using assms
proof (induction ops b s rule: progress_nolock.induct)
  case (1 ops b s)
  note turn = progress_turn_ok [OF "1.prems"(1-4), of b]
  have r: "(r, t) = (case progress_turn ops b s of Again u \<Rightarrow> progress_nolock ops b u
      | Ret rv u \<Rightarrow> (Inr rv, u) | Throws e u \<Rightarrow> (Inl e, u))"
    using "1.prems"(5) by (simp add: progress_nolock.simps [of ops b s])
  show ?case
  proof (cases "progress_turn ops b s")
    case (Again u)
    with turn have "ctx_inv u" "flight_inv pend u" "ctx_state u \<noteq> VEO_STATE_EXIT" by simp_all
    from "1.IH" [OF Again "1.prems"(1) this] r Again show ?thesis by simp
  qed (use turn r in auto)
qed

lemma exit_turn:
  assumes ok: "urpc_ok ops pend" and inv: "ctx_inv s" "flight_inv pend s"
    and ex: "ctx_state s = VEO_STATE_EXIT"
  shows "(\<exists>n t. progress_turn ops b s = Throws (VEOException n) t) \<or>
    (\<exists>rv t. progress_turn ops b s = Ret rv t \<and> ctx_inv t \<and> flight_inv pend t)"
proof -
  obtain req m e where g: "urpc_get_cmd ops (up s) (env s) = ((req, m), e)"
    by (metis surj_pair)
  let ?s = "s\<lparr>env := e\<rparr>"
  have none: "request (comq s) = []" "inflight (comq s) = []" using inv(2) ex by (simp_all add: flight_inv_def)
  have i1: "ctx_inv ?s" by (rule ctx_inv_cong [OF inv(1)]) simp_all
  have i2: "flight_inv pend ?s" using none ex by (simp add: flight_inv_def)
  have pop: "popInFlight req (comq ?s) = (None, comq ?s)"
    using none by (simp add: popInFlight_def bm_tryFindNoWait_def)
  have q: "tryPopRequest (comq ?s) = (None, comq ?s)"
    using none by (cases "comq s") (simp add: tryPopRequest_def)
  have "?s\<lparr>comq := comq ?s\<rparr> = ?s" by simp
  then have "turn_ok pend (idle_turn ops (?s\<lparr>comq := comq ?s\<rparr>))"
    using idle_turn_ok [OF ok i1 i2] by simp
  then have idle: "\<exists>rv t. idle_turn ops (?s\<lparr>comq := comq ?s\<rparr>) = Ret rv t \<and> ctx_inv t \<and> flight_inv pend t"
    by (cases "idle_turn ops (?s\<lparr>comq := comq ?s\<rparr>)")
      (auto simp: idle_turn_def Let_def split: if_splits prod.splits)
  show ?thesis
  proof (cases "req \<ge> 0")
    case True
    then show ?thesis using pop by (simp add: progress_turn_def g on_reply_def)
  next
    case False
    then show ?thesis using idle q i1 i2 by (simp add: progress_turn_def g Let_def)
  qed
qed

section \<open>Reachable states\<close>

text \<open>
  The steps of a context, in any order and interleaving: the queueing of a command under a new
  identifier (before the identifiers wrap around), one turn of the progress engine, the collection
  of a result by \<^verbatim>\<open>_peekResult\<close> or after \<^verbatim>\<open>waitCompletion\<close>, the request to terminate, and whatever
  the VE, the operating system and the application do to the world and to VH memory without
  touching the pending requests.
\<close>

inductive ctx_step :: "'e urpc_ops \<Rightarrow> (u64 \<Rightarrow> 'e \<Rightarrow> int set) \<Rightarrow> 'e cst \<Rightarrow> 'e cst \<Rightarrow> bool"
  for ops :: "'e urpc_ops" and pend :: "u64 \<Rightarrow> 'e \<Rightarrow> int set" where
  submit: "is_alive ops s \<Longrightarrow> seq_no s \<noteq> VEO_REQUEST_ID_INVALID \<Longrightarrow> issueRequestID s = (i, s1) \<Longrightarrow>
    msgid c = i \<Longrightarrow> is_vh c = vh_kind (kind c) \<Longrightarrow> \<not> nowait c \<Longrightarrow> push_cmd c s1 = (rv, t) \<Longrightarrow>
    ctx_step ops pend s t"
| submit_nowait: "is_alive ops s \<Longrightarrow> seq_no s \<noteq> VEO_REQUEST_ID_INVALID \<Longrightarrow>
    issueRequestID s = (i, s1) \<Longrightarrow> msgid c = i \<Longrightarrow> is_vh c = vh_kind (kind c) \<Longrightarrow> nowait c \<Longrightarrow>
    push_cmd c (s1\<lparr>rem_reqid := rem_reqid s1 - {i}\<rparr>) = (rv, t) \<Longrightarrow> ctx_step ops pend s t"
| turn_again: "progress_turn ops b s = Again t \<Longrightarrow> ctx_step ops pend s t"
| turn_ret: "progress_turn ops b s = Ret rv t \<Longrightarrow> ctx_step ops pend s t"
| collect: "peekResult r ret s = (rc, v, t) \<Longrightarrow> ctx_step ops pend s t"
| collect_wait: "r \<in> rem_reqid s \<Longrightarrow> waitCompletion_turn r (comq s) = Some (c, q) \<Longrightarrow>
    t = s\<lparr>comq := q, rem_reqid := rem_reqid s - {r}\<rparr> \<Longrightarrow> ctx_step ops pend s t"
| terminating: "t = s\<lparr>comq := terminate_queue (comq s)\<rparr> \<Longrightarrow> ctx_step ops pend s t"
| outside: "pend (up s) e = pend (up s) (env s) \<Longrightarrow> t = s\<lparr>env := e, hst := h, proc_survival := b\<rparr> \<Longrightarrow>
    ctx_step ops pend s t"

definition inv_all :: "(u64 \<Rightarrow> 'e \<Rightarrow> int set) \<Rightarrow> 'e cst \<Rightarrow> bool" where
  "inv_all pend s \<longleftrightarrow> ctx_inv s \<and> flight_inv pend s"

lemma issue_small:
  "seq_no s \<noteq> VEO_REQUEST_ID_INVALID \<Longrightarrow> issueRequestID s = (seq_no s,
     s\<lparr>seq_no := seq_no s + 1, rem_reqid := insert (seq_no s) (rem_reqid s)\<rparr>)"
  by (simp add: issueRequestID_def fetch_id.simps [of "seq_no s"])

lemma less_succ: "i < n \<Longrightarrow> n \<noteq> VEO_REQUEST_ID_INVALID \<Longrightarrow> i < (n :: u64) + 1"
  "n \<noteq> VEO_REQUEST_ID_INVALID \<Longrightarrow> n < (n :: u64) + 1"
proof -
  assume n: "n \<noteq> VEO_REQUEST_ID_INVALID"
  have "n + 1 \<noteq> 0"
  proof
    assume "n + 1 = 0"
    then have "n = - 1" by (simp add: eq_neg_iff_add_eq_0)
    with n show False by (simp add: VEO_REQUEST_ID_INVALID_def)
  qed
  then have "unat (1 + n) = Suc (unat n)" by (intro unatSuc) (simp add: add.commute)
  then show *: "n < n + 1" by (simp add: word_less_nat_alt add.commute)
  assume "i < n" then show "i < n + 1" using * by (rule less_trans)
qed

lemma enqueue_inv:
  assumes inv: "ctx_inv s" and sq: "seq_no s \<noteq> VEO_REQUEST_ID_INVALID"
    and c: "msgid c = seq_no s" "is_vh c = vh_kind (kind c)"
  shows "ctx_inv (s\<lparr>seq_no := seq_no s + 1,
    rem_reqid := (if nowait c then rem_reqid s else insert (seq_no s) (rem_reqid s)),
    comq := (comq s)\<lparr>request := request (comq s) @ [c]\<rparr>\<rparr>)"
proof -
  let ?q = "(comq s)\<lparr>request := request (comq s) @ [c]\<rparr>"
  have t: "set (tags ?q) = insert (seq_no s, nowait c) (set (tags (comq s)))"
    using c by (auto simp: tags_def all_cmds_def)
  have bound: "\<forall>i \<in> set (ids (comq s)). i < seq_no s" using inv by (simp add: ctx_inv_def)
  then have "seq_no s \<notin> set (ids (comq s))" by blast
  then have "distinct (ids ?q)" using inv c by (auto simp: ctx_inv_def ids_def)
  moreover have "\<forall>i \<in> set (ids ?q). i < seq_no s + 1"
    using bound less_succ(1) [OF _ sq] less_succ(2) [OF sq] by (auto simp: ids_tags t)
  moreover have "kinds_ok ?q" using inv c by (auto simp: ctx_inv_def kinds_ok_def)
  moreover have "(if nowait c then rem_reqid s else insert (seq_no s) (rem_reqid s)) =
      fst ` {x \<in> set (tags ?q). \<not> snd x}"
  proof -
    have "{x \<in> set (tags ?q). \<not> snd x} = (if nowait c then {} else {(seq_no s, False)}) \<union>
        {x \<in> set (tags (comq s)). \<not> snd x}"
      unfolding t by auto
    then show ?thesis using inv by (auto simp: ctx_inv_def image_Un)
  qed
  ultimately show ?thesis using inv by (simp add: ctx_inv_def)
qed

lemma push_cmd_eq: "push_cmd c s = (0, s\<lparr>comq := (comq s)\<lparr>request := request (comq s) @ [c]\<rparr>\<rparr>)"
  by (simp add: push_cmd_def pushRequest_def bq_push_def)

lemma submit_inv:
  assumes inv: "inv_all pend s" and al: "is_alive ops s" and sq: "seq_no s \<noteq> VEO_REQUEST_ID_INVALID"
    and i: "issueRequestID s = (i, s1)" and c: "msgid c = i" "is_vh c = vh_kind (kind c)"
    and p: "push_cmd c (if nowait c then s1\<lparr>rem_reqid := rem_reqid s1 - {i}\<rparr> else s1) = (rv, t)"
  shows "inv_all pend t"
proof -
  have i': "i = seq_no s"
    "s1 = s\<lparr>seq_no := seq_no s + 1, rem_reqid := insert (seq_no s) (rem_reqid s)\<rparr>"
    using i unfolding issue_small [OF sq] by auto
  have ci: "ctx_inv s" and fl: "flight_inv pend s" using inv by (simp_all add: inv_all_def)
  have "seq_no s \<notin> rem_reqid s"
    using ci by (auto simp: ctx_inv_def ids_tags)
  then have t: "t = s\<lparr>seq_no := seq_no s + 1,
      rem_reqid := (if nowait c then rem_reqid s else insert (seq_no s) (rem_reqid s)),
      comq := (comq s)\<lparr>request := request (comq s) @ [c]\<rparr>\<rparr>"
    using p by (auto simp: i' push_cmd_eq split: if_splits)
  have "ctx_inv t" unfolding t using enqueue_inv [OF ci sq] c i' by simp
  moreover have "ctx_state s \<noteq> VEO_STATE_EXIT" using al by (simp add: is_alive_def split: if_splits)
  then have "flight_inv pend t" by (intro flight_inv_run_cong [OF fl]) (simp_all add: t)
  ultimately show ?thesis by (simp add: inv_all_def)
qed

lemma peeked_inv_all:
  assumes "inv_all pend s" "peeked K s t" "env t = env s" "ctx_state t = ctx_state s"
  shows "inv_all pend t"
proof -
  have i: "ctx_inv s" "flight_inv pend s" using assms(1) by (simp_all add: inv_all_def)
  have "request (comq t) = request (comq s)" "inflight (comq t) = inflight (comq s)" "up t = up s"
    using assms(2) unfolding peeked_def by blast+
  then have "flight_inv pend t" by (intro flight_inv_cong [OF i(2)]) (simp_all add: assms(3,4))
  then show ?thesis using peeked_ctx_inv [OF i(1) assms(2)] by (simp add: inv_all_def)
qed

lemma collect_wait_peeked:
  assumes "r \<in> rem_reqid s" "waitCompletion_turn r (comq s) = Some (c, q)"
  shows "peeked {r} s (s\<lparr>comq := q, rem_reqid := rem_reqid s - {r}\<rparr>)"
proof -
  have "map_of (completion (comq s)) r = Some c"
    "q = (comq s)\<lparr>completion := filter (\<lambda>e. fst e \<noteq> r) (completion (comq s))\<rparr>"
    using assms(2) by (auto simp: waitCompletion_turn_def bm_wait_turn_def bm_tryFindNoWait_def
        split: option.splits)
  moreover from this(1) have "r \<in> fst ` set (completion (comq s))"
    by (metis domI dom_map_of_conv_image_fst)
  ultimately show ?thesis using assms(1) by (simp add: peeked_def)
qed

lemma turn_inv_all:
  assumes ok: "urpc_ok ops pend" and inv: "inv_all pend s"
    and t: "progress_turn ops b s = Again t \<or> progress_turn ops b s = Ret rv t"
  shows "inv_all pend t"
proof (cases "ctx_state s = VEO_STATE_EXIT")
  case True
  then show ?thesis using exit_turn [OF ok _ _ True, of b] inv t by (auto simp: inv_all_def)
next
  case False
  then show ?thesis using progress_turn_ok [OF ok _ _ False, of b] inv t by (auto simp: inv_all_def)
qed

lemma ctx_step_inv:
  assumes st: "ctx_step ops pend s t" and ok: "urpc_ok ops pend" and inv: "inv_all pend s"
  shows "inv_all pend t"
  using st
proof cases
  case (submit i s1 c rv)
  then show ?thesis using submit_inv [OF inv] by simp
next
  case (submit_nowait i s1 c rv)
  then show ?thesis using submit_inv [OF inv] by simp
next
  case (turn_again b)
  then show ?thesis using turn_inv_all [OF ok inv] by blast
next
  case (turn_ret b rv)
  then show ?thesis using turn_inv_all [OF ok inv] by blast
next
  case (collect r ret rc v)
  obtain K where "peeked K s t" using peekResult_peeked [OF collect] by blast
  moreover have "env t = env s"
    using collect by (auto simp: peekResult_def split: if_splits prod.splits option.splits)
  ultimately show ?thesis using peeked_inv_all [OF inv] peekResult_state [OF collect] by blast
next
  case (collect_wait r c q)
  then show ?thesis using peeked_inv_all [OF inv collect_wait_peeked [OF collect_wait(1,2)]] by simp
next
  case terminating
  have i: "ctx_inv s" "flight_inv pend s" using inv by (simp_all add: inv_all_def)
  have "ctx_inv t"
    using i(1) by (auto simp: terminating terminate_queue_def ctx_inv_def ids_tags keyed_def kinds_ok_def)
  moreover have "flight_inv pend t"
    by (rule flight_inv_cong [OF i(2)]) (simp_all add: terminating terminate_queue_def)
  ultimately show ?thesis by (simp add: inv_all_def)
next
  case (outside e h b)
  have i: "ctx_inv s" "flight_inv pend s" using inv by (simp_all add: inv_all_def)
  have "ctx_inv t" by (rule ctx_inv_cong [OF i(1)]) (simp_all add: outside)
  moreover have "flight_inv pend t" by (rule flight_inv_cong [OF i(2)]) (simp_all add: outside)
  ultimately show ?thesis by (simp add: inv_all_def)
qed

interpretation ctx_run: step_invariant "ctx_step ops pend" "\<lambda>s. urpc_ok ops pend \<longrightarrow> inv_all pend s"
  for ops :: "'e urpc_ops" and pend
  by unfold_locales (blast intro: ctx_step_inv)

definition fresh_ctx :: "(u64 \<Rightarrow> 'e \<Rightarrow> int set) \<Rightarrow> 'e cst \<Rightarrow> bool" where
  "fresh_ctx pend s \<longleftrightarrow> (\<exists>p main. comq s = comq (new_Context p main) \<and>
     rem_reqid s = rem_reqid (new_Context p main)) \<and> pend (up s) (env s) = {}"

lemma fresh_inv: "fresh_ctx pend s \<Longrightarrow> inv_all pend s"
  by (auto simp: fresh_ctx_def inv_all_def ctx_inv_def flight_inv_def new_Context_def
      new_CommQueue_def ids_def tags_def all_cmds_def keyed_def kinds_ok_def)

lemma reachable_inv:
  "urpc_ok ops pend \<Longrightarrow> fresh_ctx pend s0 \<Longrightarrow> (ctx_step ops pend)\<^sup>*\<^sup>* s0 s \<Longrightarrow> inv_all pend s"
  using ctx_run.steps_invar fresh_inv by blast

section \<open>Operations are sequences of steps\<close>

lemma progress_nolock_steps:
  "progress_nolock ops b s = (Inr rv, t) \<Longrightarrow> (ctx_step ops pend)\<^sup>*\<^sup>* s t"
proof (induction ops b s rule: progress_nolock.induct)
  case (1 ops b s)
  show ?case
  proof (cases "progress_turn ops b s")
    case (Again u)
    then have "(ctx_step ops pend)\<^sup>*\<^sup>* u t"
      using 1 by (simp add: progress_nolock.simps [of ops b s])
    then show ?thesis using ctx_step.turn_again [OF Again, of pend] by (rule converse_rtranclp_into_rtranclp [rotated])
  next
    case (Ret x u)
    then have "u = t" using 1 by (simp add: progress_nolock.simps [of ops b s])
    then show ?thesis using ctx_step.turn_ret [OF Ret, of pend] by blast
  next
    case (Throws e u)
    then show ?thesis using 1 by (simp add: progress_nolock.simps [of ops b s])
  qed
qed

lemma progress_steps:
  assumes "progress ops lk s = (Inr u, t)"
  shows "(ctx_step ops pend)\<^sup>*\<^sup>* s t"
proof (cases "emptyInFlight (comq s) \<and> lk")
  case True
  obtain r v where p: "progress_nolock ops False s = (r, v)" by (metis surj_pair)
  with True assms have "r = Inr (projr r)" "v = t"
    by (cases r; simp add: progress_def)+
  then show ?thesis using progress_nolock_steps p by metis
next
  case False
  then have "t = s" using assms by (auto simp: progress_def split: if_splits)
  then show ?thesis by simp
qed

text \<open>Queueing a command under the next identifier.\<close>

definition enqueue :: "(u64 \<Rightarrow> cmd) \<Rightarrow> 'e cst \<Rightarrow> 'e cst" where
  "enqueue mk s = s\<lparr>seq_no := seq_no s + 1, rem_reqid := insert (seq_no s) (rem_reqid s),
     comq := (comq s)\<lparr>request := request (comq s) @ [mk (seq_no s)]\<rparr>\<rparr>"

lemma enqueue_step:
  assumes "is_alive ops s" "seq_no s \<noteq> VEO_REQUEST_ID_INVALID"
    and "msgid (mk (seq_no s)) = seq_no s" "is_vh (mk (seq_no s)) = vh_kind (kind (mk (seq_no s)))"
    and "\<not> nowait (mk (seq_no s))"
  shows "ctx_step ops pend s (enqueue mk s)"
  by (rule ctx_step.submit [OF assms(1,2) issue_small [OF assms(2)] assms(3-5)])
    (simp add: push_cmd_eq enqueue_def)

lemma submit_closed:
  assumes "seq_no s \<noteq> VEO_REQUEST_ID_INVALID" "is_alive ops s"
  shows "sendBuffAsync ops dst src sz prev s =
      (seq_no s, enqueue (\<lambda>i. new_CommandImpl i (KSendBuff dst src sz prev)) s)"
    "recvBuffAsync ops dst src sz prev s =
      (seq_no s, enqueue (\<lambda>i. new_CommandImpl i (KRecvBuff dst src sz prev)) s)"
    "func \<noteq> 0 \<Longrightarrow> callVHAsync ops func a s =
      (seq_no s, enqueue (\<lambda>i. new_CommandImpl_vh i (KVHFunc func a)) s)"
    "emptyTransferAsync s = (seq_no s, enqueue (\<lambda>i. new_CommandImpl_vh i KNop) s)"
    "addr \<noteq> 0 \<Longrightarrow> simpleCallAsync ops lk addr regs tp n cin cout stk ext cs s =
      bind_st (progress ops lk
        (enqueue (\<lambda>i. new_CommandImpl i (KCall addr regs tp n cin cout stk ext cs)) s))
        (\<lambda>_ t. (Inr (seq_no s), t))"
    "cm \<noteq> URPC_CMD_ACS_PCIRCVSYC \<Longrightarrow> genericAsyncReq ops lk cm its s =
      bind_st (progress ops lk (enqueue (\<lambda>i. new_CommandImpl i (KGeneric cm its)) s))
        (\<lambda>_ t. (Inr (seq_no s), t))"
  using assms
  by (simp_all add: sendBuffAsync_def recvBuffAsync_def callVHAsync_def emptyTransferAsync_def
      simpleCallAsync_def genericAsyncReq_def issue_small push_cmd_eq enqueue_def Let_def)

lemma bind_st_Inr: "bind_st r f = (Inr x, t) \<longleftrightarrow> (\<exists>a s. r = (Inr a, s) \<and> f a s = (Inr x, t))"
  by (cases r; cases "fst r") (auto simp: bind_st_def)

lemma simple_ops_steps:
  assumes "seq_no s \<noteq> VEO_REQUEST_ID_INVALID"
  shows "sendBuffAsync ops dst src sz prev s = (i, t) \<Longrightarrow> (ctx_step ops pend)\<^sup>*\<^sup>* s t"
    and "recvBuffAsync ops dst src sz prev s = (i, t) \<Longrightarrow> (ctx_step ops pend)\<^sup>*\<^sup>* s t"
    and "callVHAsync ops func a s = (i, t) \<Longrightarrow> (ctx_step ops pend)\<^sup>*\<^sup>* s t"
    and "simpleCallAsync ops lk addr regs tp n cin cout stk ext cs s = (Inr i, t) \<Longrightarrow>
      (ctx_step ops pend)\<^sup>*\<^sup>* s t"
proof -
  have st: "ctx_step ops pend s (enqueue mk s)" if "is_alive ops s"
    "mk = (\<lambda>i. new_CommandImpl i k) \<and> \<not> vh_kind k \<or> mk = (\<lambda>i. new_CommandImpl_vh i k) \<and> vh_kind k"
    for mk k
    using that by (intro enqueue_step [OF _ assms]) auto
  have one: "(ctx_step ops pend)\<^sup>*\<^sup>* s t" if "is_alive ops s \<Longrightarrow> t = enqueue mk s"
    "\<not> is_alive ops s \<Longrightarrow> t = s"
    "mk = (\<lambda>i. new_CommandImpl i k) \<and> \<not> vh_kind k \<or> mk = (\<lambda>i. new_CommandImpl_vh i k) \<and> vh_kind k"
    for mk k t
    using st [OF _ that(3)] that(1,2) by (cases "is_alive ops s") auto
  show "sendBuffAsync ops dst src sz prev s = (i, t) \<Longrightarrow> (ctx_step ops pend)\<^sup>*\<^sup>* s t"
    by (rule one [of t "\<lambda>i. new_CommandImpl i (KSendBuff dst src sz prev)" "KSendBuff dst src sz prev"])
      (simp add: submit_closed [OF assms], simp add: sendBuffAsync_def, simp)
  show "recvBuffAsync ops dst src sz prev s = (i, t) \<Longrightarrow> (ctx_step ops pend)\<^sup>*\<^sup>* s t"
    by (rule one [of t "\<lambda>i. new_CommandImpl i (KRecvBuff dst src sz prev)" "KRecvBuff dst src sz prev"])
      (simp add: submit_closed [OF assms], simp add: recvBuffAsync_def, simp)
  show "callVHAsync ops func a s = (i, t) \<Longrightarrow> (ctx_step ops pend)\<^sup>*\<^sup>* s t"
  proof (cases "func = 0")
    case False
    then show "callVHAsync ops func a s = (i, t) \<Longrightarrow> (ctx_step ops pend)\<^sup>*\<^sup>* s t"
      by (intro one [of t "\<lambda>i. new_CommandImpl_vh i (KVHFunc func a)" "KVHFunc func a"])
        (simp add: submit_closed [OF assms], simp add: callVHAsync_def, simp)
  qed (simp add: callVHAsync_def)
  show "(ctx_step ops pend)\<^sup>*\<^sup>* s t"
    if r: "simpleCallAsync ops lk addr regs tp n cin cout stk ext cs s = (Inr i, t)"
  proof (cases "is_alive ops s \<and> addr \<noteq> 0")
    case True
    let ?k = "KCall addr regs tp n cin cout stk ext cs"
    have "\<exists>u. progress ops lk (enqueue (\<lambda>i. new_CommandImpl i ?k) s) = (Inr u, t)"
      using r True by (simp add: submit_closed [OF assms] bind_st_Inr)
    then have "(ctx_step ops pend)\<^sup>*\<^sup>* (enqueue (\<lambda>i. new_CommandImpl i ?k) s) t"
      using progress_steps by blast
    moreover have "ctx_step ops pend s (enqueue (\<lambda>i. new_CommandImpl i ?k) s)"
      using True by (intro st [of _ ?k]) simp_all
    ultimately show ?thesis by (rule converse_rtranclp_into_rtranclp [rotated])
  next
    case False
    then show ?thesis using r by (auto simp: simpleCallAsync_def)
  qed
qed

section \<open>A transport with one slot\<close>

text \<open>
  A concrete transport for the examples: one slot, the VE answers every request at once with an
  acknowledgement, a call with its own address as the result, a new thread with 0. Its state is the reply that waits in
  the slot.
\<close>

definition demo_reply :: "nat \<Rightarrow> item list \<Rightarrow> urpc_mb" where
  "demo_reply cm its =
     (if cm \<in> {URPC_CMD_CALL, URPC_CMD_CALL_STKIN, URPC_CMD_NEWPEER}
      then \<lparr>mb_cmd = URPC_CMD_RESULT, mb_payload = (case its of ItemL a # _ \<Rightarrow> a | _ \<Rightarrow> 0)\<rparr>
      else \<lparr>mb_cmd = URPC_CMD_ACK, mb_payload = 0\<rparr>)"

definition demo_ops :: "urpc_mb option urpc_ops" where
  "demo_ops = \<lparr>
     urpc_generic_send = \<lambda>p cm its e.
       (case e of None \<Rightarrow> (0, Some (demo_reply cm its)) | Some m \<Rightarrow> (- EAGAIN, e)),
     urpc_get_cmd = \<lambda>p e.
       (case e of None \<Rightarrow> ((- 1, \<lparr>mb_cmd = 0, mb_payload = 0\<rparr>), e) | Some m \<Rightarrow> ((0, m), e)),
     set_recv_payload = \<lambda>p m e. replicate (Suc (unat (mb_payload m))) 0,
     urpc_slot_done = \<lambda>p r m e. if r = 0 then None else e,
     urpc_next_send_slot = \<lambda>p e. (case e of None \<Rightarrow> 0 | Some m \<Rightarrow> - 1),
     urpc_max_send_cmd_size = \<lambda>p e. 67108864,
     urpc_unpack_payload = \<lambda>fmt b. (0, [ItemL (of_nat (length b) - 1)]),
     urpc_recv_req_timeout = \<lambda>p r tmo e.
       (map_option (\<lambda>m. (m, replicate (Suc (unat (mb_payload m))) 0)) e, e),
     urpc_receiver_exited = \<lambda>p e. False,
     urpc_receiver_ready = \<lambda>p e. (True, e),
     vh_urpc_peer_create = \<lambda>e. (1, e),
     vh_urpc_child_create = \<lambda>p f v c e. (0, e),
     urpc_wait_peer_attach = \<lambda>p e. (0, e),
     vh_urpc_peer_destroy = \<lambda>p e. (0, e),
     vh_urpc_child_destroy = \<lambda>p e. e,
     urpc_shm_segid = \<lambda>p e. 0,
     urpc_child_pid = \<lambda>p e. 1,
     wait_child = \<lambda>p e. e,
     waitpid_exited = \<lambda>e. (False, e),
     pthread_create_ok = \<lambda>e. (True, e),
     vh_call = \<lambda>f a m e. (f, m, e),
     op_new = \<lambda>h. 0x1000,
     align8b = \<lambda>x. x,
     getenv_var = \<lambda>v. None,
     errno_val = \<lambda>e. 0\<rparr>"

definition demo_pend :: "u64 \<Rightarrow> urpc_mb option \<Rightarrow> int set" where
  "demo_pend p e = (case e of None \<Rightarrow> {} | Some m \<Rightarrow> {0})"

lemma demo_urpc_ok: "urpc_ok demo_ops demo_pend"
  by (auto simp: urpc_ok_def demo_ops_def demo_pend_def EAGAIN_def split: option.splits)

definition demo_host :: host where
  "demo_host = \<lparr>vhmem = (\<lambda>_. 0), heap = {}\<rparr>"

definition demo_ctx :: "urpc_mb option cst" where
  "demo_ctx = ctx.extend (new_Context 1 False) \<lparr>env = None, hst = demo_host, proc_survival = True\<rparr>"

text \<open>Two VE calls and, between them, a function to run on the VH.\<close>

definition demo_busy :: "urpc_mb option cst" where
  "demo_busy = enqueue (\<lambda>i. new_CommandImpl i (KCall 7 [] 0 0 False False 0 1 None))
     (enqueue (\<lambda>i. new_CommandImpl_vh i (KVHFunc 5 0))
       (enqueue (\<lambda>i. new_CommandImpl i (KCall 9 [] 0 0 False False 0 1 None)) demo_ctx))"

lemma demo_fresh: "fresh_ctx demo_pend demo_ctx"
  by (auto simp: fresh_ctx_def demo_ctx_def demo_pend_def ctx.defs)

lemma demo_alive: "ctx_state s = VEO_STATE_UNKNOWN \<Longrightarrow> is_alive demo_ops s"
  by (simp add: is_alive_def demo_ops_def)

lemma demo_step:
  assumes "(ctx_step demo_ops demo_pend)\<^sup>*\<^sup>* demo_ctx s" "ctx_state s = VEO_STATE_UNKNOWN"
    and "seq_no s \<noteq> VEO_REQUEST_ID_INVALID"
    and "msgid (mk (seq_no s)) = seq_no s" "is_vh (mk (seq_no s)) = vh_kind (kind (mk (seq_no s)))"
    and "\<not> nowait (mk (seq_no s))"
  shows "(ctx_step demo_ops demo_pend)\<^sup>*\<^sup>* demo_ctx (enqueue mk s)"
  by (rule rtranclp.rtrancl_into_rtrancl [OF assms(1)], rule enqueue_step)
    (simp_all add: assms demo_alive)

lemma demo_busy_reached: "(ctx_step demo_ops demo_pend)\<^sup>*\<^sup>* demo_ctx demo_busy"
  unfolding demo_busy_def
  by (intro demo_step rtranclp.rtrancl_refl)
    (simp_all add: enqueue_def demo_ctx_def ctx.defs new_Context_def new_CommandImpl_def
      new_CommandImpl_vh_def VEO_REQUEST_ID_INVALID_def)

section \<open>Properties\<close>





text \<open>
  C30. After the context gave up and \<^verbatim>\<open>cancelAll\<close> emptied its queues, the reply to a request that
  was in flight makes \<^verbatim>\<open>_progress_nolock\<close> throw a \<^verbatim>\<open>VEOException\<close>, whatever the command was.
\<close>

theorem late_reply_throws:
  assumes "comq_wf (comq s)" "urpc_get_cmd ops (up s) (env s) = ((req, m), e)" "0 \<le> req"
  shows "progress_nolock ops b (s\<lparr>ctx_state := VEO_STATE_EXIT, comq := cancelAll (comq s)\<rparr>) =
    (Inl (VEOException (to_int32 req)),
     s\<lparr>ctx_state := VEO_STATE_EXIT, comq := cancelAll (comq s), env := e\<rparr>)"
proof -
  have "inflight (cancelAll (comq s)) = []" using cancelAll_closed [OF assms(1)] by simp
  then have "popInFlight req (cancelAll (comq s)) = (None, cancelAll (comq s))"
    by (simp add: popInFlight_def bm_tryFindNoWait_def)
  then show ?thesis using assms(2,3)
    by (subst progress_nolock.simps) (simp add: progress_turn_def on_reply_def)
qed

theorem late_reply_throws_witness:
  "fst (progress_nolock demo_ops True
    (demo_ctx\<lparr>env := Some (demo_reply 12 []), ctx_state := VEO_STATE_EXIT,
       comq := cancelAll (comq demo_ctx)\<rparr>)) = Inl (VEOException 0)"
proof -
  have "comq_wf (comq demo_ctx)"
    by (simp add: demo_ctx_def ctx.defs new_Context_def new_CommQueue_def comq_wf_def ids_def)
  then show ?thesis
    using late_reply_throws [of "demo_ctx\<lparr>env := Some (demo_reply 12 [])\<rparr>" demo_ops 0
        "demo_reply 12 []" "Some (demo_reply 12 [])" True]
    by (simp add: demo_ops_def to_int32_def)
qed

text \<open>A turn that sends does not throw: the handlers of VE commands store the request they are in flight under.\<close>

lemma submit_ve_no_throw:
  assumes "\<not> vh_kind (kind c)"
  shows "submit_ve ops c s \<noteq> Throws e t"
proof -
  obtain cm its trunc where h: "run_handler ops (kind c) c s =
      (let (r, e) = urpc_generic_send ops (up s) cm its (env s);
           (rv, c') = submitted (if trunc then to_int32 r else r) c in (Inr rv, c', s\<lparr>env := e\<rparr>))"
    using ve_handler_sends [OF assms] by blast
  obtain r e' where g: "urpc_generic_send ops (up s) cm its (env s) = (r, e')" by (metis surj_pair)
  obtain rv d where d: "submitted (if trunc then to_int32 r else r) c = (rv, d)" by (metis surj_pair)
  have "rv = 0 \<Longrightarrow> urpc_req d \<noteq> None" using submitted_cases [OF d] by force
  moreover have "idle_turn ops u \<noteq> Throws e t" for u by (simp add: idle_turn_def Let_def split: prod.splits)
  ultimately show ?thesis
    by (auto simp: submit_ve_def h g d pushInFlight_def split: option.splits)
qed

lemma invalid_not_issued: "ctx_inv s \<Longrightarrow> VEO_REQUEST_ID_INVALID \<notin> rem_reqid s"
proof
  assume "ctx_inv s" "VEO_REQUEST_ID_INVALID \<in> rem_reqid s"
  then have "VEO_REQUEST_ID_INVALID < seq_no s" by (auto simp: ctx_inv_def ids_tags)
  then show False by (simp add: VEO_REQUEST_ID_INVALID_def word_not_simps)
qed



end
