(* ===== verification/Context_Progress.thy ===== *)
theory Context_Progress
  imports Context_Run
begin

text \<open>
  What the progress engine does over time: commands leave the request queue in order, a VH command
  runs only when everything submitted before it has finished, and with a transport that answers a
  wait returns.
\<close>

section \<open>What one turn does to the queues\<close>

text \<open>
  The outcomes of a turn as they are seen in the queues: a reply was taken, a VE command was sent,
  a VH command was executed with nothing in flight; or the turn ended the loop: the context gave
  up, or nothing moved, or a command whose submission failed was completed.
\<close>

inductive moved :: "bool \<Rightarrow> 'e cst \<Rightarrow> 'e cst \<Rightarrow> bool" where
  reply: "request (comq t) = request (comq s) \<Longrightarrow>
    set (inflight (comq t)) \<subseteq> set (inflight (comq s)) \<Longrightarrow>
    length (inflight (comq t)) < length (inflight (comq s)) \<Longrightarrow> moved b s t"
| sent: "request (comq s) = c # request (comq t) \<Longrightarrow> \<not> is_vh c \<Longrightarrow> same_cmd c d \<Longrightarrow>
    inflight (comq t) = (k, d) # inflight (comq s) \<Longrightarrow> moved b s t"
| executed: "request (comq s) = c # request (comq t) \<Longrightarrow> is_vh c \<Longrightarrow> b \<Longrightarrow>
    inflight (comq s) = [] \<Longrightarrow> inflight (comq t) = [] \<Longrightarrow> moved b s t"

inductive stopped :: "'e cst \<Rightarrow> 'e cst \<Rightarrow> bool" where
  gave_up: "ctx_state t = VEO_STATE_EXIT \<Longrightarrow> request (comq t) = [] \<Longrightarrow> inflight (comq t) = [] \<Longrightarrow>
    stopped s t"
| stayed: "request (comq t) = request (comq s) \<Longrightarrow> inflight (comq t) = inflight (comq s) \<Longrightarrow>
    ctx_state t = ctx_state s \<Longrightarrow> stopped s t"
| failed: "request (comq s) = c # request (comq t) \<Longrightarrow> \<not> is_vh c \<Longrightarrow>
    inflight (comq t) = inflight (comq s) \<Longrightarrow> ctx_state t = ctx_state s \<Longrightarrow> stopped s t"

lemma idle_stopped:
  assumes "ctx_inv s" "idle_turn ops s = Ret rv t"
  shows "(ctx_state t = VEO_STATE_EXIT \<and> request (comq t) = [] \<and> inflight (comq t) = []) \<or>
    (comq t = comq s \<and> ctx_state t = ctx_state s)"
  using assms cancelAll_empty [OF assms(1)]
  by (auto simp: idle_turn_def Let_def split: if_splits prod.splits)

lemma pop_request_Some:
  "tryPopRequest q = (Some c, p) \<Longrightarrow> request q = c # request p \<and> inflight p = inflight q"
  by (cases "request q") (auto simp: tryPopRequest_def)

lemma on_reply_moved:
  assumes "ctx_inv s" "on_reply ops req m s = Again t"
  shows "moved b s t"
proof -
  obtain c q where pop: "popInFlight req (comq s) = (Some c, q)"
    using assms(2) by (auto simp: on_reply_def split: prod.splits option.splits)
  note p = pop_inflight_held [OF assms(1) pop]
  obtain res d u where u: "run_unpack ops (kind c) c m (set_recv_payload ops (up s) m (env s))
      (s\<lparr>comq := q\<rparr>) = (res, d, u)" by (metis prod_cases3)
  have uq: "request (comq u) = request q" "inflight (comq u) = inflight q"
    using run_unpack_frame [OF u] by (auto simp: peeked_def)
  have t: "request (comq t) = request (comq u)" "inflight (comq t) = inflight (comq u)"
    using assms(2) by (auto simp: on_reply_def pop u Let_def pushCompletion_def
        split: sum.splits if_splits)
  have "work_left t < work_left s" using on_reply_shrinks [OF assms(2)] .
  then show ?thesis using t uq p by (intro moved.reply) (auto simp: work_left_def)
qed

lemma submit_vh_moved:
  assumes pop: "tryPopRequest (comq s) = (Some c, q)" and vh: "is_vh c"
    and t: "submit_vh ops b c (s\<lparr>comq := q\<rparr>) = Again t"
  shows "moved b s t"
proof -
  note q = pop_request_Some [OF pop]
  obtain res d u where u: "run_handler ops (kind c) c (s\<lparr>comq := q\<rparr>) = (res, d, u)" by (metis prod_cases3)
  have uq: "request (comq u) = request q" "inflight (comq u) = inflight q"
    using run_handler_frame [OF u] by (auto simp: peeked_def)
  have "b" "inflight q = []" "t = u\<lparr>comq := pushCompletion d (comq u)\<rparr>"
    using t by (auto simp: submit_vh_def u emptyInFlight_def split: if_splits sum.splits)
  then show ?thesis using q uq vh by (intro moved.executed [of _ c]) (auto simp: pushCompletion_def)
qed

lemma submit_ve_moved:
  assumes ok: "urpc_ok ops pend" and i: "ctx_inv s" "flight_inv pend s" "ctx_state s \<noteq> VEO_STATE_EXIT"
    and pop: "tryPopRequest (comq s) = (Some c, q)" and vh: "\<not> is_vh c"
  shows "submit_ve ops c (s\<lparr>comq := q\<rparr>) = Again t \<Longrightarrow> moved b s t"
    and "submit_ve ops c (s\<lparr>comq := q\<rparr>) = Ret rv t \<Longrightarrow> stopped s t"
proof -
  let ?s = "s\<lparr>comq := q\<rparr>"
  note q = pop_request_Some [OF pop]
  have h: "held c ?s" using pop_request_held [OF i(1) pop] .
  then have k: "\<not> vh_kind (kind c)" using vh by (simp add: held_def ctx_inv_def kinds_ok_def)
  obtain x d e r where hd: "run_handler ops (kind c) c ?s = (Inr x, d, ?s\<lparr>env := e\<rparr>)"
    and d: "same_cmd c d"
    and zero: "x = 0 \<Longrightarrow> urpc_req d = Some r \<and> 0 \<le> r \<and> r < 2 ^ 31 \<and> r \<notin> pend (up ?s) (env ?s) \<and>
       pend (up ?s) e = insert r (pend (up ?s) (env ?s))"
    and "x \<noteq> 0 \<Longrightarrow> pend (up ?s) e = pend (up ?s) (env ?s)"
    using ve_handler [OF ok k] by blast
  have dc: "d = c" if "x = - EAGAIN"
  proof -
    obtain cm its trunc where "run_handler ops (kind c) c ?s =
      (let (r, e) = urpc_generic_send ops (up ?s) cm its (env ?s);
         (rv, c') = submitted (if trunc then to_int32 r else r) c in (Inr rv, c', ?s\<lparr>env := e\<rparr>))"
      using ve_handler_sends [OF k] by blast
    then show ?thesis using hd that
      by (auto simp: submitted_def EAGAIN_def Let_def split: prod.splits if_splits)
  qed
  show "moved b s t" if t: "submit_ve ops c ?s = Again t"
  proof -
    have "x = 0" using t by (auto simp: submit_ve_def hd split: if_splits)
    have fl: "fst ` set (inflight q) = of_int ` pend (up s) (env s)" "pend (up s) (env s) \<subseteq> {0..<2 ^ 31}"
      using i(2) q flight_inv_run [OF i(3)] by auto
    note z = zero [OF \<open>x = 0\<close>]
    have "of_int r \<notin> (of_int ` pend (up s) (env s) :: u64 set)"
      using z fl inj_onD [OF of_int_small_inj, of r] by auto
    then have "bm_insert_key (of_int r) d (inflight q) = (of_int r, d) # inflight q"
      using fl by (intro bm_insert_fresh) simp
    then have "t = ?s\<lparr>env := e, comq := q\<lparr>inflight := (of_int r, d) # inflight q\<rparr>\<rparr>"
      using t z by (simp add: submit_ve_def hd \<open>x = 0\<close> pushInFlight_def)
    then show ?thesis using q vh d by (intro moved.sent [of _ c _ d "of_int r"]) auto
  qed
  show "stopped s t" if t: "submit_ve ops c ?s = Ret rv t"
  proof -
    have x: "x \<noteq> 0"
    proof
      assume "x = 0"
      then show False using t zero by (simp add: submit_ve_def hd pushInFlight_def)
    qed
    have hs: "held d (?s\<lparr>env := e\<rparr>)" using held_same [OF peeked_held [OF h peeked_empty(2)] d] .
    show ?thesis
    proof (cases "x = - EAGAIN")
      case True
      let ?u = "?s\<lparr>env := e, comq := pushRequestFront d q\<rparr>"
      have "idle_turn ops ?u = Ret rv t" using t x True by (simp add: submit_ve_def hd)
      moreover have "ctx_inv ?u" using held_pushFront [OF hs] by simp
      ultimately show ?thesis using idle_stopped [of ?u ops rv t] q dc [OF True]
        by (auto intro: stopped.gave_up stopped.stayed simp: pushRequestFront_def bq_push_front_def)
    next
      case False
      let ?d = "setResult (Some (of_int x)) (Some VEO_COMMAND_ERROR) d"
      let ?u = "?s\<lparr>env := e, comq := pushCompletion ?d q\<rparr>"
      have "idle_turn ops ?u = Ret rv t" using t x False by (simp add: submit_ve_def hd)
      moreover have "ctx_inv ?u" using held_complete [OF hs, of ?d] by simp
      ultimately show ?thesis using idle_stopped [of ?u ops rv t] q vh
        by (auto intro: stopped.gave_up stopped.failed simp: pushCompletion_def)
    qed
  qed
qed

lemma progress_turn_moves:
  assumes ok: "urpc_ok ops pend" and i: "ctx_inv s" "flight_inv pend s" "ctx_state s \<noteq> VEO_STATE_EXIT"
  shows "progress_turn ops b s = Again t \<Longrightarrow> moved b s t"
    and "progress_turn ops b s = Ret rv t \<Longrightarrow> stopped s t"
proof -
  obtain req m e where g: "urpc_get_cmd ops (up s) (env s) = ((req, m), e)" by (metis surj_pair)
  note get = urpc_ok_get [OF ok g]
  let ?s = "s\<lparr>env := e\<rparr>"
  have i1: "ctx_inv ?s" by (rule ctx_inv_cong [OF i(1)]) simp_all
  have i2: "flight_inv pend ?s" by (rule flight_inv_cong [OF i(2)]) (simp_all add: get)
  have i3: "ctx_state ?s \<noteq> VEO_STATE_EXIT" using i by simp
  have mv: "moved b s t" if "moved b ?s t" for t using that by (auto simp: moved.simps)
  have sp: "stopped s t" if "stopped ?s t" for t using that by (auto simp: stopped.simps)
  have idle: "stopped s t" if "idle_turn ops (?s\<lparr>comq := comq ?s\<rparr>) = Ret rv t" for rv t
    using idle_stopped [of "?s\<lparr>comq := comq ?s\<rparr>", OF ctx_inv_cong [OF i1] that]
    by (auto intro: stopped.gave_up stopped.stayed)
  have pop0: "request (comq s) = [] \<Longrightarrow> tryPopRequest (comq ?s) = (None, comq ?s)"
    by (cases "comq s") (simp add: tryPopRequest_def)
  have reply_ret: "stopped s t" if r: "on_reply ops req m ?s = Ret rv t" and req: "0 \<le> req" for rv t
  proof -
    have "flight_inv pend t" using on_reply_ok [OF ok i1 i2 i3, of req m] get(2) [OF req] r get(1) by simp
    moreover have "ctx_state t = VEO_STATE_EXIT"
      using r by (auto simp: on_reply_def Let_def split: prod.splits option.splits sum.splits if_splits)
    ultimately show ?thesis by (intro stopped.gave_up) (simp_all add: flight_inv_def)
  qed
  show "moved b s t" if t: "progress_turn ops b s = Again t"
  proof (cases "req \<ge> 0")
    case True
    then show ?thesis using t on_reply_moved [OF i1] by (intro mv) (simp add: progress_turn_def g)
  next
    case False
    obtain c q where pop: "tryPopRequest (comq ?s) = (Some c, q)"
      using t g False by (auto simp: progress_turn_def Let_def split: if_splits prod.splits option.splits)
    show ?thesis
      using t False pop submit_vh_moved [OF pop] submit_ve_moved(1) [OF ok i1 i2 i3 pop]
      by (intro mv) (auto simp: progress_turn_def g Let_def split: if_splits)
  qed
  show "stopped s t" if t: "progress_turn ops b s = Ret rv t"
  proof -
    consider "req \<ge> 0" | "req < 0" "urpc_next_send_slot ops (up ?s) (env ?s) < 0"
      | "req < 0" "\<not> urpc_next_send_slot ops (up ?s) (env ?s) < 0" by linarith
    then show ?thesis
    proof cases
      case 1
      then show ?thesis using t by (intro reply_ret) (simp_all add: progress_turn_def g)
    next
      case 2
      then have "t = ?s" using t by (simp add: progress_turn_def g)
      then show ?thesis by (intro stopped.stayed) simp_all
    next
      case 3
      show ?thesis
      proof (cases "request (comq s)")
        case Nil
        then show ?thesis using t 3 pop0 by (intro idle) (simp add: progress_turn_def g Let_def)
      next
        case (Cons c r)
        let ?q = "(comq ?s)\<lparr>request := r\<rparr>"
        have pop: "tryPopRequest (comq ?s) = (Some c, ?q)" using Cons by (simp add: tryPopRequest_def)
        have u: "progress_turn ops b s = (if is_vh c then submit_vh ops b c (?s\<lparr>comq := ?q\<rparr>)
            else submit_ve ops c (?s\<lparr>comq := ?q\<rparr>))"
          using 3 pop by (simp add: progress_turn_def g Let_def)
        show ?thesis
        proof (cases "is_vh c")
          case True
          then have "t = ?s\<lparr>comq := pushRequestFront c ?q\<rparr>"
            using t u by (auto simp: submit_vh_def split: if_splits prod.splits sum.splits)
          then show ?thesis using Cons
            by (intro stopped.stayed) (simp_all add: pushRequestFront_def bq_push_front_def)
        next
          case False
          then show ?thesis
            using t u submit_ve_moved(2) [OF ok i1 i2 i3 pop False] by (intro sp) simp
        qed
      qed
    qed
  qed
qed

text \<open>Identifiers never come back: what is queued or in flight after a turn was so before.\<close>

definition active :: "'k comm_queue \<Rightarrow> u64 set" where
  "active q = msgid ` (set (request q) \<union> snd ` set (inflight q))"

lemma moved_active: "moved b s t \<Longrightarrow> active (comq t) \<subseteq> active (comq s)"
  by (erule moved.cases) (auto simp: active_def same_cmd_def)

lemma stopped_active: "stopped s t \<Longrightarrow> active (comq t) \<subseteq> active (comq s)"
  by (erule stopped.cases) (auto simp: active_def)

lemma moved_fifo: "moved b s t \<Longrightarrow> \<exists>k. request (comq t) = drop k (request (comq s))"
  by (erule moved.cases) (metis drop0, metis drop_0 drop_Suc_Cons, metis drop_0 drop_Suc_Cons)

lemma stopped_fifo: "stopped s t \<Longrightarrow> \<exists>k. request (comq t) = drop k (request (comq s))"
  by (erule stopped.cases)
    (metis drop_all order_refl, metis drop0, metis drop_0 drop_Suc_Cons)

lemma progress_nolock_rel:
  assumes "urpc_ok ops pend" "ctx_inv s" "flight_inv pend s" "ctx_state s \<noteq> VEO_STATE_EXIT"
    and "progress_nolock ops b s = (Inr rv, t)"
    and trans: "\<And>x y z :: 'e cst. R x y \<Longrightarrow> R y z \<Longrightarrow> R x z"
    and mv: "\<And>x y. moved b x y \<Longrightarrow> R x y" and st: "\<And>x y. stopped x y \<Longrightarrow> R x y"
  shows "R s t"
  using assms(1-5) mv
proof (induction ops b s rule: progress_nolock.induct)
  case (1 ops b s)
  note turn = progress_turn_ok [OF "1.prems"(1-4), of b]
  note moves = progress_turn_moves [OF "1.prems"(1-4), of b]
  have r: "(Inr rv, t) = (case progress_turn ops b s of Again u \<Rightarrow> progress_nolock ops b u
      | Ret rv u \<Rightarrow> (Inr rv, u) | Throws e u \<Rightarrow> (Inl e, u))"
    using "1.prems"(5) by (simp add: progress_nolock.simps [of ops b s])
  show ?case
  proof (cases "progress_turn ops b s")
    case (Again u)
    with turn have u: "ctx_inv u" "flight_inv pend u" "ctx_state u \<noteq> VEO_STATE_EXIT" by simp_all
    have "R u t" using "1.IH" [OF Again "1.prems"(1) u _ "1.prems"(6)] r Again by simp
    then show ?thesis using trans "1.prems"(6) [OF moves(1) [OF Again]] by blast
  next
    case (Ret x u)
    then show ?thesis using r st [OF moves(2) [OF Ret]] by simp
  qed (use r in simp)
qed

lemma progress_nolock_fifo:
  assumes "urpc_ok ops pend" "ctx_inv s" "flight_inv pend s" "ctx_state s \<noteq> VEO_STATE_EXIT"
    and "progress_nolock ops b s = (Inr rv, t)"
  shows "\<exists>k. request (comq t) = drop k (request (comq s))"
    and "active (comq t) \<subseteq> active (comq s)"
proof -
  show "\<exists>k. request (comq t) = drop k (request (comq s))"
    by (rule progress_nolock_rel [OF assms,
          where R = "\<lambda>x y. \<exists>k. request (comq y) = drop k (request (comq x))"])
      (auto, erule moved_fifo, erule stopped_fifo)
  show "active (comq t) \<subseteq> active (comq s)"
    by (rule progress_nolock_rel [OF assms, where R = "\<lambda>x y. active (comq y) \<subseteq> active (comq x)"])
      (erule (1) order_trans [rotated], erule moved_active, erule stopped_active)
qed

lemma progress_nolock_barrier:
  assumes "urpc_ok ops pend" "ctx_inv s" "flight_inv pend s" "ctx_state s \<noteq> VEO_STATE_EXIT"
    and "progress_nolock ops b s = (Inr rv, t)" "ctx_state t \<noteq> VEO_STATE_EXIT"
    and "request (comq s) = xs @ v # ys" "is_vh v" "length (request (comq t)) \<le> length ys"
  shows "msgid ` (set xs \<union> snd ` set (inflight (comq s))) \<inter> active (comq t) = {}"
  using assms
proof (induction ops b s arbitrary: xs rule: progress_nolock.induct)
  case (1 ops b s)
  note turn = progress_turn_ok [OF "1.prems"(1-4), of b]
  note moves = progress_turn_moves [OF "1.prems"(1-4), of b]
  have r: "(Inr rv, t) = (case progress_turn ops b s of Again u \<Rightarrow> progress_nolock ops b u
      | Ret rv u \<Rightarrow> (Inr rv, u) | Throws e u \<Rightarrow> (Inl e, u))"
    using "1.prems"(5) by (simp add: progress_nolock.simps [of ops b s])
  have dist: "distinct (ids (comq s))" using "1.prems"(2) by (simp add: ctx_inv_def)
  show ?case
  proof (cases "progress_turn ops b s")
    case (Again u)
    with turn have u: "ctx_inv u" "flight_inv pend u" "ctx_state u \<noteq> VEO_STATE_EXIT" by simp_all
    have run: "progress_nolock ops b u = (Inr rv, t)" using r Again by simp
    have act: "active (comq t) \<subseteq> active (comq u)" using progress_nolock_fifo(2) [OF "1.prems"(1) u run] .
    note IH = "1.IH" [OF Again "1.prems"(1) u run "1.prems"(6) _ "1.prems"(8,9)]
    show ?thesis using moves(1) [OF Again]
    proof cases
      case reply
      have "msgid ` (set xs \<union> snd ` set (inflight (comq u))) \<inter> active (comq t) = {}"
        using IH [of xs] reply "1.prems"(7) by simp
      moreover have "msgid c \<notin> active (comq t)" if c: "c \<in> snd ` set (inflight (comq s))"
        "msgid c \<notin> msgid ` snd ` set (inflight (comq u))" for c
      proof -
        have "msgid c \<notin> msgid ` set (request (comq u))"
          using dist c(1) reply(1) by (auto simp: ids_def)
        then have "msgid c \<notin> active (comq u)" using c(2) by (simp add: active_def image_Un)
        then show ?thesis using act by blast
      qed
      ultimately show ?thesis by blast
    next
      case (sent c d k)
      then obtain xs' where xs: "xs = c # xs'" using "1.prems"(7,8) by (cases xs) auto
      then have "msgid ` (set xs' \<union> snd ` set (inflight (comq u))) \<inter> active (comq t) = {}"
        using IH [of xs'] sent "1.prems"(7) by simp
      then show ?thesis using sent by (auto simp: xs same_cmd_def)
    next
      case (executed c)
      show ?thesis
      proof (cases xs)
        case Nil
        then show ?thesis using executed by simp
      next
        case (Cons x xs')
        then have "msgid ` set xs' \<inter> active (comq t) = {}" "x = c"
          using IH [of xs'] executed "1.prems"(7) by auto
        moreover have "msgid c \<notin> active (comq u)"
          using dist executed by (auto simp: active_def ids_def)
        ultimately show ?thesis using executed act Cons by auto
      qed
    qed
  next
    case (Ret x u)
    then have "stopped s t" using r moves(2) by simp
    then show ?thesis
    proof cases
      case gave_up
      then show ?thesis using "1.prems"(6) by simp
    next
      case stayed
      then show ?thesis using "1.prems"(7,9) by simp
    next
      case (failed c)
      then have "length (request (comq s)) \<le> Suc (length ys)" using "1.prems"(9) by simp
      then have "xs = []" using "1.prems"(7) by simp
      then show ?thesis using failed "1.prems"(7,8) by simp
    qed
  qed (use r in simp)
qed

section \<open>Properties\<close>

lemma reachable_parts:
  assumes "urpc_ok ops pend" "fresh_ctx pend s0" "(ctx_step ops pend)\<^sup>*\<^sup>* s0 s"
  shows "ctx_inv s" "flight_inv pend s"
  using reachable_inv [OF assms] by (simp_all add: inv_all_def)

lemma demo_run:
  "progress_nolock demo_ops True demo_busy = (Inr 0, snd (progress_nolock demo_ops True demo_busy))"
  "request (comq (snd (progress_nolock demo_ops True demo_busy))) = []"
  "map (\<lambda>e. (fst e, status (snd e))) (completion (comq (snd (progress_nolock demo_ops True demo_busy)))) =
    [(2, Some VEO_COMMAND_OK), (1, Some VEO_COMMAND_OK), (0, Some VEO_COMMAND_OK)]"
  "ctx_state (snd (progress_nolock demo_ops True demo_busy)) = VEO_STATE_UNKNOWN"
proof -
  have "fst (progress_nolock demo_ops True demo_busy) = Inr 0" by code_simp
  then show "progress_nolock demo_ops True demo_busy = (Inr 0, snd (progress_nolock demo_ops True demo_busy))"
    by (metis prod.collapse)
qed code_simp+

text \<open>
  C28. Commands leave the request queue in the order in which they were submitted: what a call of
  \<^verbatim>\<open>_progress_nolock\<close> leaves waiting is an end piece of what waited before, also when a VH command
  was put back at the front, and no command comes back to a queue it has left.
\<close>

theorem requests_in_order:
  assumes "urpc_ok ops pend" "fresh_ctx pend s0" "(ctx_step ops pend)\<^sup>*\<^sup>* s0 s"
    and "ctx_state s \<noteq> VEO_STATE_EXIT" "progress_nolock ops b s = (Inr rv, t)"
  shows "(\<exists>k. request (comq t) = drop k (request (comq s))) \<and> active (comq t) \<subseteq> active (comq s)"
  using progress_nolock_fifo [OF assms(1) reachable_parts [OF assms(1-3)] assms(4,5)] by blast

theorem requests_in_order_witness:
  "length (request (comq demo_busy)) = 3 \<and>
    (\<exists>k. request (comq (snd (progress_nolock demo_ops False demo_busy))) =
      drop k (request (comq demo_busy))) \<and>
    map msgid (request (comq (snd (progress_nolock demo_ops False demo_busy)))) = [1, 2]"
proof -
  have "fst (progress_nolock demo_ops False demo_busy) = Inr 1" "ctx_state demo_busy \<noteq> VEO_STATE_EXIT"
    "length (request (comq demo_busy)) = 3"
    "map msgid (request (comq (snd (progress_nolock demo_ops False demo_busy)))) = [1, 2]"
    by code_simp+
  with requests_in_order [OF demo_urpc_ok demo_fresh demo_busy_reached, of False 1
      "snd (progress_nolock demo_ops False demo_busy)"]
  show ?thesis by (metis prod.collapse)
qed

text \<open>
  C27. A command that runs on the VH is a barrier: when it has left the request queue of a context
  that goes on, every command submitted before it, and every command that was in flight, has
  finished; and it leaves the queue only in a call that may execute VH commands.
\<close>

theorem vh_command_is_barrier:
  assumes "urpc_ok ops pend" "fresh_ctx pend s0" "(ctx_step ops pend)\<^sup>*\<^sup>* s0 s"
    and "ctx_state s \<noteq> VEO_STATE_EXIT" "progress_nolock ops b s = (Inr rv, t)"
    and "ctx_state t \<noteq> VEO_STATE_EXIT"
    and "request (comq s) = xs @ v # ys" "is_vh v" "length (request (comq t)) \<le> length ys"
  shows "msgid ` (set xs \<union> snd ` set (inflight (comq s))) \<inter> active (comq t) = {}"
  using progress_nolock_barrier [OF assms(1) reachable_parts [OF assms(1-3)] assms(4-)] .

theorem vh_command_is_barrier_witness:
  "is_vh (request (comq demo_busy) ! 1) \<and>
    msgid (request (comq demo_busy) ! 0) \<notin> active (comq (snd (progress_nolock demo_ops True demo_busy)))"
proof -
  let ?r = "request (comq demo_busy)"
  have v: "is_vh (?r ! 1)" "length ?r = 3" "ctx_state demo_busy \<noteq> VEO_STATE_EXIT" by code_simp+
  then have r: "?r = [?r ! 0] @ ?r ! 1 # drop 2 ?r"
    by (cases ?r rule: remdups_adj.cases) (auto simp: numeral_2_eq_2)
  have "msgid ` (set [?r ! 0] \<union> snd ` set (inflight (comq demo_busy))) \<inter>
      active (comq (snd (progress_nolock demo_ops True demo_busy))) = {}"
    by (rule vh_command_is_barrier [OF demo_urpc_ok demo_fresh demo_busy_reached v(3) demo_run(1) _ r v(1)])
      (simp_all add: demo_run(2,4))
  then show ?thesis using v(1) by auto
qed

end
