(* ===== verification/Context_Wait.thy ===== *)
theory Context_Wait
  imports Context_Progress
begin

text \<open>
  Waiting for a result. The loops of \<^verbatim>\<open>callWaitResult\<close> end when the transport answers: the work
  that is left shrinks with every turn that moves a command, and the number of looks at the
  mailbox that can still fail shrinks with every other turn.
\<close>

section \<open>Results that stay available\<close>

text \<open>The requests whose results a command function collects on its own.\<close>

fun refs :: "cmd_kind \<Rightarrow> u64 set" where
  "refs (KLargeCall w cl r stk cout cs) = {w, cl, r}"
| "refs (KSendBuff dst src sz prev) = {prev}"
| "refs (KRecvBuff dst src sz prev) = {prev}"
| "refs _ = {}"

abbreviation rem_kept :: "u64 set \<Rightarrow> 'e cst \<Rightarrow> 'e cst \<Rightarrow> bool" where
  "rem_kept X s t \<equiv> rem_reqid s - X \<subseteq> rem_reqid t \<and> rem_reqid t \<subseteq> rem_reqid s"

lemma peekResult_rem: "peekResult r ret s = (rc, v, t) \<Longrightarrow> rem_kept {r} s t"
  by (auto simp: peekResult_def split: if_splits prod.splits option.splits)

lemma chain_result_rem: "chain_result prev s = (v, rc, t) \<Longrightarrow> rem_kept {prev} s t"
  by (auto simp: chain_result_def Let_def split: if_splits prod.splits dest!: peekResult_rem)

lemma peek_if_valid_rem: "peek_if_valid r ret s = (rc, v, t) \<Longrightarrow> rem_kept {r} s t"
  by (auto simp: peek_if_valid_def split: if_splits dest!: peekResult_rem)

lemma run_unpack_rem:
  assumes "run_unpack ops k c m payload s = (r, d, t)"
  shows "rem_kept (refs k) s t"
proof (cases k)
  case (KSendBuff dst src sz prev)
  then show ?thesis using assms
    by (auto simp: unpack_sendbuff_def Let_def split: if_splits prod.splits dest!: chain_result_rem)
next
  case (KRecvBuff dst src sz prev)
  then show ?thesis using assms
    by (auto simp: unpack_recvbuff_def Let_def split: if_splits prod.splits option.splits
        dest!: chain_result_rem)
next
  case (KGeneric cm its)
  then show ?thesis using assms
    by (auto simp: unpack_generic_def split: if_splits prod.splits sum.splits)
next
  case (KCall addr regs tp sz cin cout stk ext cs)
  then show ?thesis using assms
    by (auto simp: unpack_call_def Let_def split: if_splits prod.splits sum.splits)
qed (use assms in simp_all)

lemma handle_large_call_rem:
  assumes "handle_large_call w cl rd stk cout cs c s = (r, d, t)"
  shows "rem_kept {w, cl, rd} s t"
proof -
  obtain ws d1 s1 where 1: "peek_if_valid w (Some 0) s = (ws, d1, s1)" by (metis prod_cases3)
  obtain cs' res s2 where 2: "peek_if_valid cl (Some 0) s1 = (cs', res, s2)" by (metis prod_cases3)
  obtain rs d2 s3 where 3: "peek_if_valid rd d1 s2 = (rs, d2, s3)" by (metis prod_cases3)
  have "rem_reqid t = rem_reqid s3"
    using assms by (auto simp: handle_large_call_def 1 2 3 Let_def split: if_splits sum.splits)
  then show ?thesis
    using peek_if_valid_rem [OF 1] peek_if_valid_rem [OF 2] peek_if_valid_rem [OF 3] by blast
qed

lemma run_handler_rem:
  assumes "run_handler ops k c s = (r, d, t)"
  shows "rem_kept (refs k) s t"
proof (cases k)
  case (KLargeCall w cl rd stk cout cs)
  with assms have "handle_large_call w cl rd stk cout cs c s = (r, d, t)" by simp
  from handle_large_call_rem [OF this] show ?thesis by (simp add: KLargeCall)
qed (use assms in \<open>auto simp: handle_vh_def handle_generic_def handle_sendbuff_def
    handle_recvbuff_def handle_call_def Let_def split: prod.splits\<close>)

lemma on_reply_eq:
  assumes "popInFlight req (comq s) = (Some c, q)"
    and "run_unpack ops (kind c) c m (set_recv_payload ops (up s) m (env s)) (s\<lparr>comq := q\<rparr>) = (res, d, u)"
  shows "on_reply ops req m s = (case res of Inl e \<Rightarrow> Throws e u
    | Inr rv \<Rightarrow> let s3 = u\<lparr>env := urpc_slot_done ops (up u) req m (env u)\<rparr>;
        s4 = (if \<not> nowait d then s3\<lparr>comq := pushCompletion d (comq s3)\<rparr> else s3)
      in if rv < 0 then Ret (- 1) (s4\<lparr>ctx_state := VEO_STATE_EXIT, comq := cancelAll (comq s4)\<rparr>)
         else Again s4)"
  using assms by (simp add: on_reply_def split: sum.split)

lemma idle_rem: "idle_turn ops s = Ret rv t \<Longrightarrow> rem_reqid t = rem_reqid s"
  by (auto simp: idle_turn_def Let_def split: if_splits prod.splits)

definition queued :: "cmd_kind comm_queue \<Rightarrow> cmd set" where
  "queued q = set (request q) \<union> snd ` set (inflight q)"

lemma progress_turn_rem:
  assumes "progress_turn ops b s = Again t \<or> progress_turn ops b s = Ret rv t"
  shows "rem_kept (\<Union>c \<in> queued (comq s). refs (kind c)) s t"
proof -
  obtain req m e where g: "urpc_get_cmd ops (up s) (env s) = ((req, m), e)" by (metis surj_pair)
  let ?s = "s\<lparr>env := e\<rparr>"
  consider (reply) "req \<ge> 0" | (full) "req < 0" "urpc_next_send_slot ops (up ?s) (env ?s) < 0"
    | (send) "req < 0" "\<not> urpc_next_send_slot ops (up ?s) (env ?s) < 0" by linarith
  then show ?thesis
  proof cases
    case reply
    then have o: "on_reply ops req m ?s = Again t \<or> on_reply ops req m ?s = Ret rv t"
      using assms by (simp add: progress_turn_def g)
    then obtain c q where pop: "popInFlight req (comq ?s) = (Some c, q)"
      by (auto simp: on_reply_def split: prod.splits option.splits)
    obtain res d u where u: "run_unpack ops (kind c) c m (set_recv_payload ops (up ?s) m (env ?s))
        (?s\<lparr>comq := q\<rparr>) = (res, d, u)" by (metis prod_cases3)
    have "rem_reqid t = rem_reqid u"
      using o unfolding on_reply_eq [OF pop u] by (auto simp: Let_def split: sum.splits if_splits)
    moreover have "c \<in> queued (comq s)"
      using pop by (auto simp: popInFlight_def bm_tryFindNoWait_def queued_def
          intro: rev_image_eqI dest!: map_of_SomeD split: option.splits)
    ultimately show ?thesis using run_unpack_rem [OF u] by auto
  next
    case full
    then show ?thesis using assms by (auto simp: progress_turn_def g)
  next
    case send
    show ?thesis
    proof (cases "request (comq s)")
      case Nil
      then have "tryPopRequest (comq ?s) = (None, comq ?s)"
        by (cases "comq s") (simp add: tryPopRequest_def)
      then have "idle_turn ops (?s\<lparr>comq := comq ?s\<rparr>) = Ret rv t"
        using assms send by (auto simp: progress_turn_def g Let_def)
      then show ?thesis using idle_rem by fastforce
    next
      case (Cons c r)
      let ?u = "?s\<lparr>comq := (comq ?s)\<lparr>request := r\<rparr>\<rparr>"
      have pop: "tryPopRequest (comq ?s) = (Some c, comq ?u)" using Cons by (simp add: tryPopRequest_def)
      obtain res d v where h: "run_handler ops (kind c) c ?u = (res, d, v)" by (metis prod_cases3)
      have tr: "progress_turn ops b s = (if is_vh c then submit_vh ops b c ?u else submit_ve ops c ?u)"
        using send pop by (simp add: progress_turn_def g Let_def)
      have "rem_reqid t = rem_reqid v \<or> rem_reqid t = rem_reqid s"
        using assms unfolding tr submit_vh_def submit_ve_def h
        by (auto split: if_splits sum.splits dest: idle_rem)
      then show ?thesis using run_handler_rem [OF h] Cons by (auto simp: queued_def)
    qed
  qed
qed

section \<open>Waiting returns\<close>

text \<open>
  A transport that answers: \<open>bound\<close> counts the polls until the next reply. As long as a request is
  pending every poll that finds nothing brings the reply nearer, and when none is pending there is
  room to send.
\<close>

definition responsive :: "'e urpc_ops \<Rightarrow> (u64 \<Rightarrow> 'e \<Rightarrow> int set) \<Rightarrow> ('e \<Rightarrow> nat) \<Rightarrow> bool" where
  "responsive ops pend bound \<longleftrightarrow>
     (\<forall>p e r m e'. urpc_get_cmd ops p e = ((r, m), e') \<longrightarrow> r < 0 \<longrightarrow> pend p e \<noteq> {} \<longrightarrow> bound e' < bound e) \<and>
     (\<forall>p e. pend p e = {} \<longrightarrow> 0 \<le> urpc_next_send_slot ops p e) \<and>
     (\<forall>p cm its e r e'. urpc_generic_send ops p cm its e = (r, e') \<longrightarrow>
        (r < 0 \<longrightarrow> bound e' \<le> bound e) \<and> (pend p e = {} \<longrightarrow> r \<noteq> - EAGAIN)) \<and>
     (\<forall>e. bound (snd (waitpid_exited ops e)) \<le> bound e)"

lemma responsive_get:
  "responsive ops pend bound \<Longrightarrow> urpc_get_cmd ops p e = ((r, m), e') \<Longrightarrow> r < 0 \<Longrightarrow> pend p e \<noteq> {} \<Longrightarrow>
     bound e' < bound e"
  unfolding responsive_def by blast

lemma responsive_slot: "responsive ops pend bound \<Longrightarrow> pend p e = {} \<Longrightarrow> 0 \<le> urpc_next_send_slot ops p e"
  unfolding responsive_def by blast

lemma responsive_send:
  assumes "responsive ops pend bound" "urpc_generic_send ops p cm its e = (r, e')"
  shows "r < 0 \<Longrightarrow> bound e' \<le> bound e" "pend p e = {} \<Longrightarrow> r \<noteq> - EAGAIN"
  using assms unfolding responsive_def by blast+

lemma responsive_waitpid: "responsive ops pend bound \<Longrightarrow> bound (snd (waitpid_exited ops e)) \<le> bound e"
  unfolding responsive_def by blast

lemma idle_bound:
  "responsive ops pend bound \<Longrightarrow> idle_turn ops s = Ret rv t \<Longrightarrow> bound (env t) \<le> bound (env s)"
  using responsive_waitpid [of ops pend bound "env s"]
  by (auto simp: idle_turn_def Let_def split: if_splits prod.splits)

lemma submit_ve_stays:
  assumes ok: "urpc_ok ops pend" and rs: "responsive ops pend bound" and k: "\<not> vh_kind (kind c)"
    and sub: "submit_ve ops c u = Ret rv t" and t: "ctx_state t \<noteq> VEO_STATE_EXIT"
    and len: "length (request (comq t)) \<noteq> length (request (comq u))"
  shows "bound (env t) \<le> bound (env u)" "pend (up u) (env u) \<noteq> {}"
proof -
  obtain cm its trunc where hd: "run_handler ops (kind c) c u =
    (let (r, e) = urpc_generic_send ops (up u) cm its (env u);
       (rv, c') = submitted (if trunc then to_int32 r else r) c in (Inr rv, c', u\<lparr>env := e\<rparr>))"
    using ve_handler_sends [OF k] by blast
  obtain n f where sd: "urpc_generic_send ops (up u) cm its (env u) = (n, f)" by (metis surj_pair)
  have "n < 2 ^ 31" "- (2 ^ 31) \<le> n" using urpc_ok_send [OF ok sd] by (cases "n \<ge> 0"; simp)+
  then have tn: "(if trunc then to_int32 n else n) = n" using to_int32_small by simp
  obtain x d where d: "submitted n c = (x, d)" by (metis surj_pair)
  have hd': "run_handler ops (kind c) c u = (Inr x, d, u\<lparr>env := f\<rparr>)" using hd sd tn d by simp
  have x: "x = - EAGAIN"
  proof (rule ccontr)
    assume x: "x \<noteq> - EAGAIN"
    show False
    proof (cases "x = 0")
      case True
      then show False using sub unfolding submit_ve_def hd' by (auto split: sum.splits)
    next
      case False
      let ?v = "u\<lparr>env := f, comq := pushCompletion (setResult (Some (of_int x))
          (Some VEO_COMMAND_ERROR) d) (comq u)\<rparr>"
      have "idle_turn ops ?v = Ret rv t" using sub False x unfolding submit_ve_def hd' by simp
      then have "comq t = comq ?v" using t
        by (auto simp: idle_turn_def Let_def split: if_splits prod.splits)
      then show False using len by (simp add: pushCompletion_def)
    qed
  qed
  then have n: "n = - EAGAIN" using d by (auto simp: submitted_def EAGAIN_def split: if_splits)
  have "idle_turn ops (u\<lparr>env := f, comq := pushRequestFront d (comq u)\<rparr>) = Ret rv t"
    using sub x unfolding submit_ve_def hd' by (simp add: EAGAIN_def)
  then have "bound (env t) \<le> bound f" using idle_bound [OF rs] by fastforce
  moreover have "bound f \<le> bound (env u)" using responsive_send(1) [OF rs sd] n by (simp add: EAGAIN_def)
  ultimately show "bound (env t) \<le> bound (env u)" by linarith
  show "pend (up u) (env u) \<noteq> {}" using responsive_send(2) [OF rs sd] n by blast
qed

text \<open>A turn that ends the loop without moving anything has brought a reply nearer, or there was
  nothing to do, or a VH command is next that may not run here.\<close>

lemma turn_stays:
  assumes ok: "urpc_ok ops pend" and rs: "responsive ops pend bound"
    and i: "ctx_inv s" "flight_inv pend s" "ctx_state s \<noteq> VEO_STATE_EXIT"
    and t: "progress_turn ops b s = Ret rv t" "ctx_state t \<noteq> VEO_STATE_EXIT"
    and same: "request (comq t) = request (comq s)"
  shows "bound (env t) < bound (env s) \<or> inflight (comq s) = [] \<and> (request (comq s) = [] \<or> 0 < rv \<and> \<not> b)"
proof -
  obtain req m e where g: "urpc_get_cmd ops (up s) (env s) = ((req, m), e)" by (metis surj_pair)
  let ?s = "s\<lparr>env := e\<rparr>"
  note get = urpc_ok_get [OF ok g]
  have none: "pend (up s) e = {} \<longleftrightarrow> inflight (comq s) = []"
    using i(2) flight_inv_run [OF i(3)] get(1) by (metis image_is_empty set_empty)
  have neg: "req < 0"
  proof (rule ccontr)
    assume "\<not> req < 0"
    then have "on_reply ops req m ?s = Ret rv t" using t(1) by (simp add: progress_turn_def g)
    then show False using t(2)
      by (auto simp: on_reply_def Let_def split: prod.splits option.splits sum.splits if_splits)
  qed
  have near: "bound e < bound (env s)" if "inflight (comq s) \<noteq> []"
    using responsive_get [OF rs g neg] none get(1) that by simp
  show ?thesis
  proof (cases "urpc_next_send_slot ops (up s) e < 0")
    case True
    then have "t = ?s" using t(1) neg by (simp add: progress_turn_def g)
    moreover have "inflight (comq s) \<noteq> []"
      using responsive_slot [OF rs, of "up s" e] True none by fastforce
    ultimately show ?thesis using near by simp
  next
    case False
    show ?thesis
    proof (cases "request (comq s)")
      case Nil
      then have "tryPopRequest (comq ?s) = (None, comq ?s)"
        by (cases "comq s") (simp add: tryPopRequest_def)
      then have "idle_turn ops (?s\<lparr>comq := comq ?s\<rparr>) = Ret rv t"
        using t(1) neg False by (simp add: progress_turn_def g Let_def)
      then have "bound (env t) \<le> bound e" using idle_bound [OF rs] by fastforce
      then show ?thesis using near Nil by linarith
    next
      case (Cons c r)
      let ?u = "?s\<lparr>comq := (comq ?s)\<lparr>request := r\<rparr>\<rparr>"
      have pop: "tryPopRequest (comq ?s) = (Some c, comq ?u)" using Cons by (simp add: tryPopRequest_def)
      have tr: "progress_turn ops b s = (if is_vh c then submit_vh ops b c ?u else submit_ve ops c ?u)"
        using neg False pop by (simp add: progress_turn_def g Let_def)
      have "ctx_inv ?s" by (rule ctx_inv_cong [OF i(1)]) simp_all
      from pop_request_held [OF this pop] have h: "held c ?u" by simp
      show ?thesis
      proof (cases "is_vh c")
        case True
        then have "submit_vh ops b c ?u = Ret rv t" using t(1) tr by simp
        then have "rv = 1" "\<not> (inflight (comq s) = [] \<and> b)" "env t = e"
          by (auto simp: submit_vh_def emptyInFlight_def split: if_splits prod.splits sum.splits)
        then show ?thesis using near by auto
      next
        case False
        then have k: "\<not> vh_kind (kind c)" using h by (simp add: held_def ctx_inv_def kinds_ok_def)
        have "submit_ve ops c ?u = Ret rv t" using t(1) tr False by simp
        from submit_ve_stays [OF ok rs k this t(2)]
        have "bound (env t) \<le> bound e" "pend (up s) e \<noteq> {}" using same Cons by simp_all
        then show ?thesis using near none by fastforce
      qed
    qed
  qed
qed

lemma moved_work: "moved b s t \<Longrightarrow> work_left t \<le> work_left s"
  by (erule moved.cases) (auto simp: work_left_def)

lemma stopped_work: "stopped s t \<Longrightarrow> work_left t \<le> work_left s"
  by (erule stopped.cases) (auto simp: work_left_def)

definition measure_of :: "('e \<Rightarrow> nat) \<Rightarrow> 'e cst \<Rightarrow> nat \<times> nat" where
  "measure_of bound s = (work_left s, bound (env s))"

abbreviation lex_less :: "(nat \<times> nat) rel" where
  "lex_less \<equiv> less_than <*lex*> less_than"

lemma progress_advances:
  assumes ok: "urpc_ok ops pend" and rs: "responsive ops pend bound"
    and i: "ctx_inv s" "flight_inv pend s" "ctx_state s \<noteq> VEO_STATE_EXIT"
    and r: "progress_nolock ops b s = (Inr rv, t)"
  shows "ctx_state t = VEO_STATE_EXIT \<or> (measure_of bound t, measure_of bound s) \<in> lex_less \<or>
    inflight (comq s) = [] \<and> (request (comq s) = [] \<or> 0 < rv \<and> \<not> b)"
proof (cases "progress_turn ops b s")
  case (Again u)
  then have run: "progress_nolock ops b u = (Inr rv, t)"
    using r by (simp add: progress_nolock.simps [of ops b s])
  have u: "ctx_inv u" "flight_inv pend u" "ctx_state u \<noteq> VEO_STATE_EXIT"
    using progress_turn_ok [OF ok i, of b] Again by simp_all
  have "work_left t \<le> work_left u"
    by (rule progress_nolock_rel [OF ok u run, where R = "\<lambda>x y. work_left y \<le> work_left x"])
      (erule (1) order_trans [rotated], erule moved_work, erule stopped_work)
  then show ?thesis using progress_turn_shrinks [OF Again] by (simp add: measure_of_def)
next
  case (Ret x u)
  then have ut: "u = t" "x = rv" using r by (simp_all add: progress_nolock.simps [of ops b s])
  have "stopped s t" using progress_turn_moves(2) [OF ok i Ret] ut by simp
  then show ?thesis
  proof cases
    case gave_up
    then show ?thesis by simp
  next
    case stayed
    then show ?thesis
      using turn_stays [OF ok rs i Ret [unfolded ut]] i(3) by (simp add: measure_of_def work_left_def)
  next
    case (failed c)
    then show ?thesis by (simp add: measure_of_def work_left_def)
  qed
qed (use r in \<open>simp add: progress_nolock.simps [of ops b s]\<close>)

text \<open>A request that is waited for and whose result no other command collects.\<close>

definition awaited :: "u64 \<Rightarrow> 'e cst \<Rightarrow> bool" where
  "awaited i s \<longleftrightarrow> i \<in> rem_reqid s \<and> (\<forall>c \<in> queued (comq s). i \<notin> refs (kind c))"

lemma moved_kinds: "moved b s t \<Longrightarrow> kind ` queued (comq t) \<subseteq> kind ` queued (comq s)"
  by (erule moved.cases) (auto simp: queued_def same_cmd_def)

lemma stopped_kinds: "stopped s t \<Longrightarrow> kind ` queued (comq t) \<subseteq> kind ` queued (comq s)"
  by (erule stopped.cases) (auto simp: queued_def)

lemma turn_awaited:
  assumes ok: "urpc_ok ops pend" and i: "ctx_inv s" "flight_inv pend s" "ctx_state s \<noteq> VEO_STATE_EXIT"
    and t: "progress_turn ops b s = Again t \<or> progress_turn ops b s = Ret rv t" and a: "awaited j s"
  shows "awaited j t"
proof -
  have "kind ` queued (comq t) \<subseteq> kind ` queued (comq s)"
    using t progress_turn_moves [OF ok i] moved_kinds stopped_kinds by blast
  moreover have "j \<in> rem_reqid t" using progress_turn_rem [OF t, THEN conjunct1] a by (auto simp: awaited_def)
  ultimately show ?thesis using a by (fastforce simp: awaited_def)
qed

lemma progress_awaited:
  assumes "urpc_ok ops pend" "ctx_inv s" "flight_inv pend s" "ctx_state s \<noteq> VEO_STATE_EXIT"
    and "progress_nolock ops b s = (Inr rv, t)" "awaited j s"
  shows "awaited j t"
  using assms
proof (induction ops b s rule: progress_nolock.induct)
  case (1 ops b s)
  note turn = progress_turn_ok [OF "1.prems"(1-4), of b]
  show ?case
  proof (cases "progress_turn ops b s")
    case (Again u)
    with turn have u: "ctx_inv u" "flight_inv pend u" "ctx_state u \<noteq> VEO_STATE_EXIT" by simp_all
    have "awaited j u" using turn_awaited [OF "1.prems"(1-4) _ "1.prems"(6)] Again by blast
    then show ?thesis using "1.IH" [OF Again "1.prems"(1) u] "1.prems"(5) Again
      by (simp add: progress_nolock.simps [of ops b s])
  next
    case (Ret x u)
    then show ?thesis using turn_awaited [OF "1.prems"(1-4) _ "1.prems"(6), of b u x] "1.prems"(5)
      by (simp add: progress_nolock.simps [of ops b s])
  qed (use "1.prems"(5) in \<open>simp add: progress_nolock.simps [of ops b s]\<close>)
qed

lemma awaited_active:
  assumes "inv_all pend s" "awaited j s" "map_of (completion (comq s)) j = None"
  shows "ctx_state s \<noteq> VEO_STATE_EXIT" "\<not> (inflight (comq s) = [] \<and> request (comq s) = [])"
proof -
  have i: "ctx_inv s" "flight_inv pend s" using assms(1) by (simp_all add: inv_all_def)
  have "j \<in> set (ids (comq s))"
    using i(1) assms(2) by (auto simp: ctx_inv_def awaited_def ids_tags)
  moreover have "j \<notin> (msgid \<circ> snd) ` set (completion (comq s))"
  proof
    assume "j \<in> (msgid \<circ> snd) ` set (completion (comq s))"
    then obtain k c where "(k, c) \<in> set (completion (comq s))" "j = msgid c" by auto
    moreover have "keyed (comq s)" using i(1) by (simp add: ctx_inv_def)
    ultimately have "(j, c) \<in> set (completion (comq s))" by (auto simp: keyed_def)
    then show False using assms(3) by (auto simp: map_of_eq_None_iff intro: rev_image_eqI)
  qed
  ultimately show *: "\<not> (inflight (comq s) = [] \<and> request (comq s) = [])" by (auto simp: ids_def)
  then show "ctx_state s \<noteq> VEO_STATE_EXIT" using i(2) by (auto simp: flight_inv_def)
qed

lemma wf_measure_of: "wf (inv_image lex_less (measure_of bound))"
  by (intro wf_inv_image wf_lex_prod wf_less_than)

lemma await_returns:
  assumes ok: "urpc_ok ops pend" and rs: "responsive ops pend bound"
    and "inv_all pend s" "awaited j s"
  shows "\<exists>r. await_completion ops j s = Some r"
  using assms(3,4)
proof (induction s rule: wf_induct_rule [OF wf_measure_of [of bound]])
  case (1 s)
  show ?case
  proof (cases "waitCompletion_turn j (comq s)")
    case (Some p)
    then show ?thesis by (cases p) (simp add: await_completion.simps [of ops j s])
  next
    case None
    then have none: "map_of (completion (comq s)) j = None"
      by (auto simp: waitCompletion_turn_def bm_wait_turn_def bm_tryFindNoWait_def split: option.splits)
    note act = awaited_active [OF "1.prems" none]
    have i: "ctx_inv s" "flight_inv pend s" using "1.prems"(1) by (simp_all add: inv_all_def)
    obtain r t where p: "progress_nolock ops True s = (r, t)" by (metis surj_pair)
    show ?thesis
    proof (cases r)
      case (Inl e)
      then show ?thesis using p None by (simp add: await_completion.simps [of ops j s])
    next
      case (Inr rv)
      note p' = p [unfolded Inr]
      have inv: "inv_all pend t"
        using progress_nolock_ok [OF ok i act(1) p'] by (auto simp: inv_all_def)
      have aw: "awaited j t" using progress_awaited [OF ok i act(1) p' "1.prems"(2)] .
      have "\<exists>r. await_completion ops j t = Some r"
      proof (cases "ctx_state t = VEO_STATE_EXIT")
        case True
        then have "map_of (completion (comq t)) j \<noteq> None" using awaited_active(1) [OF inv aw] by blast
        then obtain x where "waitCompletion_turn j (comq t) = Some x"
          by (auto simp: waitCompletion_turn_def bm_wait_turn_def bm_tryFindNoWait_def)
        then show ?thesis by (cases x) (simp add: await_completion.simps [of ops j t])
      next
        case False
        then have "(t, s) \<in> inv_image lex_less (measure_of bound)"
          using progress_advances [OF ok rs i act(1) p'] act(2) by auto
        then show ?thesis using "1.IH" inv aw by blast
      qed
      then show ?thesis using p' None by (simp add: await_completion.simps [of ops j s])
    qed
  qed
qed

lemma progress_rem_mono:
  "progress_nolock ops b s = (Inr rv, t) \<Longrightarrow> rem_reqid t \<subseteq> rem_reqid s"
proof (induction ops b s rule: progress_nolock.induct)
  case (1 ops b s)
  show ?case
  proof (cases "progress_turn ops b s")
    case (Again u)
    then have "rem_reqid t \<subseteq> rem_reqid u" using "1.IH" [OF Again] "1.prems"
      by (simp add: progress_nolock.simps [of ops b s])
    moreover have "rem_reqid u \<subseteq> rem_reqid s" using progress_turn_rem [OF disjI1 [OF Again]] by blast
    ultimately show ?thesis by blast
  next
    case (Ret x u)
    then show ?thesis using progress_turn_rem [OF disjI2 [OF Ret]] "1.prems"
      by (simp add: progress_nolock.simps [of ops b s])
  qed (use "1.prems" in \<open>simp add: progress_nolock.simps [of ops b s]\<close>)
qed

lemma wait_gone:
  assumes "j \<notin> rem_reqid s"
  shows "\<exists>r. wait_loop ops lks n j ret s = Some r"
proof -
  obtain r t where p: "progress_nolock ops False s = (r, t)" by (metis surj_pair)
  have "j \<notin> rem_reqid t" if "r = Inr rv" for rv using progress_rem_mono p that assms by blast
  then show ?thesis using assms p
    by (cases r) (auto simp: wait_loop.simps [of ops lks n j ret s] wait_blocking_def peekResult_def)
qed

lemma exit_awaited:
  assumes ok: "urpc_ok ops pend" and inv: "inv_all pend s" and ex: "ctx_state s = VEO_STATE_EXIT"
    and p: "progress_nolock ops b s = (Inr rv, t)" and a: "awaited j s"
  shows "inv_all pend t" "awaited j t" "ctx_state t = VEO_STATE_EXIT"
proof -
  have none: "request (comq s) = []" "inflight (comq s) = []"
    using inv ex by (simp_all add: inv_all_def flight_inv_def)
  have i: "ctx_inv s" "flight_inv pend s" using inv by (simp_all add: inv_all_def)
  have t: "progress_turn ops b s = Ret rv t"
    using exit_turn [OF ok i ex, of b] p by (auto simp: progress_nolock.simps [of ops b s])
  show i': "inv_all pend t" using exit_turn [OF ok i ex, of b] t by (auto simp: inv_all_def)
  show ex': "ctx_state t = VEO_STATE_EXIT"
    using t ex none by (auto simp: progress_turn_def on_reply_def idle_turn_def Let_def tryPopRequest_def
        popInFlight_def bm_tryFindNoWait_def split: if_splits prod.splits list.splits)
  have "queued (comq t) = {}" using i' ex' by (simp add: inv_all_def flight_inv_def queued_def)
  moreover have "rem_reqid s \<subseteq> rem_reqid t"
    using progress_turn_rem [OF disjI2 [OF t]] none by (simp add: queued_def)
  ultimately show "awaited j t" using a by (auto simp: awaited_def)
qed

lemma blocking_returns:
  assumes "urpc_ok ops pend" "responsive ops pend bound" "inv_all pend s" "awaited j s"
  shows "\<exists>r. wait_blocking ops j ret s = Some r"
  using await_returns [OF assms] by (auto simp: wait_blocking_def split: sum.splits)

lemma progress_work: 
  assumes ok: "urpc_ok ops pend" and i: "ctx_inv s" "flight_inv pend s" "ctx_state s \<noteq> VEO_STATE_EXIT"
    and r: "progress_nolock ops b s = (Inr rv, t)"
  shows "work_left t \<le> work_left s"
  by (rule progress_nolock_rel [OF ok i r, where R = "\<lambda>x y. work_left y \<le> work_left x"])
    (erule (1) order_trans [rotated], erule moved_work, erule stopped_work)

lemma peek_found:
  assumes "awaited j s" "map_of (completion (comq s)) j \<noteq> None" "peekResult j ret s = (rc, ret', t)"
  shows "j \<notin> rem_reqid t"
  using assms by (auto simp: peekResult_def peekCompletion_def bm_tryFindNoWait_def awaited_def
      split: if_splits option.splits prod.splits)

lemma peek_missing:
  assumes "map_of (completion (comq s)) j = None" "j \<in> rem_reqid s"
  shows "peekResult j ret s = (Some VEO_COMMAND_UNFINISHED, ret, s)"
  using assms by (simp add: peekResult_def peekCompletion_def bm_tryFindNoWait_def)

lemma wait_returns:
  assumes ok: "urpc_ok ops pend" and rs: "responsive ops pend bound"
    and "inv_all pend s" "awaited j s"
  shows "\<exists>r. wait_loop ops lks n j ret s = Some r"
  using assms(3,4)
proof (induction s arbitrary: n ret rule: wf_induct_rule [OF wf_measure_of [of bound]])
  case (1 s)
  have i: "ctx_inv s" "flight_inv pend s" using "1.prems"(1) by (simp_all add: inv_all_def)
  obtain r t where p: "progress_nolock ops False s = (r, t)" by (metis surj_pair)
  show ?case
  proof (cases "lks n \<and> (\<exists>rv. r = Inr rv)")
    case False
    then show ?thesis using p blocking_returns [OF ok rs "1.prems"]
      by (cases r) (auto simp: wait_loop.simps [of ops lks n j ret s])
  next
    case True
    then obtain rv where rv: "r = Inr rv" and lk: "lks n" by blast
    note p' = p [unfolded rv]
    have inv: "inv_all pend t" and aw: "awaited j t"
      using progress_nolock_ok [OF ok i _ p'] progress_awaited [OF ok i _ p' "1.prems"(2)]
        exit_awaited [OF ok "1.prems"(1) _ p' "1.prems"(2)] by (fastforce simp: inv_all_def)+
    obtain rc ret' t' where k: "peekResult j ret t = (rc, ret', t')" by (metis prod_cases3)
    have "\<exists>r. wait_loop ops lks (Suc n) j ret' t' = Some r" if nw: "\<not> 0 < rv"
    proof (cases "map_of (completion (comq t)) j = None")
      case True
      then have same: "t' = t" using peek_missing [OF True] aw k by (simp add: awaited_def)
      note act = awaited_active [OF inv aw True]
      have s: "ctx_state s \<noteq> VEO_STATE_EXIT"
        using exit_awaited(3) [OF ok "1.prems"(1) _ p' "1.prems"(2)] act(1) by blast
      have "work_left t > 0" using act(2) by (cases "request (comq t)") (auto simp: work_left_def)
      then have "work_left s > 0" using progress_work [OF ok i s p'] by simp
      then have "(t, s) \<in> inv_image lex_less (measure_of bound)"
        using progress_advances [OF ok rs i s p'] act(1) nw by (auto simp: work_left_def)
      then show ?thesis using "1.IH" inv aw same by blast
    qed (use wait_gone peek_found [OF aw _ k] in blast)
    then show ?thesis using lk p' k blocking_returns [OF ok rs inv aw]
      by (auto simp: wait_loop.simps [of ops lks n j ret s])
  qed
qed

lemma demo_responsive: "responsive demo_ops demo_pend (\<lambda>_. 0)"
  by (auto simp: responsive_def demo_ops_def demo_pend_def EAGAIN_def split: option.splits)

section \<open>Properties\<close>



end
