(* ===== verification/Ve_Side.thy ===== *)
theory Ve_Side
  imports Urpc_Vh
begin

text \<open>
  The VE side of the protocol (\<^verbatim>\<open>veo_urpc.c\<close>, \<^verbatim>\<open>veo_urpc_ve.c\<close>): the handlers the VE process runs for
  the commands it receives.

  A handler gets the items of the request, unpacked by the transport, and leaves the reply it
  sends, a command with its items; an item the request does not carry leaves the variable with its
  initial value. The transport numbers a reply as the request it answers, which is what
  \<^verbatim>\<open>CHECK_REQ\<close> tests. What the VE provides is a record of functions over an abstract
  state \<open>'v\<close>: dynamic linking, allocation, threads, and \<open>ve_run\<close>, the function at an address
  called with register arguments and a stack pointer, which may change VE memory. Registers the
  caller did not pass are not part of the model; the registers \<^verbatim>\<open>call_handler\<close> saves in its own
  stack frame belong to \<open>ve_run\<close>. An exit request ends the thread in its handler.
\<close>

section \<open>State\<close>

record 'v ve_ops =
  ve_dlopen :: "bytes \<Rightarrow> 'v \<Rightarrow> u64 \<times> 'v"
  ve_dlclose :: "u64 \<Rightarrow> 'v \<Rightarrow> int \<times> 'v"
  ve_dlsym :: "u64 \<Rightarrow> bytes \<Rightarrow> 'v \<Rightarrow> u64"
  static_symtable :: "(bytes \<times> u64) list"
  ve_malloc :: "u64 \<Rightarrow> 'v \<Rightarrow> u64 \<times> 'v"
  ve_free :: "u64 \<Rightarrow> 'v \<Rightarrow> 'v"
  ve_run :: "u64 \<Rightarrow> u64 list \<Rightarrow> u64 \<Rightarrow> mem \<Rightarrow> 'v \<Rightarrow> u64 \<times> mem \<times> 'v"
  curr_sp :: u64
  ve_urpc_init :: "u32 \<Rightarrow> 'v \<Rightarrow> u64 \<times> 'v"
  ve_urpc_unpin :: "'v \<Rightarrow> 'v"
  ve_urpc_init_dma :: "int \<Rightarrow> 'v \<Rightarrow> 'v"
  ve_peer_core :: "'v \<Rightarrow> int"
  ve_urpc_fini :: "'v \<Rightarrow> 'v"
  ve_set_receiver_flags :: "'v \<Rightarrow> 'v"
  ve_prev_sent_payload :: "int \<Rightarrow> 'v \<Rightarrow> item list"
  ve_thread_create :: "u64 \<Rightarrow> u32 \<Rightarrow> u64 \<Rightarrow> 'v \<Rightarrow> int \<times> 'v"

record 'v ve_proc =
  vemem :: mem
  ve_env :: 'v
  veo_finish :: bool
  num_ve_peers :: nat

type_synonym reply = "nat \<times> item list"
type_synonym 'v handled = "int \<times> reply option \<times> 'v ve_proc"

definition MAX_ARGS_IN_REGS :: nat where [const_defs]: "MAX_ARGS_IN_REGS = 8"
definition URPC_CMD_PING :: nat where [const_defs]: "URPC_CMD_PING = 1"

text \<open>The items of a request at their places; the default is what the variable held before.\<close>

definition get_L :: "nat \<Rightarrow> item list \<Rightarrow> u64" where
  "get_L i its = (if i < length its then (case its ! i of ItemL v \<Rightarrow> v | _ \<Rightarrow> 0) else 0)"

definition get_I :: "nat \<Rightarrow> item list \<Rightarrow> u32" where
  "get_I i its = (if i < length its then (case its ! i of ItemI v \<Rightarrow> v | _ \<Rightarrow> 0) else 0)"

definition get_P :: "nat \<Rightarrow> item list \<Rightarrow> bytes" where
  "get_P i its = (if i < length its then (case its ! i of ItemP b \<Rightarrow> b | _ \<Rightarrow> []) else [])"

definition get_Q :: "nat \<Rightarrow> item list \<Rightarrow> u64" where
  "get_Q i its = (if i < length its then (case its ! i of ItemQ p n \<Rightarrow> n | _ \<Rightarrow> 0) else 0)"

definition c_string :: "bytes \<Rightarrow> bytes" where
  "c_string = takeWhile (\<lambda>b. b \<noteq> 0)"

definition reply_L :: "u64 \<Rightarrow> reply option" where
  "reply_L v = Some (URPC_CMD_RESULT, [ItemL v])"

definition reply_ACK :: "reply option" where
  "reply_ACK = Some (URPC_CMD_ACK, [])"

section \<open>Handlers of both sides\<close>

definition ping_handler :: "'v ve_proc \<Rightarrow> 'v handled" where
  "ping_handler v = (0, reply_ACK, v)"

text \<open>The thread ends after the acknowledgement.\<close>

definition exit_handler :: "'v ve_ops \<Rightarrow> 'v ve_proc \<Rightarrow> 'v handled" where
  "exit_handler vo v = (0, reply_ACK, v\<lparr>veo_finish := True, ve_env := ve_urpc_fini vo (ve_env v)\<rparr>)"

definition loadlib_handler :: "'v ve_ops \<Rightarrow> item list \<Rightarrow> 'v ve_proc \<Rightarrow> 'v handled" where
  "loadlib_handler vo its v =
     (let (handle, x) = ve_dlopen vo (c_string (get_P 0 its)) (ve_env v)
      in (0, reply_L handle, v\<lparr>ve_env := x\<rparr>))"

definition unloadlib_handler :: "'v ve_ops \<Rightarrow> item list \<Rightarrow> 'v ve_proc \<Rightarrow> 'v handled" where
  "unloadlib_handler vo its v =
     (let (rc, x) = ve_dlclose vo (get_L 0 its) (ve_env v)
      in (0, reply_L (of_int rc), v\<lparr>ve_env := x\<rparr>))"

definition getsym_handler :: "'v ve_ops \<Rightarrow> item list \<Rightarrow> 'v ve_proc \<Rightarrow> 'v handled" where
  "getsym_handler vo its v =
     (let libhndl = get_L 0 its; symn = c_string (get_P 1 its);
          symaddr = (if libhndl \<noteq> 0 then ve_dlsym vo libhndl symn (ve_env v) else 0)
      in (0, reply_L (case map_of (static_symtable vo) symn of None \<Rightarrow> symaddr | Some a \<Rightarrow> a), v))"

definition alloc_handler :: "'v ve_ops \<Rightarrow> item list \<Rightarrow> 'v ve_proc \<Rightarrow> 'v handled" where
  "alloc_handler vo its v =
     (let (addr, x) = ve_malloc vo (get_L 0 its) (ve_env v)
      in (0, reply_L addr, v\<lparr>ve_env := x\<rparr>))"

definition free_handler :: "'v ve_ops \<Rightarrow> item list \<Rightarrow> 'v ve_proc \<Rightarrow> 'v handled" where
  "free_handler vo its v = (0, reply_ACK, v\<lparr>ve_env := ve_free vo (get_L 0 its) (ve_env v)\<rparr>)"

definition sendbuff_handler :: "item list \<Rightarrow> 'v ve_proc \<Rightarrow> 'v handled" where
  "sendbuff_handler its v =
     (0, reply_ACK, v\<lparr>vemem := mem_write (vemem v) (get_L 0 its) (get_P 1 its)\<rparr>)"

definition recvbuff_handler :: "item list \<Rightarrow> 'v ve_proc \<Rightarrow> 'v handled" where
  "recvbuff_handler its v =
     (0, Some (URPC_CMD_SENDBUFF,
           [ItemL (get_L 1 its), ItemP (mem_read (vemem v) (get_L 0 its) (unat (get_L 2 its)))]), v)"

definition memcpy_handler :: "item list \<Rightarrow> 'v ve_proc \<Rightarrow> 'v handled" where
  "memcpy_handler its v =
     (0, reply_ACK, v\<lparr>vemem := mem_write (vemem v) (get_L 0 its)
        (mem_read (vemem v) (get_L 1 its) (unat (get_L 2 its)))\<rparr>)"

section \<open>Handlers of the VE\<close>

text \<open>The thread that serves the new peer; the return code of its creation is the reply.\<close>

definition newpeer_handler :: "'v ve_ops \<Rightarrow> item list \<Rightarrow> 'v ve_proc \<Rightarrow> 'v handled" where
  "newpeer_handler vo its v =
     (let (new_up, x1) = ve_urpc_init vo (get_I 0 its) (ve_env v);
          (rc, x2) = ve_thread_create vo new_up (get_I 1 its) (get_L 2 its) (ve_urpc_unpin vo x1)
      in if rc \<noteq> 0 then (- 1, reply_L (of_int rc), v\<lparr>ve_env := x2\<rparr>)
         else (rc, reply_L (of_int rc),
               v\<lparr>ve_env := ve_urpc_init_dma vo (ve_peer_core vo x2) x2, num_ve_peers := num_ve_peers v + 1\<rparr>))"

text \<open>The 64-bit words of the register array.\<close>

fun words_of :: "bytes \<Rightarrow> u64 list" where
  "words_of (a # b # c # d # e # f # g # h # r) = le_word [a, b, c, d, e, f, g, h] # words_of r"
| "words_of _ = []"

text \<open>
  The copy back from the VE stack into the buffer of the message, in whole words: a remainder
  keeps what the buffer held, the bytes received or, for a buffer that was not sent, bytes
  that are not determined; the model has zeros there.
\<close>

definition copy_back :: "mem \<Rightarrow> u64 \<Rightarrow> bytes \<Rightarrow> bytes" where
  "copy_back m stop stack = (let n = length stack div 8 * 8 in mem_read m stop n @ drop n stack)"

definition call_handler :: "'v ve_ops \<Rightarrow> nat \<Rightarrow> item list \<Rightarrow> 'v ve_proc \<Rightarrow> 'v handled" where
  "call_handler vo cmd its v =
     (let addr = get_L 0 its;
          regs = take MAX_ARGS_IN_REGS (words_of (get_P 1 its));
          stop = get_L 2 its; recv_sp = (if cmd = URPC_CMD_CALL then 0 else get_L 3 its);
          stack = (if cmd = URPC_CMD_CALL_STKOUT then replicate (unat (get_Q 4 its)) 0 else get_P 4 its)
      in if cmd = URPC_CMD_CALL \<and> addr = 0 then (0, reply_L (curr_sp vo), v)
         else if recv_sp \<noteq> 0 \<and> recv_sp \<noteq> curr_sp vo then (- 1, None, v)
         else let m1 = (if cmd = URPC_CMD_CALL_STKIN \<or> cmd = URPC_CMD_CALL_STKINOUT
                        then mem_write (vemem v) stop stack else vemem v);
                  (result, m2, x) = ve_run vo addr regs
                    (if cmd = URPC_CMD_CALL then curr_sp vo else stop) m1 (ve_env v);
                  v1 = v\<lparr>vemem := m2, ve_env := x\<rparr>
              in if cmd = URPC_CMD_CALL_STKOUT \<or> cmd = URPC_CMD_CALL_STKINOUT
                 then (0, Some (URPC_CMD_RES_STK, [ItemL result, ItemP (copy_back m2 stop stack)]), v1)
                 else (0, reply_L result, v1))"

definition access_pcircvsyc_register_handler :: "'v ve_proc \<Rightarrow> 'v handled" where
  "access_pcircvsyc_register_handler v = (0, reply_ACK, v)"

text \<open>The table of handlers the two registration functions set up; other commands have none.\<close>

definition ve_handle :: "'v ve_ops \<Rightarrow> nat \<Rightarrow> item list \<Rightarrow> 'v ve_proc \<Rightarrow> 'v handled option" where
  "ve_handle vo cmd its v =
     (if cmd = URPC_CMD_PING then Some (ping_handler v)
      else if cmd = URPC_CMD_EXIT then Some (exit_handler vo v)
      else if cmd = URPC_CMD_LOADLIB then Some (loadlib_handler vo its v)
      else if cmd = URPC_CMD_UNLOADLIB then Some (unloadlib_handler vo its v)
      else if cmd = URPC_CMD_GETSYM then Some (getsym_handler vo its v)
      else if cmd = URPC_CMD_ALLOC then Some (alloc_handler vo its v)
      else if cmd = URPC_CMD_FREE then Some (free_handler vo its v)
      else if cmd = URPC_CMD_RECVBUFF then Some (recvbuff_handler its v)
      else if cmd = URPC_CMD_SENDBUFF then Some (sendbuff_handler its v)
      else if cmd = URPC_CMD_MEMCPY then Some (memcpy_handler its v)
      else if cmd = URPC_CMD_NEWPEER then Some (newpeer_handler vo its v)
      else if cmd \<in> {URPC_CMD_CALL, URPC_CMD_CALL_STKIN, URPC_CMD_CALL_STKOUT, URPC_CMD_CALL_STKINOUT}
      then Some (call_handler vo cmd its v)
      else if cmd = URPC_CMD_ACS_PCIRCVSYC then Some (access_pcircvsyc_register_handler v)
      else None)"

text \<open>
  The thread of a peer on the requests it receives, in order, until an exit request; a command
  with no handler gets no reply.
\<close>

fun ve_serve :: "'v ve_ops \<Rightarrow> (nat \<times> item list) list \<Rightarrow> 'v ve_proc \<Rightarrow> reply option list \<times> 'v ve_proc"
  where
  "ve_serve vo [] v = ([], v)"
| "ve_serve vo ((cmd, its) # rs) v =
     (if veo_finish v then ([], v)
      else case ve_handle vo cmd its v of
             None \<Rightarrow> map_prod ((#) None) id (ve_serve vo rs v)
           | Some (rc, p, t) \<Rightarrow> map_prod ((#) p) id (ve_serve vo rs t))"

text \<open>The line after the loop is never reached: the handler of the exit request does not return.\<close>

definition ve_handler_loop ::
  "'v ve_ops \<Rightarrow> int \<Rightarrow> (nat \<times> item list) list \<Rightarrow> 'v ve_proc \<Rightarrow> reply option list \<times> 'v ve_proc" where
  "ve_handler_loop vo core rs v =
     ve_serve vo rs (v\<lparr>ve_env := ve_set_receiver_flags vo (ve_urpc_init_dma vo core (ve_env v)),
       veo_finish := False\<rparr>)"

text \<open>
  What an offloaded kernel can ask: the result the thread sent before. The return code and
  \<^verbatim>\<open>*result\<close>.
\<close>

definition veo_prev_req_result :: "'v ve_ops \<Rightarrow> int \<Rightarrow> u64 option \<Rightarrow> 'v ve_proc \<Rightarrow> int \<times> u64 option"
  where
  "veo_prev_req_result vo offs result v =
     (case ve_prev_sent_payload vo offs (ve_env v) of
        ItemL x # _ \<Rightarrow> (0, Some x) | _ \<Rightarrow> (- 1, result))"

end
