(* ===== verification/Mem_Transfer.thy ===== *)
theory Mem_Transfer
  imports Context_Wait Ve_Side
begin

text \<open>
  Memory transfers from end to end: the fragments \<^verbatim>\<open>asyncReadMem\<close> and \<^verbatim>\<open>asyncWriteMem\<close> cut a
  transfer into, their way through the queues of a context, and the handlers of the VE. The
  invariant \<open>xinv\<close> relates the memories of both sides to the fragments copied so far; it is kept
  by every turn of the progress engine, whatever the transport delays or refuses.
\<close>

section \<open>The other end\<close>

fun item_letter :: "item \<Rightarrow> char" where
  "item_letter (ItemL v) = CHR ''L''"
| "item_letter (ItemI v) = CHR ''I''"
| "item_letter (ItemP b) = CHR ''P''"
| "item_letter (ItemQ p n) = CHR ''Q''"

text \<open>
  A transport with the VE of \<^verbatim>\<open>Ve_Side\<close> at the other end of peer \<open>p\<close>: \<open>ve e\<close> is the VE process
  after it has handled what was sent, \<open>rep e r\<close> its reply to request \<open>r\<close>. A send that succeeds has
  its message handled; a reply that is received is the one to the request it names and unpacks to
  the items that were packed, from a payload that is empty only if there are none; nothing else
  touches the VE.
\<close>

definition served ::
  "'e urpc_ops \<Rightarrow> 'v ve_ops \<Rightarrow> u64 \<Rightarrow> ('e \<Rightarrow> 'v ve_proc) \<Rightarrow> ('e \<Rightarrow> int \<Rightarrow> reply option) \<Rightarrow> bool" where
  "served ops vo p ve rep \<longleftrightarrow>
     (\<forall>cm its e r e'. urpc_generic_send ops p cm its e = (r, e') \<longrightarrow>
        (if r \<ge> 0
         then (case ve_handle vo cm its (ve e) of
                 None \<Rightarrow> ve e' = ve e \<and> rep e' = (rep e)(r := None)
               | Some (rc, a, v) \<Rightarrow> ve e' = v \<and> rep e' = (rep e)(r := a))
         else ve e' = ve e \<and> rep e' = rep e)) \<and>
     (\<forall>e r m e'. urpc_get_cmd ops p e = ((r, m), e') \<longrightarrow> ve e' = ve e \<and> rep e' = rep e \<and>
        (r \<ge> 0 \<longrightarrow> (\<exists>its. rep e r = Some (mb_cmd m, its) \<and>
           urpc_unpack_payload ops (map item_letter its) (set_recv_payload ops p m e') = (0, its) \<and>
           (its \<noteq> [] \<longrightarrow> set_recv_payload ops p m e' \<noteq> [])))) \<and>
     (\<forall>r m e. ve (urpc_slot_done ops p r m e) = ve e \<and>
        (\<forall>k. k \<noteq> r \<longrightarrow> rep (urpc_slot_done ops p r m e) k = rep e k)) \<and>
     (\<forall>e. ve (snd (waitpid_exited ops e)) = ve e \<and> rep (snd (waitpid_exited ops e)) = rep e)"

lemma served_send:
  assumes "served ops vo p ve rep" "urpc_generic_send ops p cm its e = (r, e')"
  shows "if r \<ge> 0
         then (case ve_handle vo cm its (ve e) of
                 None \<Rightarrow> ve e' = ve e \<and> rep e' = (rep e)(r := None)
               | Some (rc, a, v) \<Rightarrow> ve e' = v \<and> rep e' = (rep e)(r := a))
         else ve e' = ve e \<and> rep e' = rep e"
  by (rule assms(1) [unfolded served_def, THEN conjunct1, rule_format, OF assms(2)])

lemma served_get:
  assumes "served ops vo p ve rep" "urpc_get_cmd ops p e = ((r, m), e')"
  shows "ve e' = ve e" "rep e' = rep e"
    "r \<ge> 0 \<Longrightarrow> \<exists>its. rep e r = Some (mb_cmd m, its) \<and>
       urpc_unpack_payload ops (map item_letter its) (set_recv_payload ops p m e') = (0, its) \<and>
       (its \<noteq> [] \<longrightarrow> set_recv_payload ops p m e' \<noteq> [])"
  using assms(1) [unfolded served_def, THEN conjunct2, THEN conjunct1, rule_format, OF assms(2)]
  by blast+

lemma served_keep:
  assumes "served ops vo p ve rep"
  shows "ve (urpc_slot_done ops p r m e) = ve e" "k \<noteq> r \<Longrightarrow> rep (urpc_slot_done ops p r m e) k = rep e k"
    "ve (snd (waitpid_exited ops e)) = ve e" "rep (snd (waitpid_exited ops e)) = rep e"
  using assms by (simp_all add: served_def)

section \<open>Fragments\<close>

text \<open>A fragment: the identifier of its request, its offset, its size.\<close>

type_synonym frag = "u64 \<times> nat \<times> nat"

definition fid :: "frag list \<Rightarrow> nat \<Rightarrow> u64" where "fid fs l = fst (fs ! l)"
definition foff :: "frag list \<Rightarrow> nat \<Rightarrow> nat" where "foff fs l = fst (snd (fs ! l))"
definition fsz :: "frag list \<Rightarrow> nat \<Rightarrow> nat" where "fsz fs l = snd (snd (fs ! l))"

definition total_size :: "frag list \<Rightarrow> nat" where "total_size fs = sum_list (map (snd \<circ> snd) fs)"

definition prev_id :: "frag list \<Rightarrow> nat \<Rightarrow> u64" where
  "prev_id fs l = (if l = 0 then VEO_REQUEST_ID_INVALID else fid fs (l - 1))"

definition frags_ok :: "frag list \<Rightarrow> bool" where
  "frags_ok fs \<longleftrightarrow> distinct (map fst fs) \<and> VEO_REQUEST_ID_INVALID \<notin> fst ` set fs \<and> total_size fs < 2 ^ 64 \<and>
     (\<forall>l < length fs. foff fs l = total_size (take l fs))"

definition covered :: "frag list \<Rightarrow> nat set \<Rightarrow> nat \<Rightarrow> bool" where
  "covered fs C x \<longleftrightarrow> (\<exists>l \<in> C. l < length fs \<and> foff fs l \<le> x \<and> x < foff fs l + fsz fs l)"

lemma frag_at [simp]:
  "l < length fs \<Longrightarrow> fid (fs @ gs) l = fid fs l" "l < length fs \<Longrightarrow> foff (fs @ gs) l = foff fs l"
  "l < length fs \<Longrightarrow> fsz (fs @ gs) l = fsz fs l"
  "fid (fs @ [g]) (length fs) = fst g" "foff (fs @ [g]) (length fs) = fst (snd g)"
  "fsz (fs @ [g]) (length fs) = snd (snd g)"
  by (simp_all add: fid_def foff_def fsz_def nth_append)

lemma prev_id_append [simp]: "l \<le> length fs \<Longrightarrow> prev_id (fs @ gs) l = prev_id fs l"
  by (cases l) (simp_all add: prev_id_def)

lemma total_simps [simp]: "total_size [] = 0" "total_size (fs @ gs) = total_size fs + total_size gs" "total_size [g] = snd (snd g)"
  by (simp_all add: total_size_def)

lemma total_take: "l < length fs \<Longrightarrow> total_size (take l fs) + fsz fs l \<le> total_size fs"
proof -
  assume l: "l < length fs"
  have "total_size fs = total_size (take l fs @ fs ! l # drop (Suc l) fs)" using id_take_nth_drop [OF l] by simp
  then show ?thesis by (simp add: total_size_def fsz_def)
qed

lemma frags_ok_bound: "frags_ok fs \<Longrightarrow> l < length fs \<Longrightarrow> foff fs l + fsz fs l \<le> total_size fs"
  using total_take [of l fs] by (simp add: frags_ok_def)

lemma frags_ok_snoc:
  assumes "frags_ok fs" "i \<notin> fst ` set fs" "i \<noteq> VEO_REQUEST_ID_INVALID" "total_size fs + n < 2 ^ 64"
  shows "frags_ok (fs @ [(i, total_size fs, n)])"
  using assms by (auto simp: frags_ok_def less_Suc_eq)

lemma fid_inj: "frags_ok fs \<Longrightarrow> k < length fs \<Longrightarrow> l < length fs \<Longrightarrow> fid fs k = fid fs l \<longleftrightarrow> k = l"
  using nth_eq_iff_index_eq [of "map fst fs" k l] by (simp add: frags_ok_def fid_def)

lemma covered_all: "frags_ok fs \<Longrightarrow> covered fs {..<length fs} x \<longleftrightarrow> x < total_size fs"
proof (induction fs rule: rev_induct)
  case Nil
  then show ?case by (simp add: covered_def)
next
  case (snoc g fs)
  have ok: "frags_ok fs" using snoc.prems
    by (auto simp: frags_ok_def less_Suc_eq)
  have g: "foff (fs @ [g]) (length fs) = total_size fs"
    using snoc.prems by (auto simp: frags_ok_def)
  have "covered (fs @ [g]) {..<length (fs @ [g])} x \<longleftrightarrow>
      covered fs {..<length fs} x \<or> total_size fs \<le> x \<and> x < total_size fs + snd (snd g)"
    using g by (simp add: covered_def lessThan_Suc disj_commute cong: bex_cong_simp)
  then show ?case using snoc.IH [OF ok] by auto
qed

section \<open>A transfer in progress\<close>

text \<open>
  A transfer from the state \<open>x_from\<close> on: to the VE or from it, the two addresses, and the two views
  of the other end.
\<close>

record ('e, 'v) xfer =
  x_write :: bool
  x_dst :: u64
  x_src :: u64
  x_ve :: "'e \<Rightarrow> 'v ve_proc"
  x_rep :: "'e \<Rightarrow> int \<Rightarrow> reply option"
  x_from :: "'e cst"

definition source :: "('e, 'v) xfer \<Rightarrow> mem" where
  "source X = (if x_write X then vhmem (hst (x_from X)) else vemem (x_ve X (env (x_from X))))"

definition target :: "('e, 'v) xfer \<Rightarrow> mem" where
  "target X = (if x_write X then vemem (x_ve X (env (x_from X))) else vhmem (hst (x_from X)))"

text \<open>The target memory once the fragments \<open>C\<close> are there.\<close>

definition copied :: "('e, 'v) xfer \<Rightarrow> frag list \<Rightarrow> nat set \<Rightarrow> mem" where
  "copied X fs C = (\<lambda>a. if covered fs C (unat (a - x_dst X)) then source X (x_src X + (a - x_dst X))
     else target X a)"

definition mem_at :: "('e, 'v) xfer \<Rightarrow> frag list \<Rightarrow> nat set \<Rightarrow> 'e cst \<Rightarrow> bool" where
  "mem_at X fs C s \<longleftrightarrow>
     (if x_write X
      then vhmem (hst s) = source X \<and>
           x_ve X (env s) = (x_ve X (env (x_from X)))\<lparr>vemem := copied X fs C\<rparr>
      else x_ve X (env s) = x_ve X (env (x_from X)) \<and> vhmem (hst s) = copied X fs C)"

definition frag_kind :: "('e, 'v) xfer \<Rightarrow> frag list \<Rightarrow> nat \<Rightarrow> cmd_kind" where
  "frag_kind X fs l =
     (let dst = x_dst X + of_nat (foff fs l); src = x_src X + of_nat (foff fs l);
          sz = of_nat (fsz fs l)
      in if x_write X then KSendBuff dst src sz (prev_id fs l) else KRecvBuff dst src sz (prev_id fs l))"

definition is_frag :: "('e, 'v) xfer \<Rightarrow> frag list \<Rightarrow> nat \<Rightarrow> cmd \<Rightarrow> bool" where
  "is_frag X fs l c \<longleftrightarrow> l < length fs \<and> msgid c = fid fs l \<and> kind c = frag_kind X fs l \<and>
     \<not> is_vh c \<and> \<not> nowait c"

text \<open>What is known of fragment \<open>l\<close> when its request \<open>r\<close> is in flight.\<close>

definition flying :: "('e, 'v) xfer \<Rightarrow> frag list \<Rightarrow> nat set \<Rightarrow> 'e \<Rightarrow> nat \<Rightarrow> int \<Rightarrow> bool" where
  "flying X fs C e l r \<longleftrightarrow>
     (if x_write X then l \<in> C
      else x_rep X e r = Some (URPC_CMD_SENDBUFF, [ItemL (x_dst X + of_nat (foff fs l)),
             ItemP (mem_read (source X) (x_src X + of_nat (foff fs l)) (fsz fs l))]))"

definition done_ok :: "'e cst \<Rightarrow> u64 \<Rightarrow> bool" where
  "done_ok s i \<longleftrightarrow> (\<exists>c. map_of (completion (comq s)) i = Some c \<and> status c = Some VEO_COMMAND_OK)"

definition in_queue :: "'e cst \<Rightarrow> u64 \<Rightarrow> bool" where
  "in_queue s i \<longleftrightarrow> i \<in> msgid ` queued (comq s)"

text \<open>
  The invariant: every command in the queues is a fragment, and a fragment that is complete without
  an error means that it and all before it were copied and are no longer in the queues.
\<close>

definition xinv :: "('e, 'v) xfer \<Rightarrow> frag list \<Rightarrow> nat set \<Rightarrow> 'e cst \<Rightarrow> bool" where
  "xinv X fs C s \<longleftrightarrow> up s = up (x_from X) \<and> (\<forall>l < length fs. fid fs l < seq_no s) \<and> mem_at X fs C s \<and>
     (\<forall>c \<in> set (request (comq s)). \<exists>l. is_frag X fs l c) \<and>
     (\<forall>(i, c) \<in> set (inflight (comq s)). \<exists>l r. is_frag X fs l c \<and> urpc_req c = Some r \<and>
        0 \<le> r \<and> r < 2 ^ 31 \<and> i = of_int r \<and> flying X fs C (env s) l r) \<and>
     (\<forall>l < length fs. done_ok s (fid fs l) \<longrightarrow> (\<forall>k \<le> l. k \<in> C \<and> \<not> in_queue s (fid fs k)))"

lemma xinvD:
  assumes "xinv X fs C s"
  shows "up s = up (x_from X)" "l < length fs \<Longrightarrow> fid fs l < seq_no s" "mem_at X fs C s"
    "c \<in> set (request (comq s)) \<Longrightarrow> \<exists>l. is_frag X fs l c"
    "(i, c) \<in> set (inflight (comq s)) \<Longrightarrow> \<exists>l r. is_frag X fs l c \<and> urpc_req c = Some r \<and>
        0 \<le> r \<and> r < 2 ^ 31 \<and> i = of_int r \<and> flying X fs C (env s) l r"
    "l < length fs \<Longrightarrow> done_ok s (fid fs l) \<Longrightarrow> k \<le> l \<Longrightarrow> k \<in> C \<and> \<not> in_queue s (fid fs k)"
  using assms unfolding xinv_def by blast+

text \<open>The facts about single steps are used through this rule.\<close>

lemma xinv_step:
  assumes inv: "xinv X fs C s" and C: "C \<subseteq> C'"
    and frame: "up t = up s" "seq_no t = seq_no s" "mem_at X fs C' t"
    and req: "set (request (comq t)) \<subseteq> set (request (comq s)) \<union> A"
    and reqA: "\<forall>c \<in> A. \<exists>l. is_frag X fs l c \<and> in_queue s (fid fs l)"
    and fly: "\<forall>(i, c) \<in> set (inflight (comq t)). (\<exists>l r. is_frag X fs l c \<and> urpc_req c = Some r \<and>
        0 \<le> r \<and> r < 2 ^ 31 \<and> i = of_int r \<and> flying X fs C' (env t) l r) \<and> in_queue s (msgid c)"
    and fin: "\<forall>l < length fs. done_ok t (fid fs l) \<longrightarrow> done_ok s (fid fs l) \<or>
       (\<forall>k \<le> l. k \<in> C' \<and> \<not> in_queue t (fid fs k))"
  shows "xinv X fs C' t"
proof -
  have q: "in_queue s i" if "in_queue t i" for i
  proof -
    obtain c where c: "c \<in> queued (comq t)" and i: "i = msgid c" using \<open>in_queue t i\<close> by (auto simp: in_queue_def)
    consider "c \<in> set (request (comq s))" | "c \<in> A" | k where "(k, c) \<in> set (inflight (comq t))"
      using c req by (auto simp: queued_def)
    then show ?thesis
    proof cases
      case 1
      then show ?thesis by (simp add: i in_queue_def queued_def)
    next
      case 2
      then show ?thesis using reqA by (auto simp: i is_frag_def)
    next
      case 3
      then show ?thesis using fly by (auto simp: i)
    qed
  qed
  have "\<forall>c \<in> set (request (comq t)). \<exists>l. is_frag X fs l c" using req reqA xinvD(4) [OF inv] by blast
  moreover have "\<forall>k \<le> l. k \<in> C' \<and> \<not> in_queue t (fid fs k)" if "l < length fs" "done_ok t (fid fs l)" for l
    using fin that xinvD(6) [OF inv that(1)] q C by blast
  moreover have "\<forall>(i, c) \<in> set (inflight (comq t)). \<exists>l r. is_frag X fs l c \<and> urpc_req c = Some r \<and>
      0 \<le> r \<and> r < 2 ^ 31 \<and> i = of_int r \<and> flying X fs C' (env t) l r" using fly by blast
  ultimately show ?thesis using frame xinvD(1,2) [OF inv] unfolding xinv_def by simp
qed

lemma done_ok_filter:
  "completion (comq t) = filter (\<lambda>e. fst e \<notin> K) (completion (comq s)) \<Longrightarrow> done_ok t i \<Longrightarrow> done_ok s i"
proof -
  assume f: "completion (comq t) = filter (\<lambda>e. fst e \<notin> K) (completion (comq s))" and d: "done_ok t i"
  have "map_of (filter (\<lambda>e. fst e \<notin> K) m) i = (if i \<in> K then None else map_of m i)" for m :: "(u64 \<times> cmd) list"
    by (induction m) auto
  then show ?thesis using d by (auto simp: done_ok_def f split: if_splits)
qed

lemma xinv_peeked:
  assumes "xinv X fs C s" "peeked K s t" "env t = env s" "hst t = hst s"
  shows "xinv X fs C t"
proof -
  have p: "request (comq t) = request (comq s)" "inflight (comq t) = inflight (comq s)"
    "up t = up s" "seq_no t = seq_no s"
    "completion (comq t) = filter (\<lambda>e. fst e \<notin> K) (completion (comq s))"
    using assms(2) by (simp_all add: peeked_def)
  have m: "mem_at X fs C t" using xinvD(3) [OF assms(1)] by (simp add: mem_at_def assms)
  have "in_queue s (msgid c)" if "(i, c) \<in> set (inflight (comq s))" for i c
    using that by (force simp: in_queue_def queued_def)
  then show ?thesis
    using xinvD(5) [OF assms(1)] done_ok_filter [OF p(5)]
    by (intro xinv_step [OF assms(1) order_refl p(3,4) m, where A = "{}"]) (auto simp: p assms(3))
qed

lemma mem_at_cong:
  "mem_at X fs C s \<Longrightarrow> x_ve X (env t) = x_ve X (env s) \<Longrightarrow> vhmem (hst t) = vhmem (hst s) \<Longrightarrow> mem_at X fs C t"
  by (simp add: mem_at_def)

lemma flying_mono: "flying X fs C e l r \<Longrightarrow> C \<subseteq> C' \<Longrightarrow> x_rep X e' r = x_rep X e r \<Longrightarrow> flying X fs C' e' l r"
  by (auto simp: flying_def split: if_splits)

lemma unat_offset:
  fixes x dst :: u64
  assumes "off + n < 2 ^ 64"
  shows "unat (x - (dst + of_nat off)) < n \<longleftrightarrow> off \<le> unat (x - dst) \<and> unat (x - dst) < off + n"
    "off \<le> unat (x - dst) \<Longrightarrow> unat (x - (dst + of_nat off)) = unat (x - dst) - off"
proof -
  have o: "off < 2 ^ 64" using assms by simp
  show "unat (x - (dst + of_nat off)) < n \<longleftrightarrow> off \<le> unat (x - dst) \<and> unat (x - dst) < off + n"
    unfolding unat_minus_of_nat [OF o] using assms by auto
  show "off \<le> unat (x - dst) \<Longrightarrow> unat (x - (dst + of_nat off)) = unat (x - dst) - off"
    unfolding unat_minus_of_nat [OF o] by simp
qed

text \<open>Copying one more fragment.\<close>

lemma copied_insert:
  assumes "frags_ok fs" "l < length fs"
  shows "mem_write (copied X fs C) (x_dst X + of_nat (foff fs l))
    (mem_read (source X) (x_src X + of_nat (foff fs l)) (fsz fs l)) = copied X fs (insert l C)"
proof
  fix a
  let ?off = "foff fs l" and ?n = "fsz fs l" and ?u = "unat (a - x_dst X)"
  have b: "?off + ?n < 2 ^ 64" using frags_ok_bound [OF assms] assms(1) by (simp add: frags_ok_def)
  have c: "covered fs (insert l C) ?u \<longleftrightarrow> (?off \<le> ?u \<and> ?u < ?off + ?n) \<or> covered fs C ?u"
    using assms(2) by (auto simp: covered_def)
  show "mem_write (copied X fs C) (x_dst X + of_nat ?off)
    (mem_read (source X) (x_src X + of_nat ?off) ?n) a = copied X fs (insert l C) a"
  proof (cases "?off \<le> ?u \<and> ?u < ?off + ?n")
    case True
    have "of_nat ?off + of_nat (?u - ?off) = (of_nat ?u :: u64)" using True by (simp flip: of_nat_add)
    then have "x_src X + of_nat ?off + of_nat (?u - ?off) = x_src X + (a - x_dst X)"
      by (simp add: add.assoc)
    then show ?thesis
      using True unat_offset [OF b, of a "x_dst X"] c by (simp add: mem_write_def copied_def)
  next
    case False
    then show ?thesis using unat_offset(1) [OF b, of a "x_dst X"] c by (auto simp: mem_write_def copied_def)
  qed
qed

lemma of_nat_fsz: "frags_ok fs \<Longrightarrow> l < length fs \<Longrightarrow> unat (of_nat (fsz fs l) :: u64) = fsz fs l"
  using frags_ok_bound [of fs l] by (simp add: frags_ok_def unat_of_nat)

lemma ve_handle_buff:
  "ve_handle vo URPC_CMD_SENDBUFF [ItemL a, ItemP b] v =
     Some (0, reply_ACK, v\<lparr>vemem := mem_write (vemem v) a b\<rparr>)"
  "ve_handle vo URPC_CMD_RECVBUFF [ItemL a, ItemL d, ItemL n] v =
     Some (0, Some (URPC_CMD_SENDBUFF, [ItemL d, ItemP (mem_read (vemem v) a (unat n))]), v)"
  by (simp_all add: ve_handle_def const_defs sendbuff_handler_def recvbuff_handler_def get_L_def get_P_def)

definition sent :: "('e, 'v) xfer \<Rightarrow> nat \<Rightarrow> nat set \<Rightarrow> nat set" where
  "sent X l C = (if x_write X then insert l C else C)"

lemma frag_submit:
  assumes ok: "urpc_ok ops pend" and sv: "served ops vo (up s) (x_ve X) (x_rep X)"
    and fs: "frags_ok fs" and c: "is_frag X fs l c" and m: "mem_at X fs C s"
  obtains rv d e r where "run_handler ops (kind c) c s = (Inr rv, d, s\<lparr>env := e\<rparr>)" "same_cmd c d"
    "rv = 0 \<Longrightarrow> urpc_req d = Some r \<and> 0 \<le> r \<and> r < 2 ^ 31 \<and> r \<notin> pend (up s) (env s) \<and>
       mem_at X fs (sent X l C) (s\<lparr>env := e\<rparr>) \<and> flying X fs (sent X l C) e l r \<and>
       (\<forall>k. k \<noteq> r \<longrightarrow> x_rep X e k = x_rep X (env s) k)"
    "rv \<noteq> 0 \<Longrightarrow> x_ve X e = x_ve X (env s) \<and> x_rep X e = x_rep X (env s)"
proof -
  let ?dst = "x_dst X + of_nat (foff fs l)" and ?src = "x_src X + of_nat (foff fs l)"
  let ?n = "of_nat (fsz fs l) :: u64"
  have l: "l < length fs" using c by (simp add: is_frag_def)
  note n = of_nat_fsz [OF fs l]
  define cm its where ci: "cm = (if x_write X then URPC_CMD_SENDBUFF else URPC_CMD_RECVBUFF)"
    "its = (if x_write X then [ItemL ?dst, ItemP (mem_read (vhmem (hst s)) ?src (fsz fs l))]
      else [ItemL ?src, ItemL ?dst, ItemL ?n])"
  obtain r e where g: "urpc_generic_send ops (up s) cm its (env s) = (r, e)" by (metis surj_pair)
  note send = urpc_ok_send [OF ok g] and vsend = served_send [OF sv g]
  have "r < 2 ^ 31" "- (2 ^ 31) \<le> r" using send by (cases "r \<ge> 0"; simp)+
  then have r: "to_int32 r = r" using to_int32_small by simp
  obtain rv d where d: "submitted r c = (rv, d)" by (metis surj_pair)
  have run: "run_handler ops (kind c) c s = (Inr rv, d, s\<lparr>env := e\<rparr>)"
    using c g n r d by (simp add: is_frag_def frag_kind_def ci handle_sendbuff_def handle_recvbuff_def Let_def
        split: if_splits)
  note sub = submitted_cases [OF d]
  have vs: "mem_at X fs (sent X l C) (s\<lparr>env := e\<rparr>) \<and> flying X fs (sent X l C) e l r \<and>
      (\<forall>k. k \<noteq> r \<longrightarrow> x_rep X e k = x_rep X (env s) k)" if r0: "0 \<le> r"
  proof (cases "x_write X")
    case True
    then have "x_ve X (env s) = (x_ve X (env (x_from X)))\<lparr>vemem := copied X fs C\<rparr>" "vhmem (hst s) = source X"
      using m by (simp_all add: mem_at_def)
    then show ?thesis
      using vsend r0 True copied_insert [OF fs l, of X C]
      by (simp add: ci ve_handle_buff mem_at_def flying_def sent_def)
  next
    case False
    then have "x_ve X (env s) = x_ve X (env (x_from X))" "vhmem (hst s) = copied X fs C"
      using m by (simp_all add: mem_at_def)
    then show ?thesis
      using vsend r0 False n by (simp add: ci ve_handle_buff mem_at_def flying_def sent_def source_def)
  qed
  show ?thesis
  proof (rule that [OF run])
    show "same_cmd c d" using sub by blast
    show "urpc_req d = Some r \<and> 0 \<le> r \<and> r < 2 ^ 31 \<and> r \<notin> pend (up s) (env s) \<and>
       mem_at X fs (sent X l C) (s\<lparr>env := e\<rparr>) \<and> flying X fs (sent X l C) e l r \<and>
       (\<forall>k. k \<noteq> r \<longrightarrow> x_rep X e k = x_rep X (env s) k)" if "rv = 0"
      using that sub send vs by (metis (no_types, lifting))
    show "x_ve X e = x_ve X (env s) \<and> x_rep X e = x_rep X (env s)" if "rv \<noteq> 0"
      using that sub vsend by (metis (no_types, lifting))
  qed
qed

text \<open>A fragment completes: the state after the result of the one before was collected.\<close>

lemma done_ok_push:
  "done_ok (s\<lparr>comq := pushCompletion d (comq s)\<rparr>) i \<Longrightarrow>
     done_ok s i \<or> i = msgid d \<and> status d = Some VEO_COMMAND_OK"
  by (auto simp: done_ok_def pushCompletion_def bm_insert_def bm_insert_key_def split: option.splits if_splits)

lemma in_queue_comq: "request (comq t) = request (comq s) \<Longrightarrow> inflight (comq t) = inflight (comq s) \<Longrightarrow>
    in_queue t i = in_queue s i"
  by (simp add: in_queue_def queued_def)

lemma xinv_cancel:
  assumes inv: "xinv X fs C s" and ci: "ctx_inv s"
    and t: "comq t = cancelAll (comq s)" "up t = up s" "seq_no t = seq_no s" "mem_at X fs C t"
  shows "xinv X fs C t"
proof -
  have "comq_wf (comq s)" using ci by (simp add: comq_wf_keyed ctx_inv_def)
  note c = cancelAll_closed [OF this]
  have err: "map_of (map cancelled cs) i = Some d \<Longrightarrow> status d \<noteq> Some VEO_COMMAND_OK" for cs i d
    by (auto simp: cancelled_def dest!: map_of_SomeD)
  have dn: "done_ok t i \<Longrightarrow> done_ok s i" for i
    using err [of "rev (map snd (inflight (comq s)))"] err [of "rev (request (comq s))"]
    by (auto simp: done_ok_def t(1) c map_add_def rev_map split: option.splits)
  show ?thesis
    by (rule xinv_step [OF inv order_refl t(2-4), where A = "{}"]) (simp_all add: t(1) c dn)
qed

lemma xinv_idle:
  assumes inv: "xinv X fs C s" and ci: "ctx_inv s" and sv: "served ops vo (up s) (x_ve X) (x_rep X)"
    and r: "idle_turn ops s = Ret rv t"
  shows "xinv X fs C t"
proof -
  obtain dead e where w: "waitpid_exited ops (env s) = (dead, e)" by (metis surj_pair)
  have e: "x_ve X e = x_ve X (env s)" "x_rep X e = x_rep X (env s)"
    using served_keep(3,4) [OF sv, of "env s"] w by simp_all
  have t: "up t = up s" "seq_no t = seq_no s" "x_ve X (env t) = x_ve X (env s)"
    "x_rep X (env t) = x_rep X (env s)" "vhmem (hst t) = vhmem (hst s)"
    "comq t = comq s \<or> comq t = cancelAll (comq s)"
    using r w e by (auto simp: idle_turn_def Let_def split: if_splits)
  note m = mem_at_cong [OF xinvD(3) [OF inv] t(3,5)]
  have "xinv X fs C t" if c: "comq t = comq s"
  proof -
    have "in_queue s (msgid c)" if "(i, c) \<in> set (inflight (comq s))" for i c
      using that by (force simp: in_queue_def queued_def)
    moreover have "flying X fs C (env t) = flying X fs C (env s)" using t(4) by (simp add: flying_def fun_eq_iff)
    ultimately show ?thesis
      using xinvD(5) [OF inv]
      by (intro xinv_step [OF inv order_refl t(1,2) m, where A = "{}"]) (auto simp: c done_ok_def)
  qed
  then show ?thesis using t(6) xinv_cancel [OF inv ci _ t(1,2) m] by blast
qed

lemma chain_result_ok:
  assumes "chain_result prev s = (v, Some VEO_COMMAND_OK, t)"
  shows "prev = VEO_REQUEST_ID_INVALID \<or> done_ok s prev"
  using assms by (auto simp: chain_result_def peekResult_def peekCompletion_def bm_tryFindNoWait_def done_ok_def
      Let_def split: if_splits option.splits prod.splits)

lemma chain_result_frame:
  "chain_result prev s = (v, st, t) \<Longrightarrow> env t = env s \<and> hst t = hst s \<and> ctx_state t = ctx_state s"
  by (auto simp: chain_result_def peekResult_def Let_def split: if_splits option.splits prod.splits)

text \<open>
  The result function of a fragment: the copied set grows by a fragment that came from the VE, and
  the status is good only if that of the request before was.
\<close>

lemma fid_valid: "frags_ok fs \<Longrightarrow> l < length fs \<Longrightarrow> fid fs l \<noteq> VEO_REQUEST_ID_INVALID"
  unfolding frags_ok_def fid_def by (metis imageI nth_mem)

lemma frag_unpack:
  assumes fs: "frags_ok fs" and c: "is_frag X fs l c" and m: "mem_at X fs C s"
    and fly: "flying X fs C e l r" and rep: "x_rep X e r = Some (mb_cmd m', its)"
    and pl: "urpc_unpack_payload ops (map item_letter its) payload = (0, its)"
    and u: "run_unpack ops (kind c) c m' payload s = (Inr rv, d, t)"
  shows "\<exists>K C'. C \<subseteq> C' \<and> peeked K s t \<and> env t = env s \<and> mem_at X fs C' t \<and>
    (x_write X \<longrightarrow> C' = C) \<and>
    (status d = Some VEO_COMMAND_OK \<longrightarrow> l \<in> C' \<and> (l = 0 \<or> done_ok s (fid fs (l - 1))))"
proof -
  have l: "l < length fs" using c by (simp add: is_frag_def)
  have prev: "prev_id fs l = VEO_REQUEST_ID_INVALID \<longleftrightarrow> l = 0"
    using l fid_valid [OF fs, of "l - 1"] by (auto simp: prev_id_def)
  show ?thesis
  proof (cases "x_write X")
    case True
    obtain v st s' where ch: "chain_result (prev_id fs l) s = (v, st, s')" by (metis prod_cases3)
    have "t = s'" "status d = st \<or> status d = Some VEO_COMMAND_EXCEPTION"
      using u c True ch by (auto simp: is_frag_def frag_kind_def unpack_sendbuff_def Let_def const_defs
          split: if_splits)
    moreover obtain K where "peeked K s s'" using chain_result_peeked [OF ch] by blast
    moreover have "l \<in> C" using fly True by (simp add: flying_def)
    moreover have "st = Some VEO_COMMAND_OK \<Longrightarrow> l = 0 \<or> done_ok s (fid fs (l - 1))"
      using chain_result_ok [of "prev_id fs l" s v s'] ch prev by (auto simp: prev_id_def)
    moreover have "mem_at X fs C s'" using chain_result_frame [OF ch] m by (auto intro: mem_at_cong)
    ultimately show ?thesis using chain_result_frame [OF ch] by (intro exI [of _ K] exI [of _ C]) auto
  next
    case False
    let ?dst = "x_dst X + of_nat (foff fs l)"
    let ?b = "mem_read (source X) (x_src X + of_nat (foff fs l)) (fsz fs l)"
    have its: "its = [ItemL ?dst, ItemP ?b]" using fly rep False by (simp add: flying_def)
    let ?s = "s\<lparr>hst := memcpy_to ?dst ?b (hst s)\<rparr>"
    obtain v st s' where ch: "chain_result (prev_id fs l) ?s = (v, st, s')" by (metis prod_cases3)
    have t: "t = s'" "status d = st"
      using u c False ch pl by (auto simp: is_frag_def frag_kind_def unpack_recvbuff_def Let_def its)
    obtain K where K: "peeked K ?s s'" using chain_result_peeked [OF ch] by blast
    have pk: "peeked K s s'" using peeked_trans [OF peeked_empty(3) K] by simp
    have "mem_at X fs (insert l C) ?s"
      using m False copied_insert [OF fs l, of X C] by (simp add: mem_at_def memcpy_to_def)
    then have "mem_at X fs (insert l C) s'" using chain_result_frame [OF ch] by (auto intro: mem_at_cong)
    moreover have "st = Some VEO_COMMAND_OK \<Longrightarrow> l = 0 \<or> done_ok s (fid fs (l - 1))"
      using chain_result_ok [of "prev_id fs l" ?s v s'] ch prev by (auto simp: prev_id_def done_ok_def)
    ultimately show ?thesis using t pk chain_result_frame [OF ch] False
      by (intro exI [of _ K] exI [of _ "insert l C"]) auto
  qed
qed

lemma in_queue_inflight: "(i, c) \<in> set (inflight (comq s)) \<Longrightarrow> in_queue s (msgid c)"
  by (force simp: in_queue_def queued_def)

lemma is_frag_same: "is_frag X fs l c \<Longrightarrow> same_cmd c d \<Longrightarrow> is_frag X fs l d"
  by (simp add: is_frag_def same_cmd_def)

text \<open>Fewer commands in the queues and another world that looks the same.\<close>

lemma xinv_shrink:
  assumes inv: "xinv X fs C s" and t: "up t = up s" "seq_no t = seq_no s" "vhmem (hst t) = vhmem (hst s)"
    and e: "x_ve X (env t) = x_ve X (env s)" "x_rep X (env t) = x_rep X (env s)"
    and q: "set (request (comq t)) \<subseteq> set (request (comq s))" "set (inflight (comq t)) \<subseteq> set (inflight (comq s))"
      "completion (comq t) = completion (comq s)"
  shows "xinv X fs C t"
proof -
  have "flying X fs C (env t) = flying X fs C (env s)" using e(2) by (simp add: flying_def fun_eq_iff)
  then show ?thesis
    using xinvD(5) [OF inv] q in_queue_inflight [of _ _ s]
    by (intro xinv_step [OF inv order_refl t(1,2) mem_at_cong [OF xinvD(3) [OF inv] e(1) t(3)], where A = "{}"])
      (auto simp: done_ok_def)
qed

lemma inflight_pending:
  assumes "inv_all pend s" "xinv X fs C s" "(of_int r, c) \<in> set (inflight (comq s))" "0 \<le> r" "r < 2 ^ 31"
  shows "r \<in> pend (up s) (env s)" "ctx_state s \<noteq> VEO_STATE_EXIT"
proof -
  have f: "flight_inv pend s" using assms(1) by (simp add: inv_all_def)
  show run: "ctx_state s \<noteq> VEO_STATE_EXIT" using f assms(3) by (auto simp: flight_inv_def)
  note fl = f [unfolded flight_inv_run [OF run]]
  have "(of_int r :: u64) \<in> of_int ` pend (up s) (env s)" using fl assms(3) by (force simp: image_iff)
  then obtain k where "k \<in> pend (up s) (env s)" "(of_int r :: u64) = of_int k" by blast
  then show "r \<in> pend (up s) (env s)"
    using inj_onD [OF of_int_small_inj, of r k] fl assms(4,5) by auto
qed

lemma xinv_submit:
  assumes ok: "urpc_ok ops pend" and sv: "served ops vo (up s) (x_ve X) (x_rep X)" and fs: "frags_ok fs"
    and ia: "inv_all pend s" and inv: "xinv X fs C s"
    and pop: "tryPopRequest (comq s) = (Some c, q)"
    and t: "submit_ve ops c (s\<lparr>comq := q\<rparr>) = Again t \<or> submit_ve ops c (s\<lparr>comq := q\<rparr>) = Ret rv t"
  shows "\<exists>C'. xinv X fs C' t"
proof -
  let ?s = "s\<lparr>comq := q\<rparr>"
  have q: "request (comq s) = c # request q" "inflight q = inflight (comq s)" "completion q = completion (comq s)"
    using pop by (cases "request (comq s)"; auto simp: tryPopRequest_def)+
  have ci: "ctx_inv s" using ia by (simp add: inv_all_def)
  obtain l where c: "is_frag X fs l c" using xinvD(4) [OF inv] q(1) by force
  have cq: "in_queue s (fid fs l)" using c q(1) by (simp add: in_queue_def queued_def is_frag_def)
  have h: "held c ?s" using pop_request_held [OF ci pop] .
  have inv': "xinv X fs C ?s" by (rule xinv_shrink [OF inv]) (use q in auto)
  have sq: "served ops vo (up ?s) (x_ve X) (x_rep X)" using sv by simp
  have up_env: "up ?s = up s" "env ?s = env s" by simp_all
  obtain rv' d e r where run: "run_handler ops (kind c) c ?s = (Inr rv', d, ?s\<lparr>env := e\<rparr>)" and d: "same_cmd c d"
    and zero: "rv' = 0 \<Longrightarrow> urpc_req d = Some r \<and> 0 \<le> r \<and> r < 2 ^ 31 \<and> r \<notin> pend (up s) (env s) \<and>
       mem_at X fs (sent X l C) (?s\<lparr>env := e\<rparr>) \<and> flying X fs (sent X l C) e l r \<and>
       (\<forall>k. k \<noteq> r \<longrightarrow> x_rep X e k = x_rep X (env s) k)"
    and nz: "rv' \<noteq> 0 \<Longrightarrow> x_ve X e = x_ve X (env s) \<and> x_rep X e = x_rep X (env s)"
    using frag_submit [OF ok sq fs c xinvD(3) [OF inv']] unfolding up_env by (metis (no_types))
  let ?e = "?s\<lparr>env := e\<rparr>"
  note fd = is_frag_same [OF c d]
  have hd: "held d ?e" using held_same [OF peeked_held [OF h peeked_empty(2)] d] .
  have sv': "served ops vo (up ?e) (x_ve X) (x_rep X)" using sv by simp
  show ?thesis
  proof (cases "rv' = 0")
    case True
    note z = zero [OF True]
    have "of_int r \<notin> fst ` set (inflight (comq s))"
    proof
      assume "of_int r \<in> fst ` set (inflight (comq s))"
      then obtain c' where "(of_int r, c') \<in> set (inflight (comq s))" by force
      then show False using inflight_pending(1) [OF ia inv] z by blast
    qed
    then have p: "pushInFlight d (comq ?e) = Inr (q\<lparr>inflight := (of_int r, d) # inflight q\<rparr>)"
      using z q(2) by (simp add: pushInFlight_def bm_insert_fresh)
    have "t = ?e\<lparr>comq := q\<lparr>inflight := (of_int r, d) # inflight q\<rparr>\<rparr>"
      using t run p True by (simp add: submit_ve_def)
    moreover have "\<exists>l' r'. is_frag X fs l' c' \<and> urpc_req c' = Some r' \<and> 0 \<le> r' \<and> r' < 2 ^ 31 \<and>
        i = of_int r' \<and> flying X fs (sent X l C) e l' r'"
      if a: "(i, c') \<in> set (inflight q)" for i c'
    proof -
      obtain l' r' where x: "is_frag X fs l' c'" "urpc_req c' = Some r'" "0 \<le> r'" "r' < 2 ^ 31" "i = of_int r'"
        "flying X fs C (env s) l' r'" using xinvD(5) [OF inv, of i c'] a q(2) by auto
      then have "r' \<in> pend (up s) (env s)" using inflight_pending(1) [OF ia inv] a q(2) by auto
      then have "flying X fs (sent X l C) e l' r'"
        using z x(6) by (intro flying_mono [OF x(6)]) (auto simp: sent_def)
      then show ?thesis using x by blast
    qed
    ultimately have "xinv X fs (sent X l C) t"
      using z fd c cq q in_queue_inflight [of _ _ s] d
      by (intro xinv_step [OF inv, where A = "{}"])
        (auto simp: sent_def done_ok_def mem_at_def same_cmd_def is_frag_def)
    then show ?thesis ..
  next
    case False
    note z = nz [OF False]
    let ?x = "setResult (Some (of_int rv')) (Some VEO_COMMAND_ERROR) d"
    let ?u = "?e\<lparr>comq := pushRequestFront d (comq ?e)\<rparr>" and ?v = "?e\<lparr>comq := pushCompletion ?x (comq ?e)\<rparr>"
    have i: "idle_turn ops ?u = Ret rv t \<or> idle_turn ops ?v = Ret rv t"
      using t run False by (auto simp: submit_ve_def split: if_splits)
    have m: "mem_at X fs C ?e" using mem_at_cong [OF xinvD(3) [OF inv]] z by simp
    have fl: "flying X fs C e = flying X fs C (env s)" using z by (simp add: flying_def fun_eq_iff)
    have "xinv X fs C ?u"
      using m fl q fd cq xinvD(5) [OF inv] in_queue_inflight [of _ _ s]
      by (intro xinv_step [OF inv order_refl, where A = "{d}"])
        (auto simp: pushRequestFront_def bq_push_front_def done_ok_def mem_at_def)
    moreover have "xinv X fs C ?v"
      using m fl q xinvD(5) [OF inv] in_queue_inflight [of _ _ s] done_ok_push [where s = ?e and d = ?x]
      by (intro xinv_step [OF inv order_refl, where A = "{}"])
        (auto simp: pushCompletion_def done_ok_def mem_at_def)
    moreover have "ctx_inv ?u" "ctx_inv ?v"
      using held_pushFront [OF hd] held_complete [OF hd, of ?x] by simp_all
    ultimately show ?thesis using i xinv_idle [of X fs C ?u ops vo rv t] xinv_idle [of X fs C ?v ops vo rv t] sv
      by auto
  qed
qed

text \<open>
  A fragment taken out of the requests in flight is completed: \<open>s\<close> is the state without it, \<open>u\<close>
  the one after its result function.
\<close>

lemma xinv_complete:
  assumes fs: "frags_ok fs" and inv: "xinv X fs C s" and K: "C \<subseteq> C'" "peeked K s u"
    and d: "l < length fs" "msgid d = fid fs l" "\<not> in_queue s (fid fs l)"
    and fin: "status d = Some VEO_COMMAND_OK \<Longrightarrow> l \<in> C' \<and> (l = 0 \<or> done_ok s (fid fs (l - 1)))"
    and v: "v = u\<lparr>env := e, comq := pushCompletion d (comq u)\<rparr>" and m: "mem_at X fs C' v"
    and rep: "\<And>i c r. (i, c) \<in> set (inflight (comq s)) \<Longrightarrow> i = of_int r \<Longrightarrow> x_rep X e r = x_rep X (env s) r"
  shows "xinv X fs C' v"
proof -
  have q: "up u = up s" "seq_no u = seq_no s" "request (comq v) = request (comq s)"
    "inflight (comq v) = inflight (comq s)"
    "completion (comq u) = filter (\<lambda>e. fst e \<notin> K) (completion (comq s))"
    using K(2) by (simp_all add: peeked_def v pushCompletion_def)
  have qv: "in_queue v i = in_queue s i" for i by (rule in_queue_comq) (simp_all add: q)
  show ?thesis
  proof (rule xinv_step [OF inv K(1) _ _ m, where A = "{}"])
    show "\<forall>(i, c) \<in> set (inflight (comq v)). (\<exists>l r. is_frag X fs l c \<and> urpc_req c = Some r \<and>
        0 \<le> r \<and> r < 2 ^ 31 \<and> i = of_int r \<and> flying X fs C' (env v) l r) \<and> in_queue s (msgid c)"
    proof (intro ballI, clarify)
      fix i c assume a: "(i, c) \<in> set (inflight (comq v))"
      then obtain l' r where x: "is_frag X fs l' c" "urpc_req c = Some r" "0 \<le> r" "r < 2 ^ 31"
        "i = of_int r" "flying X fs C (env s) l' r" using xinvD(5) [OF inv] q(4) by metis
      have "flying X fs C' (env v) l' r" using flying_mono [OF x(6) K(1)] rep a x(5) q(4) by (simp add: v)
      then show "(\<exists>l r. is_frag X fs l c \<and> urpc_req c = Some r \<and> 0 \<le> r \<and> r < 2 ^ 31 \<and> i = of_int r \<and>
          flying X fs C' (env v) l r) \<and> in_queue s (msgid c)"
        using x in_queue_inflight a q(4) by metis
    qed
    show "\<forall>k < length fs. done_ok v (fid fs k) \<longrightarrow> done_ok s (fid fs k) \<or>
        (\<forall>j \<le> k. j \<in> C' \<and> \<not> in_queue v (fid fs j))"
    proof (intro allI impI)
      fix k assume k: "k < length fs" "done_ok v (fid fs k)"
      then consider "done_ok u (fid fs k)" | "k = l" "status d = Some VEO_COMMAND_OK"
        using done_ok_push [of d u "fid fs k"] fid_inj [OF fs _ d(1)] d(2) by (auto simp: v done_ok_def)
      then show "done_ok s (fid fs k) \<or> (\<forall>j \<le> k. j \<in> C' \<and> \<not> in_queue v (fid fs j))"
      proof cases
        case 2
        have "j \<in> C' \<and> \<not> in_queue v (fid fs j)" if "j \<le> l" for j
          using fin [OF 2(2)] d(1,3) that xinvD(6) [OF inv, of "l - 1" j] K(1)
          by (cases "j = l") (auto simp: qv)
        then show ?thesis using 2(1) by blast
      qed (use done_ok_filter [OF q(5)] in blast)
    qed
  qed (use q in \<open>simp_all add: v\<close>)
qed

lemma xinv_reply:
  assumes ok: "urpc_ok ops pend" and sv: "served ops vo (up s) (x_ve X) (x_rep X)" and fs: "frags_ok fs"
    and ia: "inv_all pend s" and inv: "xinv X fs C s" and req: "req \<in> pend (up s) (env s)"
    and rep: "x_rep X (env s) req = Some (mb_cmd m, its)"
    and pl: "urpc_unpack_payload ops (map item_letter its) (set_recv_payload ops (up s) m (env s)) = (0, its)"
    and t: "on_reply ops req m s = Again t \<or> on_reply ops req m s = Ret rv t"
  shows "\<exists>C'. xinv X fs C' t"
proof -
  have ci: "ctx_inv s" and fi: "flight_inv pend s" using ia by (simp_all add: inv_all_def)
  obtain c q where pop: "popInFlight req (comq s) = (Some c, q)"
    using t by (auto simp: on_reply_def split: prod.splits option.splits)
  note p = pop_inflight_held [OF ci pop]
  let ?s = "s\<lparr>comq := q\<rparr>"
  have mem: "(of_int req, c) \<in> set (inflight (comq s))"
    using pop by (auto simp: popInFlight_def bm_tryFindNoWait_def split: option.splits dest: map_of_SomeD)
  obtain l r where c: "is_frag X fs l c" and r: "0 \<le> r" "r < 2 ^ 31" "(of_int req :: u64) = of_int r"
    and fly: "flying X fs C (env s) l r" using xinvD(5) [OF inv mem] by blast
  have run: "ctx_state s \<noteq> VEO_STATE_EXIT" using fi mem by (auto simp: flight_inv_def)
  have "req \<in> {0..<2 ^ 31}" using fi [unfolded flight_inv_run [OF run]] req by blast
  then have rr: "r = req" using inj_onD [OF of_int_small_inj r(3)] r(1,2) by simp
  have inv': "xinv X fs C ?s" by (rule xinv_shrink [OF inv]) (use p in auto)
  obtain res d u where u: "run_unpack ops (kind c) c m (set_recv_payload ops (up s) m (env s)) ?s = (res, d, u)"
    by (metis prod_cases3)
  obtain rv' where rv': "res = Inr rv'" using t pop u by (cases res) (auto simp: on_reply_def)
  obtain K C' where K: "C \<subseteq> C'" "peeked K ?s u" "env u = env s" "mem_at X fs C' u"
    and fin: "status d = Some VEO_COMMAND_OK \<Longrightarrow> l \<in> C' \<and> (l = 0 \<or> done_ok ?s (fid fs (l - 1)))"
    using frag_unpack [OF fs c xinvD(3) [OF inv'] fly _ pl u [unfolded rv']] rep rr by auto
  have d: "same_cmd c d" using run_unpack_frame [OF u] by blast
  define e where "e = urpc_slot_done ops (up u) req m (env u)"
  let ?v = "u\<lparr>env := e, comq := pushCompletion d (comq u)\<rparr>"
  let ?w = "?v\<lparr>ctx_state := VEO_STATE_EXIT, comq := cancelAll (comq ?v)\<rparr>"
  have up: "up u = up s" using K(2) by (simp add: peeked_def)
  have h: "held d (u\<lparr>env := e\<rparr>)"
    using held_same [OF peeked_held [OF peeked_held [OF conjunct1 [OF p] K(2)] peeked_empty(2)] d] .
  have l: "l < length fs" "msgid d = fid fs l" "\<not> nowait d" using c d by (simp_all add: is_frag_def same_cmd_def)
  have m: "mem_at X fs C' ?v"
    by (rule mem_at_cong [OF K(4)]) (use served_keep(1) [OF sv] up K(3) in \<open>simp_all add: e_def\<close>)
  have "msgid c \<notin> set (ids (comq ?s))" using held_fresh p by blast
  then have nq: "\<not> in_queue ?s (fid fs l)"
    using c by (auto simp: in_queue_def queued_def ids_def is_frag_def image_iff)
  have re: "x_rep X e k = x_rep X (env ?s) k" if "(i, c') \<in> set (inflight (comq ?s))" "i = of_int k" for i c' k
    using that p served_keep(2) [OF sv, of k req] up K(3) by (auto simp: e_def)
  have xv: "xinv X fs C' ?v"
    by (rule xinv_complete [OF fs inv' K(1,2) l(1,2) nq _ refl m]) (erule fin, erule (1) re)
  have cv: "ctx_inv ?v" using held_complete [OF h, of d] by simp
  have "mem_at X fs C' ?w" by (rule mem_at_cong [OF m]) simp_all
  then have "xinv X fs C' ?w" by (intro xinv_cancel [OF xv cv]) simp_all
  moreover have "t = ?v \<or> t = ?w"
    using t pop u rv' l(3) by (auto simp: on_reply_def Let_def e_def split: if_splits)
  ultimately show ?thesis using xv by blast
qed

text \<open>One turn of the engine, and the loop.\<close>

lemma xinv_turn:
  assumes ok: "urpc_ok ops pend" and sv: "served ops vo (up (x_from X)) (x_ve X) (x_rep X)" and fs: "frags_ok fs"
    and ia: "inv_all pend s" and inv: "xinv X fs C s"
    and t: "progress_turn ops b s = Again t \<or> progress_turn ops b s = Ret rv t"
  shows "\<exists>C'. xinv X fs C' t"
proof -
  note sv = sv [folded xinvD(1) [OF inv]]
  obtain req m e where g: "urpc_get_cmd ops (up s) (env s) = ((req, m), e)" by (metis surj_pair)
  note get = urpc_ok_get [OF ok g] served_get [OF sv g]
  let ?s = "s\<lparr>env := e\<rparr>"
  have i1: "xinv X fs C ?s" by (rule xinv_shrink [OF inv]) (simp_all add: get)
  have ia': "inv_all pend ?s"
    using ia ctx_inv_cong [of s ?s] flight_inv_cong [of pend s ?s] get(1) by (simp add: inv_all_def)
  have sv': "served ops vo (up ?s) (x_ve X) (x_rep X)" using sv by simp
  show ?thesis
  proof (cases "req \<ge> 0")
    case True
    obtain its where its: "x_rep X (env ?s) req = Some (mb_cmd m, its)"
      "urpc_unpack_payload ops (map item_letter its) (set_recv_payload ops (up ?s) m (env ?s)) = (0, its)"
      using get(4,5) True by auto
    have "req \<in> pend (up ?s) (env ?s)" using get(1,2) True by simp
    moreover have "on_reply ops req m ?s = Again t \<or> on_reply ops req m ?s = Ret rv t"
      using t g True by (simp add: progress_turn_def)
    ultimately show ?thesis using xinv_reply [OF ok sv' fs ia' i1 _ its] by blast
  next
    case neg: False
    show ?thesis
    proof (cases "urpc_next_send_slot ops (up s) e < 0")
      case True
      then show ?thesis using t g neg i1 by (auto simp: progress_turn_def)
    next
      case False
      obtain co q where pop: "tryPopRequest (comq ?s) = (co, q)" by (metis surj_pair)
      show ?thesis
      proof (cases co)
        case None
        then have "q = comq s" using pop by (cases "request (comq s)") (auto simp: tryPopRequest_def)
        then have "idle_turn ops ?s = Ret rv t"
          using t g neg False pop None by (auto simp: progress_turn_def)
        then show ?thesis using xinv_idle [OF i1 _ sv'] ia' by (auto simp: inv_all_def)
      next
        case (Some c)
        have "c \<in> set (request (comq s))" using pop Some by (cases "request (comq s)") (auto simp: tryPopRequest_def)
        then have "\<not> is_vh c" using xinvD(4) [OF inv] by (auto simp: is_frag_def)
        then have "submit_ve ops c (?s\<lparr>comq := q\<rparr>) = Again t \<or> submit_ve ops c (?s\<lparr>comq := q\<rparr>) = Ret rv t"
          using t g neg False pop Some by (simp add: progress_turn_def Let_def)
        then show ?thesis using xinv_submit [OF ok sv' fs ia' i1 pop [unfolded Some]] by blast
      qed
    qed
  qed
qed

lemma xinv_progress:
  assumes ok: "urpc_ok ops pend" and sv: "served ops vo (up (x_from X)) (x_ve X) (x_rep X)" and fs: "frags_ok fs"
    and "inv_all pend s" "xinv X fs C s" "progress_nolock ops b s = (Inr rv, t)"
  shows "inv_all pend t \<and> (\<exists>C'. xinv X fs C' t)"
  using assms
proof (induction ops b s arbitrary: C rule: progress_nolock.induct)
  case (1 ops b s)
  note turn = xinv_turn [OF "1.prems"(1-5), of b] turn_inv_all [OF "1.prems"(1,4), of b]
  show ?case
  proof (cases "progress_turn ops b s")
    case (Again u)
    then obtain D where "xinv X fs D u" "inv_all pend u" using turn by blast
    then show ?thesis using "1.IH" [OF Again "1.prems"(1-3)] "1.prems"(6) Again
      by (simp add: progress_nolock.simps [of ops b s])
  next
    case (Ret x u)
    then show ?thesis using turn "1.prems"(6) by (simp add: progress_nolock.simps [of ops b s])
  qed (use "1.prems"(6) in \<open>simp add: progress_nolock.simps [of ops b s]\<close>)
qed

end
