(* ===== verification/Transfer_Run.thy ===== *)
theory Transfer_Run
  imports Mem_Transfer
begin

text \<open>
  A whole transfer: the loops that submit its fragments, the wait for the last one, and what has
  been copied when the wait ends well.
\<close>

section \<open>Submitting the fragments\<close>

text \<open>Progress issues no identifiers.\<close>

lemma idle_seq: "idle_turn ops s = Ret rv t \<Longrightarrow> seq_no t = seq_no s"
  by (auto simp: idle_turn_def Let_def split: if_splits prod.splits)

lemma turn_seq:
  assumes "progress_turn ops b s = Again t \<or> progress_turn ops b s = Ret rv t"
  shows "seq_no t = seq_no s"
proof -
  obtain req m e where g: "urpc_get_cmd ops (up s) (env s) = ((req, m), e)" by (metis surj_pair)
  let ?s = "s\<lparr>env := e\<rparr>"
  consider (reply) "req \<ge> 0" | (full) "req < 0" "urpc_next_send_slot ops (up ?s) (env ?s) < 0"
    | (send) "req < 0" "\<not> urpc_next_send_slot ops (up ?s) (env ?s) < 0" by linarith
  then show ?thesis
  proof cases
    case reply
    then have o: "on_reply ops req m ?s = Again t \<or> on_reply ops req m ?s = Ret rv t"
      using assms by (simp add: progress_turn_def g)
    then obtain c q where pop: "popInFlight req (comq ?s) = (Some c, q)"
      by (auto simp: on_reply_def split: prod.splits option.splits)
    obtain res d u where u: "run_unpack ops (kind c) c m (set_recv_payload ops (up ?s) m (env ?s))
        (?s\<lparr>comq := q\<rparr>) = (res, d, u)" by (metis prod_cases3)
    have "seq_no u = seq_no s" using run_unpack_frame [OF u] by (auto simp: peeked_def)
    then show ?thesis
      using o unfolding on_reply_eq [OF pop u] by (auto simp: Let_def split: sum.splits if_splits)
  next
    case full
    then show ?thesis using assms by (auto simp: progress_turn_def g)
  next
    case send
    obtain co q where pop: "tryPopRequest (comq ?s) = (co, q)" by (metis surj_pair)
    obtain c res d v where h: "run_handler ops (kind c) c (?s\<lparr>comq := q\<rparr>) = (res, d, v)" "co = None \<or> co = Some c"
      by (metis prod_cases3 option.exhaust)
    have "seq_no v = seq_no s" using run_handler_frame [OF h(1)] by (auto simp: peeked_def)
    then show ?thesis
      using assms send pop h unfolding progress_turn_def g submit_vh_def submit_ve_def
      by (auto simp: Let_def split: if_splits sum.splits dest!: idle_seq)
  qed
qed

lemma progress_seq: "progress_nolock ops b s = (Inr rv, t) \<Longrightarrow> seq_no t = seq_no s"
proof (induction ops b s rule: progress_nolock.induct)
  case (1 ops b s)
  show ?case
  proof (cases "progress_turn ops b s")
    case (Again u)
    then show ?thesis using 1 turn_seq [OF disjI1 [OF Again]] by (simp add: progress_nolock.simps [of ops b s])
  next
    case (Ret x u)
    then show ?thesis using 1 turn_seq [OF disjI2 [OF Ret]] by (simp add: progress_nolock.simps [of ops b s])
  qed (use 1 in \<open>simp add: progress_nolock.simps [of ops b s]\<close>)
qed

text \<open>The copied fragments are among those there are.\<close>

lemma xinv_restrict:
  assumes "xinv X fs C s"
  shows "xinv X fs (C \<inter> {..<length fs}) s"
proof -
  have c: "covered fs (C \<inter> {..<length fs}) = covered fs C" by (auto simp: covered_def fun_eq_iff)
  then have m: "mem_at X fs (C \<inter> {..<length fs}) s"
    using xinvD(3) [OF assms] by (simp add: mem_at_def copied_def)
  have "flying X fs (C \<inter> {..<length fs}) e l r = flying X fs C e l r" if "l < length fs" for e l r
    using that by (simp add: flying_def)
  then show ?thesis using assms m unfolding xinv_def by (fastforce simp: is_frag_def)
qed

text \<open>One more fragment.\<close>

lemma frag_kind_append: "l < length fs \<Longrightarrow> frag_kind X (fs @ gs) l = frag_kind X fs l"
  by (simp add: frag_kind_def Let_def)

lemma xinv_enqueue:
  fixes s :: "'e cst"
  assumes inv: "xinv X fs C s" and C: "C \<subseteq> {..<length fs}" and ci: "ctx_inv s"
    and fs: "frags_ok fs" and n: "total_size fs + n < 2 ^ 64" and sq: "seq_no s \<noteq> VEO_REQUEST_ID_INVALID"
    and fs': "fs' = fs @ [(seq_no s, total_size fs, n)]"
  shows "frags_ok fs'" "xinv X fs' C (enqueue (\<lambda>i. new_CommandImpl i (frag_kind X fs' (length fs))) s)"
proof -
  let ?t = "enqueue (\<lambda>i. new_CommandImpl i (frag_kind X fs' (length fs))) s"
  have new: "seq_no s \<notin> fst ` set fs"
    using xinvD(2) [OF inv] by (fastforce simp: fid_def in_set_conv_nth)
  show "frags_ok fs'" unfolding fs' by (rule frags_ok_snoc [OF fs new sq n])
  have lt: "fid fs' l < seq_no ?t" if "l < length fs'" for l
    using that xinvD(2) [OF inv, of l] less_succ(1) [OF _ sq] less_succ(2) [OF sq] by (cases "l < length fs") (auto simp: fs' enqueue_def less_Suc_eq)
  have c: "copied X fs' C = copied X fs C"
    using C by (auto simp: copied_def covered_def fs' fun_eq_iff intro!: bex_cong)
  have m: "mem_at X fs' C ?t" using xinvD(3) [OF inv] by (simp add: mem_at_def c enqueue_def)
  have isf: "is_frag X fs l c \<Longrightarrow> is_frag X fs' l c" for l c by (simp add: is_frag_def fs' frag_kind_append)
  have fl: "l < length fs \<Longrightarrow> flying X fs' C e l r = flying X fs C e l r" for e l r by (simp add: flying_def fs')
  have q: "in_queue ?t i \<longleftrightarrow> in_queue s i \<or> i = seq_no s" for i
    by (auto simp: in_queue_def queued_def enqueue_def)
  have d: "done_ok ?t i = done_ok s i" for i by (simp add: done_ok_def enqueue_def)
  have nd: "\<not> done_ok s (seq_no s)"
  proof
    assume "done_ok s (seq_no s)"
    then have "seq_no s \<in> set (ids (comq s))"
      using ci keyed_completion_ids by (force simp: done_ok_def ctx_inv_def dest!: map_of_SomeD)
    then show False using ci by (auto simp: ctx_inv_def)
  qed
  have "\<exists>l. is_frag X fs' l c" if "c \<in> set (request (comq ?t))" for c
  proof (cases "c \<in> set (request (comq s))")
    case False
    then have "is_frag X fs' (length fs) c" using that by (simp add: is_frag_def enqueue_def fs')
    then show ?thesis ..
  qed (use xinvD(4) [OF inv] isf in blast)
  moreover have "\<exists>l r. is_frag X fs' l c \<and> urpc_req c = Some r \<and> 0 \<le> r \<and> r < 2 ^ 31 \<and> i = of_int r \<and>
      flying X fs' C (env ?t) l r" if "(i, c) \<in> set (inflight (comq ?t))" for i c
    using xinvD(5) [OF inv, of i c] that isf fl by (fastforce simp: enqueue_def is_frag_def)
  moreover have "k \<in> C \<and> \<not> in_queue ?t (fid fs' k)" if "l < length fs'" "done_ok ?t (fid fs' l)" "k \<le> l" for l k
  proof -
    have l: "l < length fs" using that(1,2) nd unfolding d by (auto simp: fs' less_Suc_eq)
    then have "done_ok s (fid fs l)" "fid fs k < seq_no s" "fid fs' k = fid fs k"
      using that xinvD(2) [OF inv, of k] unfolding d by (auto simp: fs')
    then show ?thesis using xinvD(6) [OF inv l, of k] that(3) unfolding q by auto
  qed
  ultimately show "xinv X fs' C ?t" using xinvD(1) [OF inv] lt m unfolding xinv_def by (auto simp: enqueue_def)
qed

text \<open>The two loops are one, up to the command they submit.\<close>

definition xsubmit ::
  "bool \<Rightarrow> 'e urpc_ops \<Rightarrow> u64 \<Rightarrow> u64 \<Rightarrow> u64 \<Rightarrow> u64 \<Rightarrow> 'e cst \<Rightarrow> u64 \<times> 'e cst" where
  "xsubmit wr = (if wr then sendBuffAsync else recvBuffAsync)"

definition xloop ::
  "bool \<Rightarrow> 'e urpc_ops \<Rightarrow> bool \<Rightarrow> u64 \<Rightarrow> u64 \<Rightarrow> u64 \<Rightarrow> u64 \<Rightarrow> u64 \<Rightarrow> bool \<Rightarrow> 'e cst \<Rightarrow> ('e, u64) res option"
  where
  "xloop wr = (if wr then send_loop else recv_loop)"

definition frag_step :: "u64 \<Rightarrow> u64 \<Rightarrow> u64" where
  "frag_step maxfrag rsize = (if rsize \<le> maxfrag then rsize else maxfrag)"

lemma xloop_eq:
  "xloop wr ops lk maxfrag rsize src dst prev flg s =
     (if rsize > 0
      then let (req, s1) = xsubmit wr ops dst src (frag_step maxfrag rsize) prev s
           in if req = VEO_REQUEST_ID_INVALID then Some (Inr req, s1)
              else case (if flg then (Inr (), s1) else progress ops lk s1) of
                     (Inl e, t) \<Rightarrow> Some (Inl e, t)
                   | (Inr _, t) \<Rightarrow>
                       xloop wr ops lk maxfrag (rsize - frag_step maxfrag rsize)
                         (src + frag_step maxfrag rsize) (dst + frag_step maxfrag rsize) req True t
      else Some (Inr prev, s))"
  by (cases wr) (simp_all only: xloop_def xsubmit_def frag_step_def Let_def if_True if_False
      send_loop.simps [of ops lk maxfrag rsize src dst prev flg s]
      recv_loop.simps [of ops lk maxfrag rsize src dst prev flg s])

lemma xsubmit_closed:
  "seq_no s \<noteq> VEO_REQUEST_ID_INVALID \<Longrightarrow> is_alive ops s \<Longrightarrow> xsubmit wr ops dst src sz prev s =
     (seq_no s, enqueue (\<lambda>i. new_CommandImpl i (if wr then KSendBuff dst src sz prev else KRecvBuff dst src sz prev)) s)"
  "\<not> is_alive ops s \<Longrightarrow> xsubmit wr ops dst src sz prev s = (VEO_REQUEST_ID_INVALID, s)"
  by (simp_all add: xsubmit_def submit_closed) (simp add: sendBuffAsync_def recvBuffAsync_def)

lemma xinv_progress_call:
  assumes ok: "urpc_ok ops pend" and sv: "served ops vo (up (x_from X)) (x_ve X) (x_rep X)" and fs: "frags_ok fs"
    and ia: "inv_all pend s" and inv: "xinv X fs C s" and p: "progress ops lk s = (Inr u, t)"
  shows "inv_all pend t \<and> (\<exists>C'. xinv X fs C' t) \<and> seq_no t = seq_no s"
proof (cases "emptyInFlight (comq s) \<and> lk")
  case True
  obtain r v where n: "progress_nolock ops False s = (r, v)" by (metis surj_pair)
  with True p obtain rv where "r = Inr rv" "v = t" by (cases r) (auto simp: progress_def)
  then show ?thesis using xinv_progress [OF ok sv fs ia inv, of False rv t] progress_seq n by blast
next
  case False
  then have "t = s" using p by (auto simp: progress_def split: if_splits)
  then show ?thesis using ia inv by blast
qed

lemma frag_step:
  assumes "maxfrag \<noteq> 0" "0 < rsize"
  shows "0 < unat (frag_step maxfrag rsize)" "unat (frag_step maxfrag rsize) \<le> unat rsize"
    "unat (rsize - frag_step maxfrag rsize) = unat rsize - unat (frag_step maxfrag rsize)"
proof -
  have le: "frag_step maxfrag rsize \<le> rsize" by (auto simp: frag_step_def)
  then show "unat (frag_step maxfrag rsize) \<le> unat rsize" by (simp add: word_le_nat_alt)
  show "0 < unat (frag_step maxfrag rsize)" using assms by (auto simp: frag_step_def unat_gt_0)
  show "unat (rsize - frag_step maxfrag rsize) = unat rsize - unat (frag_step maxfrag rsize)"
    by (rule unat_sub [OF le])
qed

lemma unat_succ: "n \<noteq> VEO_REQUEST_ID_INVALID \<Longrightarrow> unat (n + 1) = unat n + 1"
proof -
  assume "n \<noteq> VEO_REQUEST_ID_INVALID"
  then have "1 + n \<noteq> 0" using less_succ(2) [of n] by (auto simp: add.commute)
  then show ?thesis using unatSuc [of n] by (simp add: add.commute)
qed

lemma xinv_xloop:
  fixes s :: "'e cst"
  assumes ok: "urpc_ok ops pend" and sv: "served ops vo (up (x_from X)) (x_ve X) (x_rep X)"
    and mf: "maxfrag \<noteq> 0"
    and "frags_ok fs" "inv_all pend s" "xinv X fs C s" "total_size fs + unat rsize < 2 ^ 64"
    and "unat (seq_no s) + unat rsize < 2 ^ 64 - 1"
    and "xloop (x_write X) ops lk maxfrag rsize (x_src X + of_nat (total_size fs))
      (x_dst X + of_nat (total_size fs)) (prev_id fs (length fs)) flg s = Some (Inr req, t)"
    and "req \<noteq> VEO_REQUEST_ID_INVALID"
  shows "\<exists>fs' C'. frags_ok fs' \<and> total_size fs' = total_size fs + unat rsize \<and> inv_all pend t \<and>
    xinv X fs' C' t \<and> req = prev_id fs' (length fs')"
  using assms(4-)
proof (induction "unat rsize" arbitrary: rsize fs C s flg rule: less_induct)
  case less
  show ?case
  proof (cases "0 < rsize")
    case False
    then have "rsize = 0" by (simp add: word_gt_0)
    then have "t = s" "req = prev_id fs (length fs)" "unat rsize = 0"
      using less.prems(6) unfolding xloop_eq [of _ _ _ _ rsize] by simp_all
    then show ?thesis using less.prems by auto
  next
    case True
    define psz where "psz = frag_step maxfrag rsize"
    note ps = frag_step [OF mf True, folded psz_def]
    let ?src = "x_src X + of_nat (total_size fs)" and ?dst = "x_dst X + of_nat (total_size fs)"
    define fs' where "fs' = fs @ [(seq_no s, total_size fs, unat psz)]"
    let ?e = "enqueue (\<lambda>i. new_CommandImpl i (frag_kind X fs' (length fs))) s"
    have sq: "seq_no s \<noteq> VEO_REQUEST_ID_INVALID"
    proof
      assume "seq_no s = VEO_REQUEST_ID_INVALID"
      moreover have "unat VEO_REQUEST_ID_INVALID = 2 ^ 64 - 1"
        by (simp add: VEO_REQUEST_ID_INVALID_def unsigned_minus_1_eq_mask mask_eq_exp_minus_1)
      ultimately show False using less.prems(5) by simp
    qed
    have al: "is_alive ops s"
    proof (rule ccontr)
      assume "\<not> is_alive ops s"
      then show False using less.prems(6,7) True unfolding xloop_eq [of _ _ _ _ rsize]
        by (simp add: xsubmit_closed(2))
    qed
    have k: "(if x_write X then KSendBuff ?dst ?src psz (prev_id fs (length fs))
        else KRecvBuff ?dst ?src psz (prev_id fs (length fs))) = frag_kind X fs' (length fs)"
      by (simp add: frag_kind_def fs'_def)
    have step: "ctx_step ops pend s ?e"
      by (rule enqueue_step [OF al sq]) (simp_all add: frag_kind_def Let_def)
    have ia: "inv_all pend ?e" using ctx_step_inv [OF step ok less.prems(2)] .
    have ci: "ctx_inv s" using less.prems(2) by (simp add: inv_all_def)
    have n: "total_size fs + unat psz < 2 ^ 64" using less.prems(4) ps(2) by linarith
    note e = xinv_enqueue [OF xinv_restrict [OF less.prems(3)] _ ci less.prems(1) n sq fs'_def, simplified]
    obtain r u where p: "(if flg then (Inr (), ?e) else progress ops lk ?e) = (r, u)" by (metis surj_pair)
    have rest: "(case (r, u) of (Inl x, v) \<Rightarrow> Some (Inl x, v) | (Inr _, v) \<Rightarrow>
        xloop (x_write X) ops lk maxfrag (rsize - psz) (?src + psz) (?dst + psz) (seq_no s) True v) = Some (Inr req, t)"
      using less.prems(6) True sq p
      unfolding xloop_eq [of _ _ _ _ rsize] psz_def [symmetric] xsubmit_closed(1) [OF sq al] k by simp
    then obtain x where r: "r = Inr x" by (cases r) auto
    have u: "inv_all pend u" "\<exists>C'. xinv X fs' C' u" "seq_no u = seq_no ?e"
      using p r ia e(2) xinv_progress_call [OF ok sv e(1) ia e(2), of lk x u] by (auto split: if_splits)
    then obtain D where D: "xinv X fs' D u" by blast
    have sz: "total_size fs' = total_size fs + unat psz" "prev_id fs' (length fs') = seq_no s"
      by (simp_all add: fs'_def prev_id_def)
    have addr: "?src + psz = x_src X + of_nat (total_size fs')" "?dst + psz = x_dst X + of_nat (total_size fs')"
      by (simp_all add: sz add.assoc)
    have "unat (seq_no u) = unat (seq_no s) + 1"
      using u(3) unat_succ [OF sq] by (simp add: enqueue_def)
    then have "\<exists>fs'' C'. frags_ok fs'' \<and> total_size fs'' = total_size fs' + unat (rsize - psz) \<and> inv_all pend t \<and>
        xinv X fs'' C' t \<and> req = prev_id fs'' (length fs'')"
      using rest r addr sz ps less.prems(4,5,7)
      by (intro less.hyps [OF _ e(1) u(1) D, of "rsize - psz" True]) simp_all
    then show ?thesis using ps sz by (metis add.assoc le_add_diff_inverse)
  qed
qed

section \<open>Waiting for the last fragment\<close>

text \<open>
  A wait that ends well took the result of a completed command out of a state that progress has led
  to: this holds for every property of states that progress keeps.
\<close>

definition collected :: "u64 \<Rightarrow> 'e cst \<Rightarrow> 'e cst" where
  "collected j u = u\<lparr>comq := (comq u)\<lparr>completion := filter (\<lambda>e. fst e \<noteq> j) (completion (comq u))\<rparr>,
     rem_reqid := rem_reqid u - {j}\<rparr>"

definition collects :: "('e cst \<Rightarrow> bool) \<Rightarrow> u64 \<Rightarrow> u64 option \<Rightarrow> 'e cst \<Rightarrow> bool" where
  "collects I j v t \<longleftrightarrow> (\<exists>u c. I u \<and> j \<in> rem_reqid u \<and> map_of (completion (comq u)) j = Some c \<and>
     status c = Some VEO_COMMAND_OK \<and> v = retval c \<and> t = collected j u)"

lemma await_collects:
  assumes step: "\<And>s rv t. I s \<Longrightarrow> progress_nolock ops True s = (Inr rv, t) \<Longrightarrow> I t"
    and "await_completion ops j s = Some (Inr c, t)" "I s"
  shows "\<exists>u. I u \<and> rem_reqid u = rem_reqid t \<and> map_of (completion (comq u)) j = Some c \<and>
    t = u\<lparr>comq := (comq u)\<lparr>completion := filter (\<lambda>e. fst e \<noteq> j) (completion (comq u))\<rparr>\<rparr>"
proof -
  have "ops' = ops \<longrightarrow> I s \<longrightarrow> (\<forall>c t. y = (Inr c, t) \<longrightarrow> (\<exists>u. I u \<and> rem_reqid u = rem_reqid t \<and>
      map_of (completion (comq u)) j = Some c \<and>
      t = u\<lparr>comq := (comq u)\<lparr>completion := filter (\<lambda>e. fst e \<noteq> j) (completion (comq u))\<rparr>\<rparr>))"
    if "await_completion ops' j s = Some y" for ops' s y
    using that
  proof (induction rule: await_completion.raw_induct [rotated, consumes 1])
    case (1 await ops' j s y)
    show ?case
    proof (cases "waitCompletion_turn j (comq s)")
      case None
      obtain r u where p: "progress_nolock ops' True s = (r, u)" by (metis surj_pair)
      show ?thesis
      proof (cases r)
        case (Inr rv)
        then have "await ops' j u = Some y" using 1(2) None p by simp
        note ih = 1(1) [OF this]
        have "ops' = ops \<Longrightarrow> I s \<Longrightarrow> I u" using step [of s rv u] p Inr by simp
        then show ?thesis using ih by simp
      qed (use 1(2) None p in auto)
    next
      case (Some p)
      then show ?thesis using 1(2)
        by (auto simp: waitCompletion_turn_def bm_wait_turn_def bm_tryFindNoWait_def split: option.splits prod.splits)
    qed
  qed
  then show ?thesis using assms(2,3) by blast
qed

lemma blocking_collects:
  assumes step: "\<And>b s rv t. I s \<Longrightarrow> progress_nolock ops b s = (Inr rv, t) \<Longrightarrow> I t"
    and w: "wait_blocking ops j ret s = Some (Inr (Some VEO_COMMAND_OK), v, t)" and "I s"
  shows "collects I j v t"
proof -
  obtain c u where a: "await_completion ops j s = Some (Inr c, u)" "j \<in> rem_reqid u"
    "status c = Some VEO_COMMAND_OK" "v = retval c" "t = u\<lparr>rem_reqid := rem_reqid u - {j}\<rparr>"
    using w by (auto simp: wait_blocking_def split: if_splits option.splits prod.splits sum.splits)
  have "\<exists>u'. I u' \<and> rem_reqid u' = rem_reqid u \<and> map_of (completion (comq u')) j = Some c \<and>
      u = u'\<lparr>comq := (comq u')\<lparr>completion := filter (\<lambda>e. fst e \<noteq> j) (completion (comq u'))\<rparr>\<rparr>"
    by (rule await_collects [where I = I, OF _ a(1) \<open>I s\<close>]) (rule step)
  then obtain x where "I x" "rem_reqid x = rem_reqid u"
    "map_of (completion (comq x)) j = Some c"
    "u = x\<lparr>comq := (comq x)\<lparr>completion := filter (\<lambda>e. fst e \<noteq> j) (completion (comq x))\<rparr>\<rparr>" by blast
  then show ?thesis using a unfolding collects_def
    by (intro exI [of _ x] exI [of _ c]) (auto simp: collected_def)
qed

lemma peek_collects:
  assumes "peekResult j ret s = (rc, v, t)"
  shows "rc = Some VEO_COMMAND_OK \<Longrightarrow> I s \<Longrightarrow> collects I j v t"
    and "t = s \<or> j \<notin> rem_reqid t" "j \<notin> rem_reqid s \<Longrightarrow> rc = Some VEO_COMMAND_ERROR"
  using assms by (auto simp: peekResult_def peekCompletion_def bm_tryFindNoWait_def collects_def collected_def
      split: if_splits option.splits prod.splits)

lemma wait_collects:
  assumes step: "\<And>b s rv t. I s \<Longrightarrow> progress_nolock ops b s = (Inr rv, t) \<Longrightarrow> I t"
    and "wait_loop ops lks n j ret s = Some (Inr (Some VEO_COMMAND_OK), v, t)" "I s"
  shows "collects I j v t"
proof -
  have "ops' = ops \<longrightarrow> I s \<or> j \<notin> rem_reqid s \<longrightarrow> (\<forall>v t. y = (Inr (Some VEO_COMMAND_OK), v, t) \<longrightarrow> collects I j v t)"
    if "wait_loop ops' lks n j ret s = Some y" for ops' n ret s y
    using that
  proof (induction rule: wait_loop.raw_induct [rotated, consumes 1])
    case (1 wait ops' lks n j ret s y)
    have blk: "collects I j v t"
      if w: "wait_blocking ops j ret s = Some (Inr (Some VEO_COMMAND_OK), v, t)" "I s \<or> j \<notin> rem_reqid s"
      for ret s v t
    proof (cases "j \<in> rem_reqid s")
      case True
      then have i: "I s" using w(2) by blast
      show ?thesis by (rule blocking_collects [where I = I, OF _ w(1) i]) (rule step)
    qed (use w(1) in \<open>simp add: wait_blocking_def\<close>)
    show ?case
    proof (intro impI allI)
      fix v t assume o: "ops' = ops" and s: "I s \<or> j \<notin> rem_reqid s" and y: "y = (Inr (Some VEO_COMMAND_OK), v, t)"
      show "collects I j v t"
      proof (cases "lks n")
        case False
        then show ?thesis using 1(2) o s y blk by simp
      next
        case True
        obtain r u where p: "progress_nolock ops False s = (r, u)" by (metis surj_pair)
        with True 1(2) o y obtain rv where r: "r = Inr rv" by (cases r) auto
        have u: "I u \<or> j \<notin> rem_reqid u"
          using s step p r progress_rem_mono [of ops False s rv u] by blast
        obtain rc ret' u' where k: "peekResult j ret u = (rc, ret', u')" by (metis prod_cases3)
        note pk = peek_collects [OF k]
        show ?thesis
        proof (cases "0 < rv \<or> rc \<noteq> Some VEO_COMMAND_UNFINISHED")
          case True
          then show ?thesis using 1(2) o y \<open>lks n\<close> p r k u pk blk [of ret u v t]
            by (auto split: if_splits)
        next
          case False
          then have "wait ops lks (Suc n) j ret' u' = Some y" using 1(2) o \<open>lks n\<close> p r k by simp
          from 1(1) [OF this] show ?thesis using u pk(2) y by blast
        qed
      qed
    qed
  qed
  then show ?thesis using assms(2,3) by blast
qed

section \<open>The whole transfer\<close>

lemma copied_all:
  assumes "frags_ok fs" "{..<length fs} \<subseteq> C"
  shows "copied X fs C = mem_write (target X) (x_dst X) (mem_read (source X) (x_src X) (total_size fs))"
proof
  fix a
  have "covered fs C = covered fs {..<length fs}" using assms(2) by (auto simp: covered_def fun_eq_iff)
  then show "copied X fs C a = mem_write (target X) (x_dst X) (mem_read (source X) (x_src X) (total_size fs)) a"
    using covered_all [OF assms(1)] by (simp add: copied_def mem_write_def)
qed

lemma xinv_start:
  assumes "request (comq s) = []" "inflight (comq s) = []" "x_from X = s"
  shows "xinv X [] {} s"
  using assms by (auto simp: xinv_def mem_at_def copied_def covered_def source_def target_def)

text \<open>A loop with fragments of size 0 gives up or goes on for ever.\<close>

definition gave_up :: "('e, u64) res \<Rightarrow> bool" where
  "gave_up y \<longleftrightarrow> (\<exists>e. fst y = Inl e) \<or> fst y = Inr VEO_REQUEST_ID_INVALID"

lemma zero_turn:
  assumes "(if 0 < rs then let psz = if rs \<le> mf then rs else mf; (req, s1) = sub psz
      in if req = VEO_REQUEST_ID_INVALID then Some (Inr req, s1)
         else case nxt s1 of (Inl e, t) \<Rightarrow> Some (Inl e, t) | (Inr x, t) \<Rightarrow> go psz req t
    else z) = Some (y :: ('e, u64) res)"
    and "mf = 0" "0 < (rs :: u64)" and go: "\<And>req t. go 0 req t = Some y \<Longrightarrow> gave_up y"
  shows "gave_up y"
proof -
  have p: "(if rs \<le> mf then rs else mf) = 0" using assms(2,3) by simp
  obtain req s1 where s: "sub 0 = (req, s1)" by (metis surj_pair)
  obtain r t where n: "nxt s1 = (r, t)" by (metis surj_pair)
  show ?thesis
  proof (cases "req = VEO_REQUEST_ID_INVALID")
    case True
    then show ?thesis using assms(1,3) unfolding p Let_def s by (auto simp: gave_up_def)
  next
    case False
    then have "(case r of Inl e \<Rightarrow> Some (Inl e, t) | Inr x \<Rightarrow> go 0 req t) = Some y"
      using assms(1,3) unfolding p Let_def s prod.case n by simp
    then show ?thesis using go by (cases r) (auto simp: gave_up_def)
  qed
qed

lemma xloop_zero:
  assumes "xloop wr ops lk 0 rsize src dst prev flg s = Some y" "0 < rsize"
  shows "gave_up y"
proof -
  have "mf = 0 \<longrightarrow> 0 < rs \<longrightarrow> gave_up y"
    if "send_loop ops lk mf rs src dst prev flg s = Some y" for mf rs src dst prev flg s
    using that
  proof (induction rule: send_loop.raw_induct [rotated, consumes 1])
    case (1 loop ops lk mf rs src dst prev flg s y)
    show ?case by (intro impI, rule zero_turn [OF 1(2)]) (auto dest: 1(1))
  qed
  moreover have "mf = 0 \<longrightarrow> 0 < rs \<longrightarrow> gave_up y"
    if "recv_loop ops lk mf rs src dst prev flg s = Some y" for mf rs src dst prev flg s
    using that
  proof (induction rule: recv_loop.raw_induct [rotated, consumes 1])
    case (1 loop ops lk mf rs src dst prev flg s y)
    show ?case by (intro impI, rule zero_turn [OF 1(2)]) (auto dest: 1(1))
  qed
  ultimately show ?thesis using assms by (auto simp: xloop_def split: if_splits)
qed

text \<open>The last fragment is complete: nothing is left in the queues and everything was copied.\<close>

lemma xinv_finished:
  assumes fs: "frags_ok fs" and inv: "xinv X fs C u" and len: "0 < length fs"
    and d: "done_ok u (fid fs (length fs - 1))"
  shows "request (comq u) = []" "inflight (comq u) = []"
    "copied X fs C = mem_write (target X) (x_dst X) (mem_read (source X) (x_src X) (total_size fs))"
proof -
  have all: "k \<in> C \<and> \<not> in_queue u (fid fs k)" if "k < length fs" for k
    using xinvD(6) [OF inv _ d, of k] len that by simp
  have "c \<notin> queued (comq u)" for c
  proof
    assume q: "c \<in> queued (comq u)"
    then obtain l where "is_frag X fs l c" using xinvD(4,5) [OF inv] by (force simp: queued_def)
    then show False using all [of l] imageI [OF q, of msgid] by (simp add: is_frag_def in_queue_def)
  qed
  then have "queued (comq u) = {}" by blast
  then show "request (comq u) = []" "inflight (comq u) = []" by (simp_all add: queued_def)
  show "copied X fs C = mem_write (target X) (x_dst X) (mem_read (source X) (x_src X) (total_size fs))"
    by (rule copied_all [OF fs]) (use all in blast)
qed

lemma transfer_done:
  assumes ok: "urpc_ok ops pend" and sv: "served ops vo (up s) (x_ve X) (x_rep X)" and X: "x_from X = s"
    and ia: "inv_all pend s" and idle: "request (comq s) = []" "inflight (comq s) = []"
    and ids: "unat (seq_no s) + unat sz < 2 ^ 64 - 1" and sz: "sz \<noteq> 0"
    and x: "xloop (x_write X) ops lk maxfrag sz (x_src X) (x_dst X) VEO_REQUEST_ID_INVALID False s = Some (Inr req, s1)"
    and w: "wait_ok ops lks req s1 = Some (Inr 0, t)"
  shows "inv_all pend t \<and> request (comq t) = [] \<and> inflight (comq t) = [] \<and> up t = up s \<and>
    (\<exists>fs C. mem_at X fs C t \<and>
       copied X fs C = mem_write (target X) (x_dst X) (mem_read (source X) (x_src X) (unat sz)))"
proof -
  have rq: "req \<noteq> VEO_REQUEST_ID_INVALID" using w by (auto simp: wait_ok_def)
  obtain v where c: "wait_loop ops lks 0 req None s1 = Some (Inr (Some VEO_COMMAND_OK), v, t)"
    using w rq by (auto simp: wait_ok_def callWaitResult_def split: option.splits prod.splits sum.splits if_splits)
  have mf: "maxfrag \<noteq> 0"
  proof
    assume "maxfrag = 0"
    then show False using xloop_zero [of "x_write X" ops lk sz] x rq sz by (fastforce simp: gave_up_def word_gt_0)
  qed
  have f0: "frags_ok []" by (simp add: frags_ok_def)
  have "\<exists>fs' C'. frags_ok fs' \<and> total_size fs' = total_size [] + unat sz \<and> inv_all pend s1 \<and>
      xinv X fs' C' s1 \<and> req = prev_id fs' (length fs')"
    by (rule xinv_xloop [OF ok _ mf f0 ia xinv_start [OF idle X]]) (use sv X ids x rq in \<open>simp_all add: prev_id_def\<close>)
  then obtain fs C1 where fs: "frags_ok fs" "total_size fs = unat sz" "inv_all pend s1" "xinv X fs C1 s1"
    "req = prev_id fs (length fs)" by auto
  have len: "0 < length fs" using fs(2) sz by (cases fs) (auto simp: unat_eq_0)
  then have last: "req = fid fs (length fs - 1)" using fs(5) by (simp add: prev_id_def)
  let ?I = "\<lambda>u. inv_all pend u \<and> (\<exists>C. xinv X fs C u)"
  have "collects ?I req v t"
    by (rule wait_collects [where I = ?I, OF _ c]) (use xinv_progress [OF ok _ fs(1)] sv X fs in blast)+
  then obtain u d C where u: "inv_all pend u" "xinv X fs C u" "req \<in> rem_reqid u"
    "map_of (completion (comq u)) req = Some d" "status d = Some VEO_COMMAND_OK" "t = collected req u"
    by (auto simp: collects_def)
  have "done_ok u (fid fs (length fs - 1))" using u(4,5) last by (simp add: done_ok_def)
  note fin = xinv_finished [OF fs(1) u(2) len this]
  have pk: "peeked {req} u t"
    using u(3,4,6) by (auto simp: peeked_def collected_def dest!: map_of_SomeD intro: rev_image_eqI)
  have fr: "env t = env u" "ctx_state t = ctx_state u" "hst t = hst u" by (simp_all add: u(6) collected_def)
  have m: "mem_at X fs C t" using xinvD(3) [OF u(2)] fr by (auto intro: mem_at_cong)
  have "request (comq t) = []" "inflight (comq t) = []" using fin by (simp_all add: u(6) collected_def)
  then show ?thesis
    using peeked_inv_all [OF u(1) pk fr(1,2)] m fin fs(2) xinvD(1) [OF u(2)] X u(6) by (auto simp: collected_def)
qed

end
