(* ===== verification/Solo_Request.thy ===== *)
theory Solo_Request
  imports Transfer_Run
begin

text \<open>
  A single request on its way: queued, sent and handled by the VE, answered, unpacked. What the
  caller's wait collects is what the VE's handler answered. The calls and the requests of a
  process handle are instances.
\<close>

section \<open>One request\<close>

text \<open>
  A request in a context that has nothing else to do: its command \<open>s_kind\<close> queued as \<open>s_id\<close> in the
  state \<open>s_from\<close>, the message it sends, the VE process that has handled it, the answer, and the
  host and the value the command ends with when the answer is unpacked.
\<close>

record ('e, 'v) solo =
  s_id :: u64
  s_kind :: cmd_kind
  s_from :: "'e cst"
  s_ve :: "'e \<Rightarrow> 'v ve_proc"
  s_rep :: "'e \<Rightarrow> int \<Rightarrow> reply option"
  s_msg :: "nat \<times> item list"
  s_mid :: "'v ve_proc"
  s_ans :: reply
  s_end :: host
  s_val :: u64

definition same_place :: "('e, 'v) solo \<Rightarrow> 'e cst \<Rightarrow> bool" where
  "same_place S s \<longleftrightarrow> up s = up (s_from S) \<and> ve_sp s = ve_sp (s_from S)"

definition solo_ok :: "'e urpc_ops \<Rightarrow> 'v ve_ops \<Rightarrow> ('e, 'v) solo \<Rightarrow> bool" where
  "solo_ok ops vo S \<longleftrightarrow> \<not> vh_kind (s_kind S) \<and>
     (\<forall>c s r e. same_place S s \<longrightarrow> hst s = hst (s_from S) \<longrightarrow>
        urpc_generic_send ops (up s) (fst (s_msg S)) (snd (s_msg S)) (env s) = (r, e) \<longrightarrow> to_int32 r = r \<longrightarrow>
        run_handler ops (s_kind S) c s = (case submitted r c of (rv, d) \<Rightarrow> (Inr rv, d, s\<lparr>env := e\<rparr>))) \<and>
     (\<exists>rc. ve_handle vo (fst (s_msg S)) (snd (s_msg S)) (s_ve S (env (s_from S))) =
        Some (rc, Some (s_ans S), s_mid S)) \<and>
     (\<forall>c m payload s. hst s = hst (s_from S) \<longrightarrow> mb_cmd m = fst (s_ans S) \<longrightarrow>
        urpc_unpack_payload ops (map item_letter (snd (s_ans S))) payload = (0, snd (s_ans S)) \<longrightarrow>
        (snd (s_ans S) \<noteq> [] \<longrightarrow> payload \<noteq> []) \<longrightarrow>
        run_unpack ops (s_kind S) c m payload s =
          (Inr 0, setResult (Some (s_val S)) (Some VEO_COMMAND_OK) c, s\<lparr>hst := s_end S\<rparr>))"

lemma solo_okD:
  assumes "solo_ok ops vo S"
  shows "\<not> vh_kind (s_kind S)"
    "same_place S s \<Longrightarrow> hst s = hst (s_from S) \<Longrightarrow>
        urpc_generic_send ops (up s) (fst (s_msg S)) (snd (s_msg S)) (env s) = (r, e) \<Longrightarrow> to_int32 r = r \<Longrightarrow>
        run_handler ops (s_kind S) c s = (case submitted r c of (rv, d) \<Rightarrow> (Inr rv, d, s\<lparr>env := e\<rparr>))"
    "\<exists>rc. ve_handle vo (fst (s_msg S)) (snd (s_msg S)) (s_ve S (env (s_from S))) = Some (rc, Some (s_ans S), s_mid S)"
    "hst s = hst (s_from S) \<Longrightarrow> mb_cmd m = fst (s_ans S) \<Longrightarrow>
        urpc_unpack_payload ops (map item_letter (snd (s_ans S))) payload = (0, snd (s_ans S)) \<Longrightarrow>
        (snd (s_ans S) \<noteq> [] \<Longrightarrow> payload \<noteq> []) \<Longrightarrow>
        run_unpack ops (s_kind S) c m payload s =
          (Inr 0, setResult (Some (s_val S)) (Some VEO_COMMAND_OK) c, s\<lparr>hst := s_end S\<rparr>)"
  using assms unfolding solo_ok_def by blast+

definition is_solo :: "('e, 'v) solo \<Rightarrow> cmd \<Rightarrow> bool" where
  "is_solo S c \<longleftrightarrow> msgid c = s_id S \<and> kind c = s_kind S \<and> \<not> is_vh c \<and> \<not> nowait c"

definition untouched :: "('e, 'v) solo \<Rightarrow> 'e cst \<Rightarrow> bool" where
  "untouched S s \<longleftrightarrow> map_of (completion (comq s)) (s_id S) = None \<and> hst s = hst (s_from S)"

definition waiting :: "('e, 'v) solo \<Rightarrow> 'e cst \<Rightarrow> bool" where
  "waiting S s \<longleftrightarrow> untouched S s \<and> s_ve S (env s) = s_ve S (env (s_from S)) \<and> inflight (comq s) = [] \<and>
     (\<exists>c. is_solo S c \<and> request (comq s) = [c])"

definition pending :: "('e, 'v) solo \<Rightarrow> 'e cst \<Rightarrow> bool" where
  "pending S s \<longleftrightarrow> untouched S s \<and> s_ve S (env s) = s_mid S \<and> request (comq s) = [] \<and>
     (\<exists>c r. is_solo S c \<and> inflight (comq s) = [(of_int r, c)] \<and> 0 \<le> r \<and> r < 2 ^ 31 \<and>
        s_rep S (env s) r = Some (s_ans S))"

definition over :: "('e, 'v) solo \<Rightarrow> 'e cst \<Rightarrow> bool" where
  "over S s \<longleftrightarrow> request (comq s) = [] \<and> inflight (comq s) = [] \<and>
     (\<forall>c. map_of (completion (comq s)) (s_id S) = Some c \<longrightarrow> status c = Some VEO_COMMAND_OK \<longrightarrow>
        s_ve S (env s) = s_mid S \<and> hst s = s_end S \<and> retval c = Some (s_val S))"

definition solo_inv :: "('e, 'v) solo \<Rightarrow> 'e cst \<Rightarrow> bool" where
  "solo_inv S s \<longleftrightarrow> same_place S s \<and> (waiting S s \<or> pending S s \<or> over S s)"

lemma is_solo_same: "is_solo S c \<Longrightarrow> same_cmd c d \<Longrightarrow> is_solo S d"
  by (simp add: is_solo_def same_cmd_def)

text \<open>Cancelling completes commands with an error only.\<close>

lemma cancelAll_ok:
  assumes "ctx_inv s" "map_of (completion (cancelAll (comq s))) i = Some c" "status c = Some VEO_COMMAND_OK"
  shows "map_of (completion (comq s)) i = Some c"
proof -
  have "comq_wf (comq s)" using assms(1) by (simp add: comq_wf_keyed ctx_inv_def)
  note cl = cancelAll_closed [OF this]
  have "map_of (map cancelled cs) i = Some d \<Longrightarrow> status d \<noteq> Some VEO_COMMAND_OK" for cs d
    by (auto simp: cancelled_def dest!: map_of_SomeD)
  from this [of "rev (map snd (inflight (comq s)))"] this [of "rev (request (comq s))"] show ?thesis
    using assms(2,3) by (auto simp: cl map_add_def rev_map split: option.splits)
qed

lemma solo_cancel:
  assumes "solo_inv S s" "ctx_inv s" "comq t = cancelAll (comq s)"
    and "up t = up s" "ve_sp t = ve_sp s" "hst t = hst s" "s_ve S (env t) = s_ve S (env s)"
  shows "solo_inv S t"
proof -
  have "comq_wf (comq s)" using assms(2) by (simp add: comq_wf_keyed ctx_inv_def)
  then have "request (comq t) = []" "inflight (comq t) = []" using assms(3) by (simp_all add: cancelAll_closed)
  then have "over S t"
    using assms(1) cancelAll_ok [OF assms(2), of "s_id S"] unfolding over_def assms(3,6,7)
    by (auto simp: solo_inv_def waiting_def pending_def untouched_def over_def)
  then show ?thesis using assms(1,4,5) by (simp add: solo_inv_def same_place_def)
qed

text \<open>Another world that looks the same.\<close>

lemma solo_cong:
  assumes "solo_inv S s" "up t = up s" "ve_sp t = ve_sp s" "hst t = hst s" "comq t = comq s"
    and "s_ve S (env t) = s_ve S (env s)" "s_rep S (env t) = s_rep S (env s)"
  shows "solo_inv S t"
  using assms by (auto simp: solo_inv_def same_place_def waiting_def pending_def untouched_def over_def)

lemma solo_idle:
  assumes inv: "solo_inv S s" and ci: "ctx_inv s" and sv: "served ops vo (up s) (s_ve S) (s_rep S)"
    and r: "idle_turn ops s = Ret rv t"
  shows "solo_inv S t"
proof -
  obtain dead e where w: "waitpid_exited ops (env s) = (dead, e)" by (metis surj_pair)
  have e: "s_ve S e = s_ve S (env s)" "s_rep S e = s_rep S (env s)"
    using served_keep(3,4) [OF sv, of "env s"] w by simp_all
  have t: "up t = up s" "ve_sp t = ve_sp s" "hst t = hst s" "s_ve S (env t) = s_ve S (env s)"
    "s_rep S (env t) = s_rep S (env s)" "comq t = comq s \<or> comq t = cancelAll (comq s)"
    using r w e by (auto simp: idle_turn_def Let_def split: if_splits)
  then show ?thesis using solo_cancel [OF inv ci] solo_cong [OF inv] by blast
qed

lemma solo_submit:
  assumes ok: "urpc_ok ops pend" and sv: "served ops vo (up s) (s_ve S) (s_rep S)" and so: "solo_ok ops vo S"
    and ci: "ctx_inv s" and inv: "solo_inv S s" and pop: "tryPopRequest (comq s) = (Some c, q)"
    and t: "submit_ve ops c (s\<lparr>comq := q\<rparr>) = Again t \<or> submit_ve ops c (s\<lparr>comq := q\<rparr>) = Ret rv t"
  shows "solo_inv S t"
proof -
  let ?s = "s\<lparr>comq := q\<rparr>"
  have q: "request (comq s) = c # request q" "inflight q = inflight (comq s)" "completion q = completion (comq s)"
    using pop by (cases "request (comq s)"; auto simp: tryPopRequest_def)+
  have w: "waiting S s" using inv q(1) by (auto simp: solo_inv_def pending_def over_def)
  then have c: "is_solo S c" "request q = []" "inflight q = []" using q by (auto simp: waiting_def)
  have pl: "same_place S ?s" using inv by (simp add: solo_inv_def same_place_def)
  have hs: "hst ?s = hst (s_from S)" using w by (simp add: waiting_def untouched_def)
  obtain r e where g: "urpc_generic_send ops (up ?s) (fst (s_msg S)) (snd (s_msg S)) (env ?s) = (r, e)" by (metis surj_pair)
  note send = urpc_ok_send [OF ok g]
  have sq: "served ops vo (up ?s) (s_ve S) (s_rep S)" using sv by simp
  note vsend = served_send [OF sq g]
  have "r < 2 ^ 31" "- (2 ^ 31) \<le> r" using send by (cases "r \<ge> 0"; simp)+
  then have r: "to_int32 r = r" using to_int32_small by simp
  obtain rv' d where d: "submitted r c = (rv', d)" by (metis surj_pair)
  have run: "run_handler ops (kind c) c ?s = (Inr rv', d, ?s\<lparr>env := e\<rparr>)"
    using solo_okD(2) [OF so pl hs g r] c d by (simp add: is_solo_def)
  note sub = submitted_cases [OF d]
  have sd: "is_solo S d" using is_solo_same [OF c(1)] sub by blast
  let ?e = "?s\<lparr>env := e\<rparr>"
  have hd: "held d ?e"
    using held_same [OF peeked_held [OF pop_request_held [OF ci pop] peeked_empty(2)]] sub by blast
  have pe: "same_place S t" if "up t = up s" "ve_sp t = ve_sp s" for t
    using that inv by (simp add: solo_inv_def same_place_def)
  show ?thesis
  proof (cases "r \<ge> 0")
    case True
    have ve: "s_ve S (env s) = s_ve S (env (s_from S))" using w by (simp add: waiting_def)
    have p: "pushInFlight d (comq ?e) = Inr (q\<lparr>inflight := [(of_int r, d)]\<rparr>)"
      using sub True c(3) by (simp add: pushInFlight_def bm_insert_key_def)
    have "t = ?e\<lparr>comq := q\<lparr>inflight := [(of_int r, d)]\<rparr>\<rparr>"
      using t run p True sub by (simp add: submit_ve_def)
    moreover obtain rc where "ve_handle vo (fst (s_msg S)) (snd (s_msg S)) (s_ve S (env s)) = Some (rc, Some (s_ans S), s_mid S)"
      using solo_okD(3) [OF so] ve by auto
    ultimately have "untouched S t \<and> s_ve S (env t) = s_mid S \<and> request (comq t) = [] \<and>
        inflight (comq t) = [(of_int r, d)] \<and> r < 2 ^ 31 \<and> s_rep S (env t) r = Some (s_ans S)"
      using vsend send True c w q(3) by (simp add: untouched_def waiting_def)
    then have "pending S t" using True sd unfolding pending_def by blast
    then show ?thesis using pe \<open>t = _\<close> by (simp add: solo_inv_def)
  next
    case False
    let ?x = "setResult (Some (of_int rv')) (Some VEO_COMMAND_ERROR) d"
    let ?u = "?e\<lparr>comq := pushRequestFront d (comq ?e)\<rparr>" and ?v = "?e\<lparr>comq := pushCompletion ?x (comq ?e)\<rparr>"
    have rv: "rv' \<noteq> 0" using sub False by simp
    have i: "idle_turn ops ?u = Ret rv t \<or> idle_turn ops ?v = Ret rv t"
      using t run rv by (auto simp: submit_ve_def split: if_splits)
    have e: "s_ve S e = s_ve S (env s)" using vsend False by simp
    have "waiting S ?u"
      using w sd c e q(3) by (simp add: waiting_def untouched_def pushRequestFront_def bq_push_front_def)
    then have "solo_inv S ?u" using pe by (simp add: solo_inv_def)
    moreover have "over S ?v"
      using w sd c q(3) by (simp add: over_def waiting_def untouched_def pushCompletion_def bm_insert_def
          bm_insert_key_def is_solo_def)
    then have "solo_inv S ?v" using pe by (simp add: solo_inv_def)
    moreover have "ctx_inv ?u" "ctx_inv ?v"
      using held_pushFront [OF hd] held_complete [OF hd, of ?x] by simp_all
    ultimately show ?thesis using i solo_idle [of S ?u ops vo rv t] solo_idle [of S ?v ops vo rv t] sv
      by auto
  qed
qed

lemma solo_reply:
  assumes sv: "served ops vo (up s) (s_ve S) (s_rep S)" and so: "solo_ok ops vo S"
    and fi: "flight_inv pend s" and inv: "solo_inv S s" and req: "req \<in> pend (up s) (env s)"
    and rep: "s_rep S (env s) req = Some (mb_cmd m, its)"
    and pl: "urpc_unpack_payload ops (map item_letter its) (set_recv_payload ops (up s) m (env s)) = (0, its)"
    and ne: "its \<noteq> [] \<Longrightarrow> set_recv_payload ops (up s) m (env s) \<noteq> []"
    and t: "on_reply ops req m s = Again t \<or> on_reply ops req m s = Ret rv t"
  shows "solo_inv S t"
proof -
  obtain c q where pop: "popInFlight req (comq s) = (Some c, q)"
    using t by (auto simp: on_reply_def split: prod.splits option.splits)
  have mem: "(of_int req, c) \<in> set (inflight (comq s))"
    using pop by (auto simp: popInFlight_def bm_tryFindNoWait_def split: option.splits dest: map_of_SomeD)
  then have p: "pending S s" using inv by (auto simp: solo_inv_def waiting_def over_def)
  then obtain r where r: "inflight (comq s) = [(of_int r, c)]" "0 \<le> r" "r < 2 ^ 31" "is_solo S c"
    "s_rep S (env s) r = Some (s_ans S)" and rq: "(of_int req :: u64) = of_int r"
    using mem by (auto simp: pending_def)
  have run: "ctx_state s \<noteq> VEO_STATE_EXIT" using fi mem by (auto simp: flight_inv_def)
  have "req \<in> {0..<2 ^ 31}" using fi [unfolded flight_inv_run [OF run]] req by blast
  then have "r = req" using inj_onD [OF of_int_small_inj rq] r(2,3) by simp
  then have ans: "s_ans S = (mb_cmd m, its)" using r(5) rep by simp
  have q: "request q = []" "inflight q = []" "completion q = completion (comq s)"
    using pop r(1) p by (auto simp: popInFlight_def bm_tryFindNoWait_def pending_def split: if_splits)
  let ?s = "s\<lparr>comq := q\<rparr>"
  let ?d = "setResult (Some (s_val S)) (Some VEO_COMMAND_OK) c" and ?u = "?s\<lparr>hst := s_end S\<rparr>"
  have "hst ?s = hst (s_from S)" using p by (simp add: pending_def untouched_def)
  from solo_okD(4) [OF so this, of m]
  have u: "run_unpack ops (kind c) c m (set_recv_payload ops (up s) m (env s)) ?s = (Inr 0, ?d, ?u)"
    using ans pl ne r(4) by (simp add: is_solo_def)
  have "t = ?u\<lparr>env := urpc_slot_done ops (up s) req m (env s), comq := pushCompletion ?d q\<rparr>"
    using t pop u r(4) by (auto simp: on_reply_def Let_def is_solo_def)
  moreover have "over S (?u\<lparr>env := urpc_slot_done ops (up s) req m (env s), comq := pushCompletion ?d q\<rparr>)"
    using q p served_keep(1) [OF sv] r(4) by (simp add: over_def pending_def untouched_def pushCompletion_def
        bm_insert_def bm_insert_key_def is_solo_def)
  ultimately show ?thesis using inv by (simp add: solo_inv_def same_place_def)
qed

lemma solo_turn:
  assumes ok: "urpc_ok ops pend" and sv: "served ops vo (up (s_from S)) (s_ve S) (s_rep S)" and so: "solo_ok ops vo S"
    and ia: "inv_all pend s" and inv: "solo_inv S s"
    and t: "progress_turn ops b s = Again t \<or> progress_turn ops b s = Ret rv t"
  shows "solo_inv S t"
proof -
  have "up s = up (s_from S)" using inv by (simp add: solo_inv_def same_place_def)
  note sv = sv [folded this]
  obtain req m e where g: "urpc_get_cmd ops (up s) (env s) = ((req, m), e)" by (metis surj_pair)
  note get = urpc_ok_get [OF ok g] served_get [OF sv g]
  let ?s = "s\<lparr>env := e\<rparr>"
  have i1: "solo_inv S ?s" by (rule solo_cong [OF inv]) (simp_all add: get)
  have ia': "ctx_inv ?s" "flight_inv pend ?s"
    using ia ctx_inv_cong [of s ?s] flight_inv_cong [of pend s ?s] get(1) by (simp_all add: inv_all_def)
  have sv': "served ops vo (up ?s) (s_ve S) (s_rep S)" using sv by simp
  consider (reply) "req \<ge> 0" | (full) "req < 0" "urpc_next_send_slot ops (up s) e < 0"
    | (send) "req < 0" "\<not> urpc_next_send_slot ops (up s) e < 0" by linarith
  then show ?thesis
  proof cases
    case reply
    obtain its where its: "s_rep S (env ?s) req = Some (mb_cmd m, its)"
      "urpc_unpack_payload ops (map item_letter its) (set_recv_payload ops (up ?s) m (env ?s)) = (0, its)"
      "its \<noteq> [] \<Longrightarrow> set_recv_payload ops (up ?s) m (env ?s) \<noteq> []"
      using get(4,5) reply by auto
    have "req \<in> pend (up ?s) (env ?s)" using get(1,2) reply by simp
    moreover have "on_reply ops req m ?s = Again t \<or> on_reply ops req m ?s = Ret rv t"
      using t g reply by (simp add: progress_turn_def)
    ultimately show ?thesis using solo_reply [OF sv' so ia'(2) i1 _ its] by blast
  next
    case full
    then show ?thesis using t g i1 by (auto simp: progress_turn_def)
  next
    case send
    obtain co q where pop: "tryPopRequest (comq ?s) = (co, q)" by (metis surj_pair)
    show ?thesis
    proof (cases co)
      case None
      then have "q = comq s" using pop by (cases "request (comq s)") (auto simp: tryPopRequest_def)
      then have "idle_turn ops ?s = Ret rv t" using t g send pop None by (auto simp: progress_turn_def)
      then show ?thesis by (rule solo_idle [OF i1 ia'(1) sv'])
    next
      case (Some c)
      have "c \<in> set (request (comq s))" using pop Some by (cases "request (comq s)") (auto simp: tryPopRequest_def)
      then have "\<not> is_vh c" using inv by (auto simp: solo_inv_def waiting_def pending_def over_def is_solo_def)
      then have "submit_ve ops c (?s\<lparr>comq := q\<rparr>) = Again t \<or> submit_ve ops c (?s\<lparr>comq := q\<rparr>) = Ret rv t"
        using t g send pop Some by (simp add: progress_turn_def Let_def)
      then show ?thesis by (rule solo_submit [OF ok sv' so ia'(1) i1 pop [unfolded Some]])
    qed
  qed
qed

lemma solo_progress:
  assumes "urpc_ok ops pend" "served ops vo (up (s_from S)) (s_ve S) (s_rep S)" "solo_ok ops vo S"
    and "inv_all pend s" "solo_inv S s" "progress_nolock ops b s = (Inr rv, t)"
  shows "inv_all pend t \<and> solo_inv S t"
  using assms
proof (induction ops b s rule: progress_nolock.induct)
  case (1 ops b s)
  note turn = solo_turn [OF "1.prems"(1-5), of b] turn_inv_all [OF "1.prems"(1,4), of b]
  show ?case
  proof (cases "progress_turn ops b s")
    case (Again u)
    then have "solo_inv S u" "inv_all pend u" using turn by blast+
    then show ?thesis using "1.IH" [OF Again "1.prems"(1-3)] "1.prems"(6) Again
      by (simp add: progress_nolock.simps [of ops b s])
  next
    case (Ret x u)
    then show ?thesis using turn "1.prems"(6) by (simp add: progress_nolock.simps [of ops b s])
  qed (use "1.prems"(6) in \<open>simp add: progress_nolock.simps [of ops b s]\<close>)
qed


lemma solo_wait:
  assumes "urpc_ok ops pend" "served ops vo (up (s_from S)) (s_ve S) (s_rep S)" "solo_ok ops vo S"
    and "inv_all pend s" "solo_inv S s"
    and w: "callWaitResult ops lks (s_id S) ret s = Some (Inr (Some VEO_COMMAND_OK), v, t)"
  shows "v = Some (s_val S) \<and> s_ve S (env t) = s_mid S \<and> hst t = s_end S \<and> inv_all pend t \<and>
    \<not> isActive (comq t) \<and> same_place S t"
proof -
  let ?I = "\<lambda>s. inv_all pend s \<and> solo_inv S s"
  have "collects ?I (s_id S) v t"
    by (rule wait_collects [where I = ?I, OF _ w [unfolded callWaitResult_def]])
      (use solo_progress [OF assms(1-3)] assms(4,5) in blast)+
  then obtain u c where u: "inv_all pend u" "solo_inv S u" "s_id S \<in> rem_reqid u"
    "map_of (completion (comq u)) (s_id S) = Some c" "status c = Some VEO_COMMAND_OK" "v = retval c"
    "t = collected (s_id S) u" unfolding collects_def by blast
  have "peekResult (s_id S) None u = (status c, v, t)"
    using u(3,4,6,7) by (simp add: peekResult_def peekCompletion_def bm_tryFindNoWait_def collected_def)
  then have "inv_all pend t" using ctx_step_inv [OF ctx_step.collect assms(1) u(1)] by blast
  moreover have "over S u" using u(2,4) by (auto simp: solo_inv_def waiting_def pending_def untouched_def)
  ultimately show ?thesis
    using u by (auto simp: over_def collected_def isActive_def solo_inv_def same_place_def)
qed

lemma solo_start:
  assumes ci: "ctx_inv s" and idle: "\<not> isActive (comq s)"
    and S: "s_id S = seq_no s" "s_from S = s"
  shows "solo_inv S (enqueue (\<lambda>i. new_CommandImpl i (s_kind S)) s)"
proof -
  have "map_of (completion (comq s)) (seq_no s) = None"
  proof (rule ccontr)
    assume "map_of (completion (comq s)) (seq_no s) \<noteq> None"
    then have "seq_no s \<in> set (ids (comq s))"
      using ci keyed_completion_ids by (force simp: ctx_inv_def dest!: map_of_SomeD)
    then show False using ci by (auto simp: ctx_inv_def)
  qed
  then show ?thesis using idle S
    by (simp add: solo_inv_def same_place_def waiting_def untouched_def enqueue_def isActive_def is_solo_def
        new_CommandImpl_def)
qed

end
