(* ===== verification/Call_Frame.thy ===== *)
theory Call_Frame
  imports Call_Args
begin

text \<open>
  The VE stack frame of a call: what \<^verbatim>\<open>CallArgs::setup\<close>, \<^verbatim>\<open>CallArgs::getStackImage\<close> and
  \<^verbatim>\<open>CallArgs::copyout\<close> of \<^verbatim>\<open>CallArgs.cpp\<close> compute, against the reference layout of
  \<^verbatim>\<open>Call_Args\<close>: the frame header and parameter area, one 8-byte slot per argument, the padded
  stack buffers in argument order, zeros up to a multiple of 16. The properties at the end are
  stated on the operations of the code.
\<close>

section \<open>The size of the frame\<close>

lemma ucast_add_down: "(ucast (a + b :: u64) :: u32) = ucast a + ucast b"
proof (transfer)
  fix a b :: int
  have "take_bit 32 (take_bit 64 a + take_bit 64 b) =
      take_bit 32 (take_bit 32 (take_bit 64 a) + take_bit 32 (take_bit 64 b))"
    by (simp only: take_bit_add)
  then show "take_bit LENGTH(32) (take_bit LENGTH(64) (a + b)) =
    take_bit LENGTH(32) (take_bit LENGTH(64) a + take_bit LENGTH(64) b)"
    by (simp add: take_bit_add)
qed

lemma ucast_scast_down: "(ucast (scast (x :: u32) :: u64) :: u32) = x"
  by (rule bit_word_eqI) (simp add: bit_simps)

lemma ucast_of_nat_down: "(ucast (of_nat n :: u64) :: u32) = of_nat n"
  by (rule bit_word_eqI) (simp add: bit_simps)

lemma sizeOnStack_data_len: "sizeOnStack a = of_nat (data_len a)"
proof (cases a)
  case (ArgOnStack buff len i out v)
  have m: "unat (len mod 8) = unat len mod 8" by (simp add: unat_mod_distrib)
  then have le: "unat (len mod 8) \<le> 8" by simp
  have "of_nat (8 - unat (len mod 8)) = (8 - len mod 8 :: u64)"
    by (simp only: of_nat_diff [OF le]) simp
  moreover have "len mod 8 > 0 \<longleftrightarrow> unat (len mod 8) > 0" by (metis unat_gt_0 word_gt_0)
  ultimately show ?thesis by (simp add: ArgOnStack pad_len_def m)
qed simp_all

lemma accumulate_sizes_closed:
  "accumulate_sizes acc (map Some as) = Inr (acc + of_nat (sum_list (map data_len as)))"
proof (induction as arbitrary: acc)
  case (Cons a as)
  have "ucast ((scast acc :: u64) + sizeOnStack a) = acc + (of_nat (data_len a) :: u32)"
    by (simp only: ucast_add_down ucast_scast_down sizeOnStack_data_len ucast_of_nat_down)
  then show ?case by (simp add: Cons.IH add.assoc)
qed simp

definition round16 :: "nat \<Rightarrow> nat" where
  "round16 n = ((n + 15) div 16) * 16"

definition frame_len :: "arg list \<Rightarrow> nat" where
  "frame_len as = PARAM_AREA_OFFSET + 8 * length as + sum_list (map data_len as)"

definition frame_size :: "arg list \<Rightarrow> u64" where
  "frame_size as = ((scast (of_nat (frame_len as) :: u32) + 15) div 16) * 16"

definition frame_image :: "mem \<Rightarrow> arg list \<Rightarrow> bytes" where
  "frame_image m P =
     (let img = replicate PARAM_AREA_OFFSET 0 @ slots 0 P @ concat (map (data_bytes m) P)
      in img @ replicate (round16 (length img) - length img) 0)"

lemma map_data_place [simp]:
  "map data_len (place tp off as) = map data_len as"
  "map (data_bytes m) (place tp off as) = map (data_bytes m) as"
  by (induction as arbitrary: off) auto

lemma round16_ge: "n \<le> round16 n"
  unfolding round16_def by linarith

lemma length_frame_image [simp]: "length (frame_image m as) = round16 (frame_len as)"
  using round16_ge [of "frame_len as"]
  by (simp add: frame_image_def frame_len_def Let_def length_concat comp_def
      add.assoc)

lemma getStackImage_closed:
  fixes sp :: u64
  assumes "arguments ca = map Some as"
  defines "tp \<equiv> sp - frame_size as"
  defines "P \<equiv> place tp (PARAM_AREA_OFFSET + 8 * length as) as"
  shows "getStackImage m sp ca =
    Inr (ca\<lparr>arguments := map Some P, stack_top := tp, stack_size := frame_size as,
           copied_in := any_in 0 as, copied_out := list_ex arg_out as\<rparr>, frame_image m P)"
proof -
  have "image_loop m tp 0 (map Some as)
      (replicate PARAM_AREA_OFFSET 0 @ replicate (8 * length as) 0 @ []) False False =
    Inr (map Some P, replicate PARAM_AREA_OFFSET 0 @ slots 0 P @ concat (map (data_bytes m) as),
      any_in 0 as, list_ex arg_out as)"
    by (subst image_loop_closed) (simp_all add: P_def)
  moreover have "concat (map (data_bytes m) P) = concat (map (data_bytes m) as)" by (simp add: P_def)
  ultimately show ?thesis
    by (simp add: getStackImage_def numArgs_def assms(1) accumulate_sizes_closed Let_def
        frame_image_def frame_size_def frame_len_def round16_def replicate_add tp_def)
qed

lemma scast_of_nat_small: "n < 2 ^ 31 \<Longrightarrow> scast (of_nat n :: u32) = (of_nat n :: u64)"
proof -
  assume n: "n < 2 ^ 31"
  have "sint (of_nat n :: u32) = int n"
    using n by (simp add: signed_of_nat signed_take_bit_int_eq_self)
  then have "(word_of_int (sint (of_nat n :: u32)) :: u64) = of_nat n" by simp
  then show ?thesis by simp
qed
lemma round16_le: "round16 n \<le> n + 15"
  unfolding round16_def by linarith

lemma round16_dvd: "16 dvd round16 n"
  by (simp add: round16_def)

lemma round16_word:
  assumes n: "n < 2 ^ 63"
  shows "((of_nat n + 15) div 16) * 16 = (of_nat (round16 n) :: u64)"
proof -
  have a: "unat (of_nat n + 15 :: u64) = n + 15"
    using n by (subst unat_add64) simp_all
  have "unat (((of_nat n + 15) div 16) * 16 :: u64) = round16 n"
    using n a by (simp add: unat_word_ariths unat_div round16_def)
  moreover have "unat (of_nat (round16 n) :: u64) = round16 n"
    using n round16_le [of n] by simp
  ultimately show ?thesis by (simp only: word_unat_eq_iff)
qed

lemma frame_size_small:
  "frame_len as < 2 ^ 31 \<Longrightarrow> frame_size as = of_nat (round16 (frame_len as))"
  by (simp add: frame_size_def scast_of_nat_small round16_word)

lemma signed32_wrap:
  assumes "n \<ge> 2 ^ 31"
  shows "sint (of_nat n :: u32) < 0 \<or> int n \<ge> sint (of_nat n :: u32) + 2 ^ 32"
proof (cases "sint (of_nat n :: u32) < 0")
  case False
  have "sint (of_nat n :: u32) = signed_take_bit 31 (int n)" by (simp add: signed_of_nat)
  then have eq: "sint (of_nat n :: u32) = (int n + 2 ^ 31) mod 2 ^ 32 - 2 ^ 31"
    by (simp add: signed_take_bit_eq_take_bit_shift take_bit_eq_mod)
  have "int n = sint (of_nat n :: u32) + 2 ^ 32 * ((int n + 2 ^ 31) div 2 ^ 32)"
    unfolding eq using mult_div_mod_eq [of "2 ^ 32" "int n + 2 ^ 31"] by linarith
  moreover have "(int n + 2 ^ 31) div 2 ^ 32 \<ge> 1" using assms by simp
  ultimately show ?thesis by simp
qed simp

lemma uint_round16: "uint ((x div 16) * 16 :: u64) = uint x div 16 * 16"
proof -
  have "uint x div 16 * 16 \<le> uint x" by simp
  then have "uint x div 16 * 16 < 2 ^ 64" using uint_lt2p [of x] by simp
  moreover have "0 \<le> uint x div 16 * 16" by (simp add: pos_imp_zdiv_nonneg_iff)
  ultimately have "(uint x div 16 * 16) mod 2 ^ 64 = uint x div 16 * 16"
    by (rule mod_pos_pos_trivial [rotated])
  then show ?thesis by (simp add: uint_word_ariths uint_div)
qed

lemma div16_bounds: "x - 15 \<le> x div 16 * 16" "x div 16 * 16 \<le> x" for x :: int
  by linarith+

lemma frame_size_large:
  assumes "2 ^ 31 \<le> frame_len as" "frame_len as < 2 ^ 62"
  shows "frame_size as \<noteq> of_nat (round16 (frame_len as))"
proof
  assume eq: "frame_size as = of_nat (round16 (frame_len as))"
  define n where "n = frame_len as"
  define S where "S = sint (of_nat n :: u32)"
  have bnd: "- (2 ^ 31) \<le> S" "S < 2 ^ 31"
    using sint_ge [of "of_nat n :: u32"] sint_lt [of "of_nat n :: u32"] by (simp_all add: S_def)
  have "(scast (of_nat n :: u32) :: u64) + 15 = word_of_int (S + 15)"
    by (simp add: S_def)
  then have "uint (frame_size as) = uint (word_of_int (S + 15) :: u64) div 16 * 16"
    by (simp only: frame_size_def n_def [symmetric] uint_round16)
  then have "uint (frame_size as) = ((S + 15) mod 2 ^ 64) div 16 * 16"
    by (simp only: uint_word_of_int take_bit_eq_mod) simp
  moreover have "uint (frame_size as) = (int n + 15) div 16 * 16"
    using assms round16_le [of n]
    by (simp add: eq n_def [symmetric] uint_nat) (simp add: round16_def)
  ultimately have *: "((S + 15) mod 2 ^ 64) div 16 * 16 = (int n + 15) div 16 * 16" by simp
  have n: "int n \<ge> 2147483648" "int n < 4611686018427387904" using assms by (simp_all add: n_def)
  define A where "A = (int n + 15) div 16 * 16"
  have A: "int n \<le> A" "A \<le> int n + 15" using div16_bounds [of "int n + 15"] by (simp_all add: A_def)
  define B where "B = (S + 15) mod 2 ^ 64 div 16 * 16"
  have B: "(S + 15) mod 2 ^ 64 - 15 \<le> B" "B \<le> (S + 15) mod 2 ^ 64"
    unfolding B_def by (rule div16_bounds)+
  have AB: "B = A" using * by (simp only: A_def B_def)
  show False
  proof (cases "S + 15 < 0")
    case True
    have "(S + 15) mod 2 ^ 64 = (S + 15 + 2 ^ 64) mod 2 ^ 64" by (simp only: mod_add_self2)
    also have "\<dots> = S + 15 + 2 ^ 64"
      using True bnd by (intro mod_pos_pos_trivial) simp_all
    finally have "(S + 15) mod 2 ^ 64 = S + 15 + 18446744073709551616" by simp
    then show ?thesis using n bnd A B AB by simp
  next
    case False
    then have "(S + 15) mod 2 ^ 64 = S + 15" using bnd by (intro mod_pos_pos_trivial) simp_all
    moreover from signed32_wrap [of n] assms(1) have "S < 0 \<or> int n \<ge> S + 4294967296"
      by (simp add: S_def n_def)
    ultimately show ?thesis using n A B AB by auto
  qed
qed

section \<open>Contents of the frame\<close>

lemma get_at_prefix: "get_at (xs @ ys) (length xs + k) n = get_at ys k n"
  by (simp add: get_at_def)

lemma get_at_slots: "i < length P \<Longrightarrow> get_at (slots n P) (8 * i) 8 = slot (n + i) (P ! i)"
proof (induction P arbitrary: n i)
  case (Cons a P)
  show ?case
  proof (cases i)
    case 0
    then show ?thesis by (simp add: get_at_def)
  next
    case (Suc j)
    have "get_at (slots n (a # P)) (8 * i) 8 = get_at (slot n a @ slots (Suc n) P) (length (slot n a) + 8 * j) 8"
      by (simp add: Suc)
    also have "\<dots> = get_at (slots (Suc n) P) (8 * j) 8" by (rule get_at_prefix)
    finally show ?thesis using Cons.IH [of j "Suc n"] Cons.prems by (simp add: Suc)
  qed
qed simp

definition data_off :: "arg list \<Rightarrow> nat \<Rightarrow> nat" where
  "data_off as i = PARAM_AREA_OFFSET + 8 * length as + sum_list (map data_len (take i as))"

lemma place_nth:
  "i < length as \<Longrightarrow> place tp off as ! i = place_arg tp (off + sum_list (map data_len (take i as))) (as ! i)"
proof (induction as arbitrary: off i)
  case (Cons a as)
  then show ?case by (cases i) (auto simp: algebra_simps)
qed simp

lemma get_at_data:
  "i < length as \<Longrightarrow>
   get_at (concat (map (data_bytes m) as)) (sum_list (map data_len (take i as))) (data_len (as ! i))
     = data_bytes m (as ! i)"
proof (induction as arbitrary: i)
  case (Cons a as)
  show ?case
  proof (cases i)
    case 0
    then show ?thesis by (simp add: get_at_def)
  next
    case (Suc j)
    then show ?thesis
      using Cons get_at_prefix [of "data_bytes m a" _ "sum_list (map data_len (take j as))"]
      by simp
  qed
qed simp

lemma data_off_bound:
  assumes "i < length as"
  shows "data_off as i + data_len (as ! i) \<le> frame_len as"
proof -
  have "sum_list (map data_len as) = sum_list (map data_len (take i as))
      + (data_len (as ! i) + sum_list (map data_len (drop (Suc i) as)))"
    using id_take_nth_drop [OF assms] by (metis list.simps(9) map_append sum_list.Cons sum_list_append)
  then show ?thesis by (simp add: data_off_def frame_len_def)
qed

lemma data_off_mono:
  assumes "i < j" "j \<le> length as"
  shows "data_off as i + data_len (as ! i) \<le> data_off as j"
proof -
  have "data_off (take j as) i + data_len (take j as ! i) \<le> frame_len (take j as)"
    using assms by (intro data_off_bound) simp
  then show ?thesis using assms by (simp add: data_off_def frame_len_def min_def)
qed

lemma data_off_dvd: "8 dvd data_off as i"
proof -
  have "8 dvd sum_list (map data_len xs)" for xs
    by (induction xs) (auto simp: data_len_dvd)
  then show ?thesis by (auto simp: data_off_def const_defs intro!: dvd_add)
qed

lemma frame_image_slot:
  assumes "i < length as"
  shows "get_at (frame_image m as) (PARAM_AREA_OFFSET + 8 * i) 8 = slot i (as ! i)"
proof -
  have "get_at (frame_image m as) (PARAM_AREA_OFFSET + 8 * i) 8 =
      get_at (slots 0 as @ concat (map (data_bytes m) as) @
        replicate (round16 (frame_len as) - frame_len as) 0) (8 * i) 8"
    using get_at_prefix [of "replicate PARAM_AREA_OFFSET 0" _ "8 * i" 8]
    by (simp add: frame_image_def Let_def frame_len_def length_concat comp_def add.assoc)
  also have "\<dots> = get_at (slots 0 as) (8 * i) 8"
    using assms by (intro get_at_append) simp
  finally show ?thesis using get_at_slots [OF assms, of 0] by simp
qed

lemma frame_image_data:
  assumes "i < length as"
  shows "get_at (frame_image m as) (data_off as i) (data_len (as ! i)) = data_bytes m (as ! i)"
proof -
  let ?k = "sum_list (map data_len (take i as))"
  let ?pad = "replicate (round16 (frame_len as) - frame_len as) 0 :: bytes"
  have "frame_image m as =
      (replicate PARAM_AREA_OFFSET 0 @ slots 0 as) @ (concat (map (data_bytes m) as) @ ?pad)"
    by (simp add: frame_image_def Let_def frame_len_def length_concat comp_def add.assoc)
  then have "get_at (frame_image m as) (data_off as i) (data_len (as ! i)) =
      get_at (concat (map (data_bytes m) as) @ ?pad) ?k (data_len (as ! i))"
    using get_at_prefix [of "replicate PARAM_AREA_OFFSET 0 @ slots 0 as" _ ?k "data_len (as ! i)"]
    by (simp add: data_off_def)
  also have "\<dots> = get_at (concat (map (data_bytes m) as)) ?k (data_len (as ! i))"
    using data_off_bound [OF assms]
    by (intro get_at_append) (simp add: data_off_def frame_len_def length_concat comp_def)
  finally show ?thesis using get_at_data [OF assms] by simp
qed

lemma take_bit_scast: "take_bit LENGTH('a) (scast (x :: 'a::len word) :: u64) = ucast x"
proof (rule bit_word_eqI)
  fix n assume n: "n < LENGTH(64)"
  show "bit (take_bit LENGTH('a) (scast x :: u64)) n = bit (ucast x :: u64) n"
  proof (cases "n < LENGTH('a)")
    case True
    then have "min (LENGTH('a) - Suc 0) n = n" by simp
    with True n show ?thesis by (simp add: bit_simps)
  next
    case False
    then have "\<not> bit x n" using bit_imp_le_length by blast
    with False show ?thesis by (simp add: bit_simps)
  qed
qed

lemma take_bit_ucast: "take_bit LENGTH('a) (ucast (x :: 'a::len word) :: u64) = ucast x"
  by (rule bit_word_eqI) (auto simp: bit_simps dest: bit_imp_le_length)

lemma arg_image_regval:
  "arg_getRegVal a = Inr v \<Longrightarrow> snd (arg_image a) = take_bit (8 * fst (arg_image a)) v"
proof -
  assume v: "arg_getRegVal a = Inr v"
  have id: "take_bit 64 (w :: u64) = w" for w
    by (rule bit_word_eqI) (simp add: bit_simps)
  show ?thesis using v take_bit_scast [where 'a = 32] take_bit_scast [where 'a = 16]
      take_bit_scast [where 'a = 8] take_bit_ucast [where 'a = 32] take_bit_ucast [where 'a = 16]
      take_bit_ucast [where 'a = 8]
    by (cases a) (auto simp: id split: option.splits)
qed
lemma slot_value:
  assumes "arg_getRegVal a = Inr v" "NUM_ARGS_ON_REGISTER \<le> i"
  shows "le_word (get_at (slot i a) 0 (fst (arg_image a))) = take_bit (8 * fst (arg_image a)) v"
proof -
  have "get_at (slot i a) 0 (fst (arg_image a)) = le_bytes (fst (arg_image a)) (snd (arg_image a))"
    using assms(2) by (simp add: slot_def get_at_def)
  then show ?thesis using arg_image_regval [OF assms(1)]
    by (simp add: le_word_le_bytes)
qed

lemma getRegVal_loop_closed:
  "count < NUM_ARGS_ON_REGISTER \<Longrightarrow> list_all2 (\<lambda>a v. arg_getRegVal a = Inr v) as vs \<Longrightarrow>
   getRegVal_loop count (map Some as) = Inr (take (NUM_ARGS_ON_REGISTER - count) vs)"
proof (induction as arbitrary: count vs)
  case (Cons a as)
  then obtain v vs' where vs: "vs = v # vs'" "arg_getRegVal a = Inr v"
    "list_all2 (\<lambda>a v. arg_getRegVal a = Inr v) as vs'"
    by (auto simp: list_all2_Cons1)
  show ?case
  proof (cases "Suc count \<ge> NUM_ARGS_ON_REGISTER")
    case True
    with Cons.prems(1) have "NUM_ARGS_ON_REGISTER - count = Suc 0" by simp
    with True show ?thesis by (simp add: vs)
  next
    case False
    with Cons.prems(1) have "NUM_ARGS_ON_REGISTER - count = Suc (NUM_ARGS_ON_REGISTER - Suc count)"
      by simp
    with False Cons.IH [of "Suc count" vs'] vs show ?thesis by simp
  qed
qed simp

section \<open>Copy-out\<close>

text \<open>The copies of a placed argument list, each at the offset of its buffer.\<close>

fun frame_copies :: "nat \<Rightarrow> arg list \<Rightarrow> copy list" where
  "frame_copies off [] = []"
| "frame_copies off (a # as) =
     (case a of
        ArgOnStack buff len i out vemva \<Rightarrow>
          if out then [\<lparr>cp_buff = buff, cp_len = len, cp_off = of_nat off\<rparr>] else []
      | _ \<Rightarrow> []) @ frame_copies (off + data_len a) as"

lemma copyout_funcs_place:
  "copyout_funcs tp (map Some (place tp off as)) = Inr (frame_copies off as)"
proof (induction as arbitrary: off)
  case (Cons a as)
  then show ?case by (cases a) auto
qed simp

lemma frame_copies_mem:
  assumes "i < length as" "as ! i = ArgOnStack buff len inn True v"
  shows "\<lparr>cp_buff = buff, cp_len = len,
      cp_off = of_nat (off + sum_list (map data_len (take i as)))\<rparr> \<in> set (frame_copies off as)"
  using assms
proof (induction as arbitrary: off i)
  case (Cons a as)
  show ?case
  proof (cases i)
    case 0
    with Cons.prems show ?thesis by simp
  next
    case (Suc j)
    with Cons.IH [of j "off + data_len a"] Cons.prems show ?thesis by (simp add: algebra_simps)
  qed
qed simp

lemma frame_copies_bound:
  assumes "c \<in> set (frame_copies off as)" "off + sum_list (map data_len as) < 2 ^ 64"
  shows "unat (cp_off c) + unat (cp_len c) \<le> off + sum_list (map data_len as)"
  using assms
proof (induction as arbitrary: off)
  case (Cons a as)
  show ?case
  proof (cases "c \<in> set (frame_copies (off + data_len a) as)")
    case True
    with Cons.IH [OF True] Cons.prems(2) show ?thesis by (simp add: add.assoc)
  next
    case False
    with Cons.prems show ?thesis by (cases a) (auto split: if_splits)
  qed
qed simp

definition copies_disjoint :: "copy list \<Rightarrow> bool" where
  "copies_disjoint = sorted_wrt (\<lambda>c d.
     disjoint_ranges (cp_buff c) (unat (cp_len c)) (cp_buff d) (unat (cp_len d)))"

lemma run_copyout_payload:
  assumes "\<forall>c \<in> set cs. unat (cp_off c) + unat (cp_len c) \<le> length F"
  shows "\<exists>m'. run_copyout (rd_payload F) cs m = Inr m' \<and>
    (copies_disjoint cs \<longrightarrow>
      (\<forall>c \<in> set cs. mem_read m' (cp_buff c) (unat (cp_len c)) = get_at F (unat (cp_off c)) (unat (cp_len c)))) \<and>
    (\<forall>a n. (\<forall>c \<in> set cs. disjoint_ranges a n (cp_buff c) (unat (cp_len c))) \<longrightarrow>
      mem_read m' a n = mem_read m a n)"
  using assms
proof (induction cs arbitrary: m)
  case (Cons c cs)
  let ?bs = "get_at F (unat (cp_off c)) (unat (cp_len c))"
  let ?m = "mem_write m (cp_buff c) ?bs"
  have len: "length ?bs = unat (cp_len c)" using Cons.prems by simp
  have "length ?bs \<le> 2 ^ 64" using len unat_lt_2p64 [of "cp_len c"] by simp
  then have same: "mem_read ?m (cp_buff c) (unat (cp_len c)) = ?bs"
    using mem_read_write_same [of ?bs m "cp_buff c"] len by simp
  obtain m' where m': "run_copyout (rd_payload F) cs ?m = Inr m'"
    and rd: "copies_disjoint cs \<longrightarrow> (\<forall>c \<in> set cs. mem_read m' (cp_buff c) (unat (cp_len c))
        = get_at F (unat (cp_off c)) (unat (cp_len c)))"
    and fr: "\<forall>a n. (\<forall>c \<in> set cs. disjoint_ranges a n (cp_buff c) (unat (cp_len c))) \<longrightarrow>
        mem_read m' a n = mem_read ?m a n"
    using Cons.IH [of ?m] Cons.prems by auto
  have "run_copyout (rd_payload F) (c # cs) m = Inr m'"
    using m' Cons.prems by (simp add: rd_payload_def)
  moreover have "copies_disjoint (c # cs) \<longrightarrow> (\<forall>d \<in> set (c # cs).
      mem_read m' (cp_buff d) (unat (cp_len d)) = get_at F (unat (cp_off d)) (unat (cp_len d)))"
    using rd fr same by (auto simp: copies_disjoint_def)
  moreover have "\<forall>a n. (\<forall>d \<in> set (c # cs). disjoint_ranges a n (cp_buff d) (unat (cp_len d))) \<longrightarrow>
      mem_read m' a n = mem_read m a n"
    using fr len by (auto simp: mem_simps)
  ultimately show ?case by blast
qed simp

lemma getStackImage_parts:
  assumes "arguments ca = map Some as" "frame_len as < 2 ^ 31"
    and img: "getStackImage m sp ca = Inr (ca', img)"
  shows "stack_size ca' = of_nat (round16 (frame_len as))"
    "stack_top ca' = sp - stack_size ca'"
    "arguments ca' = map Some (place (stack_top ca') (PARAM_AREA_OFFSET + 8 * length as) as)"
    "copied_out ca' = list_ex arg_out as"
    "copied_in ca' = any_in 0 as"
    "img = frame_image m (place (stack_top ca') (PARAM_AREA_OFFSET + 8 * length as) as)"
    "length img = round16 (frame_len as)"
  using img assms(2)
  by (auto simp: getStackImage_closed [OF assms(1)] frame_size_small frame_len_def)

lemma frame_image_place_data:
  assumes "i < length as"
  shows "get_at (frame_image m (place tp off as)) (data_off as i) (data_len (as ! i)) =
    data_bytes m (as ! i)"
proof -
  have i: "i < length (place tp off as)" using assms by simp
  have "data_off (place tp off as) i = data_off as i"
    by (simp add: data_off_def take_map [symmetric])
  then show ?thesis
    using frame_image_data [OF i, of m] place_nth [OF assms] by simp
qed

section \<open>Properties\<close>

lemma setup_args_ok:
  assumes "arguments ca = map Some as" "frame_len as < 2 ^ 31"
  shows "\<exists>ca' h'. setup_args buf sp ca h = Inr (ca', h') \<and>
    stack_size ca' = of_nat (round16 (frame_len as)) \<and>
    stack_top ca' = sp - of_nat (round16 (frame_len as)) \<and>
    arguments ca' = map Some (place (stack_top ca') (PARAM_AREA_OFFSET + 8 * length as) as) \<and>
    stack_buf ca' = buf \<and>
    mem_read (vhmem h') buf (round16 (frame_len as)) =
      frame_image (vhmem h) (place (stack_top ca') (PARAM_AREA_OFFSET + 8 * length as) as)"
proof -
  obtain ca1 img where g: "getStackImage (vhmem h) sp ca = Inr (ca1, img)"
    using getStackImage_closed [OF assms(1)] by blast
  note parts = getStackImage_parts [OF assms g]
  have "round16 (frame_len as) \<le> 2 ^ 64" using assms(2) round16_le [of "frame_len as"] by simp
  then have "mem_read (mem_write (vhmem h) buf img) buf (round16 (frame_len as)) = img"
    using parts(7) mem_read_write_same [of img "vhmem h" buf] by simp
  then show ?thesis
    using parts g
    by (auto simp: setup_args_def Let_def memcpy_to_def new_char_def delete_char_def)
qed

text \<open>
  C17. Below 2 GB \<^verbatim>\<open>setup\<close> never aborts: the frame it allocates is a multiple of 16 bytes, lies
  just below the VE stack pointer, every stack buffer has the VE address the layout gives it, and
  the buffer handed to the transfer holds exactly the reference layout of the placed arguments.
\<close>
theorem setup_builds_frame:
  fixes sp :: u64
  assumes "arguments ca = map Some as" "frame_len as < 2 ^ 31"
  defines "sz \<equiv> round16 (frame_len as)"
  defines "tp \<equiv> sp - of_nat sz"
  defines "P \<equiv> place tp (PARAM_AREA_OFFSET + 8 * length as) as"
  shows "\<exists>ca' h'. setup_args buf sp ca h = Inr (ca', h') \<and>
    arguments ca' = map Some P \<and> stack_top ca' = tp \<and> stack_size ca' = of_nat sz \<and>
    16 dvd sz \<and> stack_buf ca' = buf \<and>
    mem_read (vhmem h') buf sz = frame_image (vhmem h) P"
  using setup_args_ok [OF assms(1,2), of buf sp h]
  by (auto simp: sz_def tp_def P_def round16_dvd)

text \<open>
  C21. The consistency check of \<^verbatim>\<open>setup\<close> fails, and the process aborts, exactly when the frame
  needs 2 GB or more: the size is accumulated in a 32-bit \<^verbatim>\<open>int\<close>.
\<close>
theorem setup_aborts_iff_overflow:
  assumes "arguments ca = map Some as" "frame_len as < 2 ^ 62"
  shows "setup_args buf sp ca h = Inl Aborted \<longleftrightarrow> 2 ^ 31 \<le> frame_len as"
proof (cases "frame_len as < 2 ^ 31")
  case True
  then show ?thesis using setup_args_ok [OF assms(1) True, of buf sp h] by auto
next
  case False
  have "length (frame_image (vhmem h) (place t k as)) = round16 (frame_len as)" for t k
    by (simp add: frame_len_def)
  then show ?thesis using False frame_size_large [of as] assms(2)
    by (simp add: setup_args_def getStackImage_closed [OF assms(1)])
qed

text \<open>
  C20. A parameter from the ninth on is in the parameter area of the frame at offset
  176 + 8 i: the bytes of its width there decode to the low bits of the register value the same
  argument would have had.
\<close>
theorem stack_parameter_slot:
  assumes "arguments ca = map Some as" "frame_len as < 2 ^ 31"
    and "getStackImage m sp ca = Inr (ca', img)"
    and "NUM_ARGS_ON_REGISTER \<le> i" "i < length as"
    and "arguments ca' ! i = Some a" "arg_getRegVal a = Inr v"
  shows "le_word (get_at img (PARAM_AREA_OFFSET + 8 * i) (fst (arg_image a))) =
    take_bit (8 * fst (arg_image a)) v"
proof -
  note parts = getStackImage_parts [OF assms(1-3)]
  let ?P = "place (stack_top ca') (PARAM_AREA_OFFSET + 8 * length as) as"
  have a: "?P ! i = a" using assms(5,6) by (simp add: parts(3))
  have "get_at img (PARAM_AREA_OFFSET + 8 * i) 8 = slot i a"
    using frame_image_slot [of i ?P m] assms(5) a by (simp add: parts(6))
  moreover have "fst (arg_image a) \<le> 8" using arg_image_size [of a] by auto
  ultimately have "get_at img (PARAM_AREA_OFFSET + 8 * i) (fst (arg_image a)) =
      get_at (slot i a) 0 (fst (arg_image a))"
    using get_at_get_at [of 0 "fst (arg_image a)" 8 img "PARAM_AREA_OFFSET + 8 * i"] by simp
  then show ?thesis using slot_value [OF assms(7,4)] by simp
qed

text \<open>
  C19. A stack buffer gets an 8-byte aligned address inside the frame, after all the buffers
  before it, and the image holds its contents there (zeros for an out-only buffer).
\<close>
theorem stack_buffer_in_frame:
  assumes "arguments ca = map Some as" "frame_len as < 2 ^ 31"
    and "getStackImage m sp ca = Inr (ca', img)"
    and "i < length as" "as ! i = ArgOnStack buff len inn out v"
  shows "\<exists>a. arguments ca' ! i = Some (ArgOnStack buff len inn out (Some a)) \<and>
    a = stack_top ca' + of_nat (data_off as i) \<and> 8 dvd data_off as i \<and>
    data_off as i + unat len \<le> length img \<and>
    get_at img (data_off as i) (unat len) =
      (if inn then mem_read m buff (unat len) else replicate (unat len) 0) \<and>
    (\<forall>j < i. data_off as j + data_len (as ! j) \<le> data_off as i)"
proof -
  note parts = getStackImage_parts [OF assms(1-3)]
  have "arguments ca' ! i =
      Some (ArgOnStack buff len inn out (Some (stack_top ca' + of_nat (data_off as i))))"
    using assms(4,5) by (simp add: parts(3) place_nth data_off_def)
  moreover have "data_off as i + unat len \<le> length img"
    using data_off_bound [OF assms(4)] round16_ge [of "frame_len as"] assms(5)
    by (simp add: parts(7))
  moreover have "get_at img (data_off as i) (unat len) =
      get_at (data_bytes m (as ! i)) 0 (unat len)"
    using frame_image_place_data [OF assms(4), of m] assms(5)
      get_at_get_at [of 0 "unat len" "data_len (as ! i)" img "data_off as i"]
    by (simp add: parts(6))
  moreover have "get_at (data_bytes m (as ! i)) 0 (unat len) =
      (if inn then mem_read m buff (unat len) else replicate (unat len) 0)"
    by (simp add: assms(5) get_at_def)
  ultimately show ?thesis using data_off_dvd data_off_mono assms(4) by auto
qed

text \<open>
  C18. After a call, the copy-out function built by \<^verbatim>\<open>copyout\<close> does not read outside the frame
  that came back, and when the VH buffers do not overlap every \<^verbatim>\<open>OUT\<close> or \<^verbatim>\<open>INOUT\<close> buffer holds the
  bytes of its own place in that frame.
\<close>
theorem copyout_returns_buffers:
  assumes "arguments ca = map Some as" "frame_len as < 2 ^ 31"
    and "getStackImage m sp ca = Inr (ca', img)"
    and "copyout ca' = Inr cs" "copies_disjoint cs" "length F = length img"
    and "i < length as" "as ! i = ArgOnStack buff len inn True v"
  shows "\<exists>m'. run_copyout (rd_payload F) cs m0 = Inr m' \<and>
    mem_read m' buff (unat len) = get_at F (data_off as i) (unat len)"
proof -
  note parts = getStackImage_parts [OF assms(1-3)]
  let ?off = "PARAM_AREA_OFFSET + 8 * length as"
  let ?c = "\<lparr>cp_buff = buff, cp_len = len, cp_off = of_nat (data_off as i)\<rparr>"
  have "as ! i \<in> set as" using assms(7) by (rule nth_mem)
  moreover have "arg_out (as ! i)" by (simp add: assms(8))
  ultimately have out: "list_ex arg_out as" unfolding list_ex_iff by blast
  have cs: "cs = frame_copies ?off as"
    using assms(4) out by (simp add: copyout_def parts(3,4) copyout_funcs_place)
  have total: "?off + sum_list (map data_len as) = frame_len as" by (simp add: frame_len_def)
  have bound: "\<forall>c \<in> set cs. unat (cp_off c) + unat (cp_len c) \<le> length F"
  proof
    fix c assume "c \<in> set cs"
    then have "unat (cp_off c) + unat (cp_len c) \<le> frame_len as"
      using frame_copies_bound [of c ?off as] assms(2) by (simp add: cs total)
    then show "unat (cp_off c) + unat (cp_len c) \<le> length F"
      using round16_ge [of "frame_len as"] parts(7) assms(6) by simp
  qed
  obtain m' where "run_copyout (rd_payload F) cs m0 = Inr m'"
    and rd: "\<forall>c \<in> set cs. mem_read m' (cp_buff c) (unat (cp_len c)) =
      get_at F (unat (cp_off c)) (unat (cp_len c))"
    using run_copyout_payload [OF bound, of m0] assms(5) by blast
  moreover have "?c \<in> set cs"
    using frame_copies_mem [OF assms(7,8), of ?off] by (simp add: cs data_off_def)
  moreover have "unat (of_nat (data_off as i) :: u64) = data_off as i"
    using data_off_bound [OF assms(7)] assms(2) by simp
  ultimately show ?thesis using bspec [OF rd, of ?c] by simp
qed

section \<open>A concrete call\<close>

text \<open>Ten arguments: eight in registers, an \<^verbatim>\<open>int32_t\<close> and an \<^verbatim>\<open>INOUT\<close> buffer of five bytes.\<close>

definition demo_args :: "arg list" where
  "demo_args = [ArgI64 1, ArgI64 2, ArgI64 3, ArgI64 4, ArgI64 5, ArgI64 6, ArgI64 7, ArgI64 8,
     ArgI32 (- 5), ArgOnStack 0x1000 5 True True None]"

definition demo_ca :: call_args where
  "demo_ca = new_CallArgs\<lparr>arguments := map Some demo_args\<rparr>"

definition demo_mem :: mem where "demo_mem = (\<lambda>a. ucast a + 7)"

lemma demo_simps:
  "arguments demo_ca = map Some demo_args" "frame_len demo_args = 264" "length demo_args = 10"
  "demo_args ! 8 = ArgI32 (- 5)" "demo_args ! 9 = ArgOnStack 0x1000 5 True True None"
  "data_off demo_args 9 = 256"
  by (simp_all add: demo_ca_def demo_args_def frame_len_def PARAM_AREA_OFFSET_def pad_len_def
      data_off_def)

lemma demo_read: "mem_read demo_mem 0x1000 5 = [7, 8, 9, 10, 11]"
  by (simp add: mem_read_def demo_mem_def upt_conv_Cons)

lemma demo_image: "\<exists>ca' img. getStackImage demo_mem 0x8000 demo_ca = Inr (ca', img)"
  using getStackImage_closed [OF demo_simps(1)] by blast

theorem setup_builds_frame_witness:
  "\<exists>ca' h'. setup_args 0x5000 0x8000 demo_ca \<lparr>vhmem = demo_mem, heap = {}\<rparr> = Inr (ca', h') \<and>
    stack_top ca' = 0x7EF0 \<and> stack_size ca' = 272 \<and> stack_buf ca' = 0x5000"
  using setup_builds_frame [OF demo_simps(1), where buf = "0x5000" and sp = "0x8000"
      and h = "\<lparr>vhmem = demo_mem, heap = {}\<rparr>"]
  by (auto simp: demo_simps round16_def)

theorem setup_aborts_iff_overflow_witness:
  "setup_args 0x5000 0x8000 demo_ca \<lparr>vhmem = demo_mem, heap = {}\<rparr> \<noteq> Inl Aborted"
  using setup_aborts_iff_overflow [OF demo_simps(1), where buf = "0x5000" and sp = "0x8000"
      and h = "\<lparr>vhmem = demo_mem, heap = {}\<rparr>"]
  by (simp add: demo_simps)

theorem stack_parameter_slot_witness:
  "\<exists>ca' img. getStackImage demo_mem 0x8000 demo_ca = Inr (ca', img) \<and>
    le_word (get_at img 240 4) = 0xFFFFFFFB"
proof -
  obtain ca' img where g: "getStackImage demo_mem 0x8000 demo_ca = Inr (ca', img)"
    using demo_image by blast
  have "arguments ca' ! 8 = Some (ArgI32 (- 5))"
    using getStackImage_parts(3) [OF demo_simps(1) _ g] by (simp add: demo_simps place_nth)
  from stack_parameter_slot [OF demo_simps(1) _ g _ _ this, of "scast (- 5 :: u32)"] g
  show ?thesis
    by (simp add: demo_simps NUM_ARGS_ON_REGISTER_def PARAM_AREA_OFFSET_def)
qed

theorem stack_buffer_in_frame_witness:
  "\<exists>ca' img. getStackImage demo_mem 0x8000 demo_ca = Inr (ca', img) \<and>
    arguments ca' ! 9 = Some (ArgOnStack 0x1000 5 True True (Some (stack_top ca' + 256))) \<and>
    get_at img 256 5 = [7, 8, 9, 10, 11]"
proof -
  obtain ca' img where g: "getStackImage demo_mem 0x8000 demo_ca = Inr (ca', img)"
    using demo_image by blast
  from stack_buffer_in_frame [OF demo_simps(1) _ g _ demo_simps(5)] g
  show ?thesis
    by (simp add: demo_simps demo_read)
qed

theorem copyout_returns_buffers_witness:
  "\<exists>ca' img cs m'. getStackImage demo_mem 0x8000 demo_ca = Inr (ca', img) \<and>
    copyout ca' = Inr cs \<and> run_copyout (rd_payload (replicate (length img) 3)) cs demo_mem = Inr m' \<and>
    mem_read m' 0x1000 5 = replicate 5 3"
proof -
  obtain ca' img where g: "getStackImage demo_mem 0x8000 demo_ca = Inr (ca', img)"
    using demo_image by blast
  note parts = getStackImage_parts [OF demo_simps(1) _ g]
  have cs: "copyout ca' = Inr [\<lparr>cp_buff = 0x1000, cp_len = 5, cp_off = 256\<rparr>]"
    using parts by (simp add: copyout_def demo_simps) (simp add: copyout_funcs_place demo_args_def
      PARAM_AREA_OFFSET_def)
  have len: "length img = 272" using parts by (simp add: demo_simps round16_def)
  from copyout_returns_buffers [OF demo_simps(1) _ g cs _ _ _ demo_simps(5),
      of "replicate 272 3" demo_mem] g cs len
  show ?thesis by (auto simp: demo_simps copies_disjoint_def get_at_def)
qed

end
