(* ===== verification/Proc_Objects.thy ===== *)
theory Proc_Objects
  imports Proc_Handle Context_Wait
begin

text \<open>
  What holds of processes and their contexts: no pointer of the library dangles, destroyed
  processes leave the table, symbols of unloaded libraries are forgotten, contexts are opened in
  order, and a synchronous request returns.
\<close>

section \<open>Which objects there are\<close>

text \<open>
  The objects and the pointers between them: the process table, the main context and the
  contexts of each process handle, the process of each context.
\<close>

type_synonym objects =
  "proc_table \<times> (u64 \<Rightarrow> (u64 \<times> u64 list) option) \<times> (u64 \<Rightarrow> u64 option)"

definition objs :: "('e, 'm) world_scheme \<Rightarrow> objects" where
  "objs w = (procs w, \<lambda>q. map_option (\<lambda>h. (mctx h, ctx_vec h)) (handles w q),
     \<lambda>c. map_option fst (contexts w c))"

text \<open>
  No pointer dangles: a process in the table has a handle; the main context of a handle and the
  contexts in its vector exist and belong to it.
\<close>

definition objs_ok :: "objects \<Rightarrow> bool" where
  "objs_ok = (\<lambda>(P, H, C). tab_wf P \<and> tab_live P \<subseteq> dom H \<and> 0 \<notin> dom H \<and> (H \<noteq> Map.empty \<longrightarrow> P \<noteq> None) \<and>
     (\<forall>p m v. H p = Some (m, v) \<longrightarrow> distinct v \<and> (\<forall>c \<in> insert m (set v). C c = Some p)))"

lemma objs_ok_vec:
  assumes "objs_ok (P, H, C)" "H p = Some (m, v)" "distinct v'" "\<forall>c \<in> set v'. C c = Some p"
  shows "objs_ok (P, H(p \<mapsto> (m, v')), C)"
  using assms by (auto simp: objs_ok_def)

lemma objs_ok_drop:
  assumes ok: "objs_ok (P, H, C)" and h: "H p = Some (m, v)" and c: "c \<in> set v" "c \<noteq> m"
  shows "objs_ok (P, H(p \<mapsto> (m, remove1 c v)), C(c := None))"
proof -
  have cp: "C c = Some p" using ok h c by (auto simp: objs_ok_def)
  then have other: "c \<noteq> m'" "c \<notin> set v'" if "H q = Some (m', v')" "q \<noteq> p" for q m' v'
    using ok that by (fastforce simp: objs_ok_def)+
  have "distinct v" using ok h by (auto simp: objs_ok_def)
  then have "c \<notin> set (remove1 c v)" by simp
  then show ?thesis using ok h c other
    by (auto simp: objs_ok_def dest: notin_set_remove1 set_remove1_subset [THEN subsetD])
qed

lemma objs_ok_attach:
  assumes ok: "objs_ok (P, H, C)" and h: "H p = Some (m, v)" and c: "C c = None"
  shows "objs_ok (P, H(p \<mapsto> (m, v @ [c])), C(c \<mapsto> p))"
proof -
  have free: "c \<noteq> m'" "c \<notin> set v'" if "H q = Some (m', v')" for q m' v'
    using ok that c by (fastforce simp: objs_ok_def)+
  show ?thesis using ok h free by (auto simp: objs_ok_def)
qed

lemma objs_ok_create:
  assumes ok: "objs_ok (P, H, C)" and p: "p \<noteq> 0" "H p = None" and c: "C c = None"
  shows "objs_ok (register_proc p P, H(p \<mapsto> (c, [])), C(c \<mapsto> p))"
proof -
  have free: "c \<noteq> m'" "c \<notin> set v'" if "H q = Some (m', v')" for q m' v'
    using ok that c by (fastforce simp: objs_ok_def)+
  have "p \<notin> tab_live P" using ok p by (auto simp: objs_ok_def)
  then have "tab_wf (register_proc p P)" "tab_live (register_proc p P) = insert p (tab_live P)"
    using register_wf ok p(1) by (auto simp: objs_ok_def)
  moreover have "register_proc p P \<noteq> None" by (simp add: register_proc_def Let_def split: option.split)
  ultimately show ?thesis using ok p free by (auto simp: objs_ok_def)
qed

lemma objs_ok_exit:
  assumes "objs_ok (P, H, C)" "p \<noteq> 0"
  shows "objs_ok (unregister_tab p P, H, C)"
  using assms unregister_wf [of P p] by (auto simp: objs_ok_def unregister_tab_def)

section \<open>What the operations do to the objects\<close>

lemma objs_on_ctx [simp]: "on_ctx cp f w = Some (r, w') \<Longrightarrow> objs w' = objs w"
  by (auto simp: on_ctx_def objs_def leave_ctx_def fun_eq_iff split: option.splits prod.splits)

lemma objs_on_main [simp]: "on_main ph f w = Some (r, w') \<Longrightarrow> objs w' = objs w"
  by (auto simp: on_main_def with_handle_def split: option.splits)

lemma objs_upd_handle:
  "(\<And>h. mctx (f h) = mctx h \<and> ctx_vec (f h) = ctx_vec h) \<Longrightarrow> objs (upd_handle ph f w) = objs w"
  by (cases "handles w ph") (auto simp: objs_def upd_handle_def fun_eq_iff)

lemma objs_upd_procs: "objs w = (P, H, C) \<Longrightarrow> objs (w\<lparr>procs := P'\<rparr>) = (P', H, C)"
  by (simp add: objs_def)

lemma objs_wenv [simp]: "objs (w\<lparr>wenv := e\<rparr>) = objs w" "objs (w\<lparr>wenv := e, whst := h\<rparr>) = objs w"
  by (simp_all add: objs_def)

lemma bind_so_Some:
  assumes "bind_so r f = Some (x, t)"
  obtains (throws) e where "r = Some (Inl e, t)" "x = Inl e"
  | (returns) a u where "r = Some (Inr a, u)" "f a u = Some (x, t)"
  using assms by (auto simp: bind_so_def split: option.splits sum.splits)

lemma objs_value_if_ok: "value_if_ok ops sc ph cm its w = Some (r, w') \<Longrightarrow> objs w' = objs w"
  unfolding value_if_ok_def by (erule bind_so_Some) (auto split: prod.splits)

lemma objs_loadLibrary: "loadLibrary ops sc ph l w = Some (r, w') \<Longrightarrow> objs w' = objs w"
  by (auto simp: loadLibrary_def objs_value_if_ok split: if_splits)

lemma objs_unloadLibrary:
  assumes "unloadLibrary ops sc ph hdl w = Some (r, w')"
  shows "objs w' = objs w"
proof (cases "handles w ph")
  case (Some h)
  have "objs (upd_handle ph (forget_symbols hdl) w) = objs w"
    by (rule objs_upd_handle) (simp add: forget_symbols_def)
  moreover have "objs w' = objs (upd_handle ph (forget_symbols hdl) w)"
    using assms unfolding unloadLibrary_def with_handle_def Some option.case
    by (elim bind_so_Some) (auto split: prod.splits)
  ultimately show ?thesis by simp
qed (use assms in \<open>simp add: unloadLibrary_def with_handle_def\<close>)

lemma objs_getSym:
  assumes "getSym ops sc ph l s w = Some (r, w')"
  shows "objs w' = objs w"
proof (cases "handles w ph")
  case (Some h)
  show ?thesis
  proof (cases "length s > VEO_SYMNAME_LEN_MAX \<or> sym_name h (l, s) \<noteq> None")
    case False
    then have "bind_so (value_if_ok ops sc ph URPC_CMD_GETSYM [ItemL l, ItemP (cstr s)] w)
        (\<lambda>a t. if a = 0 then Some (Inr 0, t) else Some (Inr a, upd_handle ph
          (\<lambda>h. h\<lparr>sym_name := (sym_name h)((l, s) \<mapsto> a)\<rparr>) t)) = Some (r, w')"
      using assms Some by (simp add: getSym_def with_handle_def)
    then show ?thesis
      by (rule bind_so_Some) (auto simp: objs_value_if_ok objs_upd_handle split: if_splits)
  qed (use assms Some in \<open>auto simp: getSym_def with_handle_def split: if_splits\<close>)
qed (use assms in \<open>auto simp: getSym_def with_handle_def split: if_splits\<close>)

lemma objs_handle: "objs w = (P, H, C) \<Longrightarrow> H p = map_option (\<lambda>h. (mctx h, ctx_vec h)) (handles w p)"
  by (auto simp: objs_def)

lemma objs_drop:
  assumes "objs w = (P, H, C)" "handles w ph = Some h"
  shows "objs (drop_ctx ph c w) = (P, H(ph \<mapsto> (mctx h, remove1 c (ctx_vec h))), C(c := None))"
  using assms by (auto simp: objs_def drop_ctx_def upd_handle_def fun_eq_iff)

text \<open>A context other than the main one is closed and erased.\<close>

lemma delContext_objs:
  assumes "delContext ops sc ph c w = Some (r, w')" "objs w = (P, H, C)" "H ph = Some (m, v)"
  shows "(\<exists>e. r = Inl e) \<and> objs w' = objs w \<or>
    r = Inr () \<and> objs w' = (if c \<in> set v then (P, H(ph \<mapsto> (m, remove1 c v)), C(c := None)) else objs w)"
proof -
  obtain h where h: "handles w ph = Some h" "m = mctx h" "v = ctx_vec h"
    using assms(2,3) by (auto simp: objs_handle)
  show ?thesis
  proof (cases "c \<in> set v")
    case True
    then have "bind_so (on_ctx c (close_ctx ops (asleep sc c)) w)
        (\<lambda>_ t. Some (Inr (), drop_ctx ph c t)) = Some (r, w')"
      using assms(1) h by (simp add: delContext_def with_handle_def)
    then show ?thesis
    proof (cases rule: bind_so_Some)
      case (returns a u)
      have u: "objs u = (P, H, C)" using objs_on_ctx [OF returns(1)] assms(2) by simp
      then obtain h' where "handles u ph = Some h'" "m = mctx h'" "v = ctx_vec h'"
        using assms(3) by (auto simp: objs_handle)
      then show ?thesis using returns(2) objs_drop [OF u, of ph h' c] True by simp
    qed auto
  qed (use assms h in \<open>simp add: delContext_def with_handle_def\<close>)
qed

lemma delContext_ok:
  assumes "delContext ops sc ph c w = Some (r, w')" "objs_ok (objs w)"
    and "\<And>h. handles w ph = Some h \<Longrightarrow> mctx h \<noteq> c"
  shows "objs_ok (objs w')"
proof -
  obtain P H C where o: "objs w = (P, H, C)" by (metis prod_cases3)
  show ?thesis
  proof (cases "H ph")
    case None
    then show ?thesis using assms(1,2) o
      by (auto simp: delContext_def with_handle_def objs_handle split: option.splits)
  next
    case (Some mv)
    obtain m v where mv: "mv = (m, v)" by (metis surj_pair)
    have "m \<noteq> c" using assms(3) Some o by (auto simp: objs_handle mv)
    then show ?thesis
      using delContext_objs [OF assms(1) o Some [unfolded mv]] assms(2) o
        objs_ok_drop [of P H C ph m v c] Some mv by (auto split: if_splits)
  qed
qed

lemma del_others_objs:
  assumes "del_others ops sc ph m cs w = Some (r, w')" "objs w = (P, H, C)" "H ph = Some (m, v)"
    and "distinct cs" "set cs \<subseteq> set v" "objs_ok (objs w)"
  shows "objs_ok (objs w') \<and> (\<exists>H' C' v'. objs w' = (P, H', C') \<and> H' ph = Some (m, v')) \<and>
    (r = Inr () \<longrightarrow> objs w' = (P, H(ph \<mapsto> (m, filter (\<lambda>c. c \<notin> set cs \<or> c = m) v)),
       \<lambda>x. if x \<in> set cs \<and> x \<noteq> m then None else C x))"
  using assms
proof (induction cs arbitrary: w H C v)
  case Nil
  then show ?case by (auto simp: fun_upd_idem)
next
  case (Cons c cs)
  show ?case
  proof (cases "c = m")
    case True
    then have w: "del_others ops sc ph m cs w = Some (r, w')" using Cons.prems(1) by simp
    have e: "filter (\<lambda>x. x \<notin> set cs \<or> x = m) v = filter (\<lambda>x. x \<notin> set (c # cs) \<or> x = m) v"
      "(\<lambda>x. if x \<in> set cs \<and> x \<noteq> m then None else C x) = (\<lambda>x. if x \<in> set (c # cs) \<and> x \<noteq> m then None else C x)"
      using True by (auto intro: filter_cong)
    show ?thesis
      using Cons.IH [OF w Cons.prems(2,3) _ _ Cons.prems(6)] Cons.prems(4,5) unfolding e by simp
  next
    case False
    then have "bind_so (delContext ops sc ph c w) (\<lambda>_ t. del_others ops sc ph m cs t) = Some (r, w')"
      using Cons.prems(1) by simp
    then show ?thesis
    proof (cases rule: bind_so_Some)
      case (throws e)
      then show ?thesis using delContext_objs [OF throws(1) Cons.prems(2,3)] Cons.prems(2,3,6) by auto
    next
      case (returns a u)
      have c: "c \<in> set v" using Cons.prems(5) by simp
      have u: "objs u = (P, H(ph \<mapsto> (m, remove1 c v)), C(c := None))"
        using delContext_objs [OF returns(1) Cons.prems(2,3)] c by auto
      have ok: "objs_ok (objs u)"
        unfolding u using objs_ok_drop Cons.prems(2,3,6) c False by simp
      have d: "distinct v" using Cons.prems(2,3,6) by (auto simp: objs_ok_def)
      then have s: "set cs \<subseteq> set (remove1 c v)" using Cons.prems(4,5) by auto
      have f: "filter (\<lambda>x. x \<notin> set cs \<or> x = m) (remove1 c v) = filter (\<lambda>x. x \<notin> set (c # cs) \<or> x = m) v"
        using d False by (simp add: distinct_remove1_removeAll removeAll_filter_not_eq) (metis (mono_tags, lifting))
      have g: "(\<lambda>x. if x \<in> set cs \<and> x \<noteq> m then None else (C(c := None)) x) =
          (\<lambda>x. if x \<in> set (c # cs) \<and> x \<noteq> m then None else C x)"
        using False by auto
      have "(H(ph \<mapsto> (m, remove1 c v))) ph = Some (m, remove1 c v)" by simp
      from Cons.IH [OF returns(2) u this _ s ok] show ?thesis
        using Cons.prems(4) unfolding f g by (simp add: fun_eq_iff)
    qed
  qed
qed

lemma exitProc_objs:
  assumes "exitProc ops sc ph w = Some (r, w')" "objs w = (P, H, C)" "H ph = Some (m, v)"
    and "objs_ok (objs w)"
  shows "objs_ok (objs w') \<and> (\<forall>rc. r = Inr rc \<longrightarrow> rc = 0 \<and>
    objs w' = (unregister_tab ph P, H(ph \<mapsto> (m, filter (\<lambda>c. c = m) v)),
       \<lambda>x. if x \<in> set v \<and> x \<noteq> m then None else C x) \<and>
    (\<exists>h. handles w' ph = Some h \<and> ve_number h = - 1))"
proof -
  obtain h where h: "handles w ph = Some h" "m = mctx h" "v = ctx_vec h"
    using assms(2,3) by (auto simp: objs_handle)
  have d: "distinct v" "P \<noteq> None" "ph \<noteq> 0" using assms(2-4) by (auto simp: objs_ok_def)
  have "bind_so (del_others ops sc ph m v w) (\<lambda>_ w1.
         bind_so (on_ctx m (close_ctx ops (asleep sc m)) w1) (\<lambda>rc w2.
           let w3 = upd_handle ph (\<lambda>h. h\<lparr>ve_number := - 1\<rparr>) w2
           in case unregister_proc ph (procs w3) of
                Inl e \<Rightarrow> Some (Inl e, w3)
              | Inr tab \<Rightarrow> Some (Inr 0, w3\<lparr>procs := tab\<rparr>))) = Some (r, w')"
    using assms(1) h by (simp add: exitProc_def with_handle_def)
  then show ?thesis
  proof (cases rule: bind_so_Some)
    case (throws e)
    then show ?thesis
      using del_others_objs [OF throws(1) assms(2,3) d(1) subset_refl assms(4)] by simp
  next
    case (returns a w1)
    note w1 = del_others_objs [OF returns(1) assms(2,3) d(1) subset_refl assms(4)]
    from returns(2) show ?thesis
    proof (cases rule: bind_so_Some)
      case (throws e)
      then show ?thesis using objs_on_ctx [OF throws(1)] w1 [THEN conjunct1] by simp
    next
      case (returns rc w2)
      let ?w3 = "upd_handle ph (\<lambda>h. h\<lparr>ve_number := - 1\<rparr>) w2"
      have o2: "objs w2 = (P, H(ph \<mapsto> (m, filter (\<lambda>c. c = m) v)),
          \<lambda>x. if x \<in> set v \<and> x \<noteq> m then None else C x)"
        using objs_on_ctx [OF returns(1)] w1 by (simp cong: filter_cong)
      have o3: "objs ?w3 = objs w2" by (rule objs_upd_handle) simp
      then have P: "procs ?w3 = P" using o2 by (simp add: objs_def)
      have res: "r = Inr 0" "w' = ?w3\<lparr>procs := unregister_tab ph P\<rparr>"
        using returns(2) unregister_proc_tab [OF d(2)] P by (auto simp: Let_def)
      then have o4: "objs w' = (unregister_tab ph P, H(ph \<mapsto> (m, filter (\<lambda>c. c = m) v)),
          \<lambda>x. if x \<in> set v \<and> x \<noteq> m then None else C x)"
        using objs_upd_procs [of ?w3] o2 o3 by simp
      have "objs_ok (objs w2)" using w1 [THEN conjunct1] objs_on_ctx [OF returns(1)] by simp
      then have "objs_ok (objs w')" unfolding o4 using objs_ok_exit d(3) unfolding o2 by blast
      moreover have "handles w2 ph \<noteq> None" using objs_handle [OF o2, of ph] by (cases "handles w2 ph") auto
      then have "\<exists>h. handles w' ph = Some h \<and> ve_number h = - 1"
        by (auto simp: res upd_handle_def)
      ultimately show ?thesis using res(1) o4 by simp
    qed
  qed
qed

text \<open>Allocation: \<^verbatim>\<open>new\<close> does not return null nor the address of an object that is in use.\<close>

definition new_ok :: "'e urpc_ops \<Rightarrow> ('e, 'm) world_scheme \<Rightarrow> bool" where
  "new_ok ops w \<longleftrightarrow> (\<forall>h. op_new ops h \<noteq> 0 \<and> handles w (op_new ops h) = None \<and>
     contexts w (op_new ops h) = None)"

lemma new_proc_ctx_ok:
  assumes "new_proc_ctx ops venode upp vecore (op_new ops (whst w)) e w = (r, w')" "objs_ok (objs w)" "new_ok ops w"
  shows "objs_ok (objs w')"
proof -
  let ?p = "op_new ops (whst w)" let ?c = "op_new ops (new_char ?p (whst w))"
  obtain P H C where o: "objs w = (P, H, C)" by (metis prod_cases3)
  have new: "?p \<noteq> 0" "H ?p = None" "C ?c = None"
    using assms(3) o by (auto simp: new_ok_def objs_def)
  have "objs w' = objs w \<or> objs w' = (register_proc ?p P, H(?p \<mapsto> (?c, [])), C(?c \<mapsto> ?p))"
    using assms(1) o
    by (auto simp: new_proc_ctx_def Let_def objs_def fun_eq_iff split: prod.splits sum.splits option.splits if_splits)
  then show ?thesis using objs_ok_create [of P H C, OF _ new] assms(2) o by auto
qed

lemma new_ProcHandle_ok:
  assumes "new_ProcHandle ops venode bin w = (r, w')" "objs_ok (objs w)" "new_ok ops w"
  shows "objs_ok (objs w')"
  using assms(1) new_proc_ctx_ok [OF _ assms(2,3)] assms(2)
  by (auto simp: new_ProcHandle_def Let_def split: prod.splits sum.splits option.splits if_splits)

lemma getStackPointer_frame: "getStackPointer ops sp s = (r, t) \<Longrightarrow> ctx.truncate t = ctx.truncate s"
  by (auto simp: getStackPointer_def Let_def ctx.truncate_def split: prod.splits option.splits sum.splits if_splits)

lemma progressInit_frame:
  "progressInit ops s = (True, t) \<Longrightarrow> ctx.truncate t = (ctx.truncate s)\<lparr>has_thread := True\<rparr>"
  by (auto simp: progressInit_def Let_def ctx.truncate_def split: prod.splits if_splits)

lemma truncate_upd:
  "ctx.truncate (s\<lparr>ve_sp := a, core := b, ctx_state := c\<rparr>) = (ctx.truncate s)\<lparr>ve_sp := a, core := b, ctx_state := c\<rparr>"
  by (simp add: ctx.truncate_def)

text \<open>A context that was just attached.\<close>

definition attached :: "u64 \<Rightarrow> int \<Rightarrow> ctx \<Rightarrow> bool" where
  "attached p cor x \<longleftrightarrow> comq x = new_CommQueue \<and> ctx_state x = VEO_STATE_RUNNING \<and> \<not> is_main x \<and>
     up x = p \<and> core x = cor \<and> has_thread x \<and> seq_no x = 0 \<and> rem_reqid x = {}"

lemma attach_context_objs:
  assumes "attach_context ops ph new_up cor w = (r, w')" "objs w = (P, H, C)" "H ph = Some (m, v)"
  shows "(\<exists>x. r = Inl x) \<and> objs w' = objs w \<or>
    (\<exists>c x. r = Inr c \<and> c = op_new ops (whst w) \<and> objs w' = (P, H(ph \<mapsto> (m, v @ [c])), C(c \<mapsto> ph)) \<and>
      contexts w' = (contexts w)(c \<mapsto> (ph, x)) \<and> attached new_up cor x)"
proof -
  let ?c = "op_new ops (whst w)"
  obtain h where h: "handles w ph = Some h" "m = mctx h" "v = ctx_vec h"
    using assms(2,3) by (auto simp: objs_handle)
  let ?s = "ctx.extend (new_Context new_up False)
    \<lparr>env = wenv w, hst = new_char ?c (whst w), proc_survival = survival h\<rparr>"
  obtain q s1 where g: "getStackPointer ops None ?s = (q, s1)" by (metis surj_pair)
  show ?thesis
  proof (cases "\<exists>sp. q = Inr (Some sp)")
    case False
    then show ?thesis using assms(1) h g
      by (auto simp: attach_context_def Let_def split: sum.splits option.splits)
  next
    case True
    then obtain sp where q: "q = Inr (Some sp)" by blast
    obtain ok s2 where i: "progressInit ops s1 = (ok, s2)" by (metis surj_pair)
    show ?thesis
    proof (cases ok)
      case False
      then show ?thesis using assms(1) h g i by (auto simp: attach_context_def Let_def q)
    next
      case True
      let ?x = "ctx.truncate (s2\<lparr>ve_sp := sp, core := cor, ctx_state := VEO_STATE_RUNNING\<rparr>)"
      have "ctx.truncate ?s = new_Context new_up False" by (simp add: ctx.defs)
      then have "ctx.truncate s2 = (new_Context new_up False)\<lparr>has_thread := True\<rparr>"
        using getStackPointer_frame [OF g] progressInit_frame [of ops s1 s2] i True by simp
      then have "attached new_up cor ?x" by (simp add: truncate_upd attached_def new_Context_def)
      then show ?thesis using assms h g i True
        by (auto simp: attach_context_def Let_def q objs_def upd_handle_def fun_eq_iff)
    qed
  qed
qed

lemma new_peer_objs:
  assumes "new_peer ops ph upp cor sz w = Some (r, w')" "objs w = (P, H, C)" "H ph = Some (m, v)"
  shows "((\<exists>x. r = Inl x) \<or> r = Inr 0) \<and> objs w' = objs w \<or>
    (\<exists>c h x p. r = Inr c \<and> c = op_new ops h \<and> objs w' = (P, H(ph \<mapsto> (m, v @ [c])), C(c \<mapsto> ph)) \<and>
      contexts w' = (contexts w)(c \<mapsto> (ph, x)) \<and> attached p cor x)"
proof -
  have "((\<exists>x. r = Inl x) \<or> r = Inr 0) \<and> objs w' = objs w \<or>
      (\<exists>p e. attach_context ops ph p cor (w\<lparr>wenv := e\<rparr>) = (r, w'))"
    using assms(1) by (auto simp: new_peer_def Let_def split: prod.splits if_splits option.splits)
  then show ?thesis
  proof
    assume "\<exists>p e. attach_context ops ph p cor (w\<lparr>wenv := e\<rparr>) = (r, w')"
    then obtain p e where a: "attach_context ops ph p cor (w\<lparr>wenv := e\<rparr>) = (r, w')" by blast
    have "objs (w\<lparr>wenv := e\<rparr>) = (P, H, C)" using assms(2) by simp
    from attach_context_objs [OF a this assms(3)] show ?thesis by (auto simp: assms(2))
  qed blast
qed

text \<open>The four ways \<^verbatim>\<open>openContext\<close> can end.\<close>

lemma openContext_cases:
  assumes "openContext ops sc f sz ph w = Some (r, w')" "objs w = (P, H, C)" "H ph = Some (m, v)"
  shows "(\<exists>x. r = Inl x) \<and> objs w' = objs w \<or>
    v = [] \<and> r = Inr m \<and> objs w' = (P, H(ph \<mapsto> (m, [m])), C) \<or>
    v \<noteq> [] \<and> r = Inr 0 \<and> objs w' = objs w \<or>
    v \<noteq> [] \<and> (\<exists>c h x y q p cor e K. r = Inr c \<and> c = op_new ops h \<and>
      objs w' = (P, H(ph \<mapsto> (m, v @ [c])), C(c \<mapsto> ph)) \<and> contexts w' = K(c \<mapsto> (ph, x)) \<and>
      K (last v) = Some (q, y) \<and> next_core ops e (core y) = Inr cor \<and> attached p cor x)"
proof -
  have "bind_so (on_main ph (synchronize ops (lk_wait sc) f) w) (\<lambda>_ w1.
       with_handle ph (\<lambda>h.
         if ctx_vec h = []
         then Some (Inr (mctx h), upd_handle ph (\<lambda>h. h\<lparr>ctx_vec := [mctx h]\<rparr>) w1)
         else case contexts w1 (last (ctx_vec h)) of
                None \<Rightarrow> Some (Inl NullDeref, w1)
              | Some (_, c) \<Rightarrow>
                  (case next_core ops (wenv w1) (core c) of
                     Inl x \<Rightarrow> Some (Inl x, w1)
                   | Inr cor \<Rightarrow> new_peer ops ph (ph_up h) cor sz w1)) w1) = Some (r, w')"
    using assms(1) by (simp add: openContext_def)
  then show ?thesis
  proof (cases rule: bind_so_Some)
    case (returns a w1)
    have o: "objs w1 = (P, H, C)" using objs_on_main [OF returns(1)] assms(2) by simp
    then obtain h where h: "handles w1 ph = Some h" "m = mctx h" "v = ctx_vec h"
      using assms(3) by (auto simp: objs_handle)
    consider "v = []" | (none) "v \<noteq> []" "contexts w1 (last v) = None"
      | (more) q y where "v \<noteq> []" "contexts w1 (last v) = Some (q, y)" by fastforce
    then show ?thesis
    proof cases
      case 1
      then have "objs w' = (P, H(ph \<mapsto> (m, [m])), C)"
        using returns(2) h o by (auto simp: with_handle_def objs_def upd_handle_def fun_eq_iff)
      then show ?thesis using 1 returns(2) h by (auto simp: with_handle_def)
    next
      case none
      then have "r = Inl NullDeref \<and> w' = w1" using returns(2) h by (simp add: with_handle_def)
      then show ?thesis using o assms(2) by simp
    next
      case more
      show ?thesis
      proof (cases "next_core ops (wenv w1) (core y)")
        case (Inl x)
        then have "r = Inl x \<and> w' = w1" using more returns(2) h by (simp add: with_handle_def)
        then show ?thesis using o assms(2) by simp
      next
        case (Inr cor)
        then have "new_peer ops ph (ph_up h) cor sz w1 = Some (r, w')"
          using more returns(2) h by (simp add: with_handle_def)
        from new_peer_objs [OF this o assms(3)] show ?thesis
        proof
          assume "((\<exists>x. r = Inl x) \<or> r = Inr 0) \<and> objs w' = objs w1"
          then show ?thesis using more(1) o assms(2) by auto
        next
          assume "\<exists>c h x p. r = Inr c \<and> c = op_new ops h \<and>
            objs w' = (P, H(ph \<mapsto> (m, v @ [c])), C(c \<mapsto> ph)) \<and>
            contexts w' = (contexts w1)(c \<mapsto> (ph, x)) \<and> attached p cor x"
          then show ?thesis using more Inr by blast
        qed
      qed
    qed
  qed (use objs_on_main in auto)
qed

lemma openContext_ok:
  assumes "openContext ops sc f sz ph w = Some (r, w')" "objs_ok (objs w)" "new_ok ops w"
  shows "objs_ok (objs w')"
proof -
  obtain P H C where o: "objs w = (P, H, C)" by (metis prod_cases3)
  show ?thesis
  proof (cases "H ph")
    case None
    then have "handles w ph = None" using o by (auto simp: objs_def)
    then show ?thesis using assms(1,2) by (auto simp: openContext_def on_main_def with_handle_def)
  next
    case (Some mv)
    obtain m v where mv: "mv = (m, v)" by (metis surj_pair)
    have h: "H ph = Some (m, v)" using Some mv by simp
    have C: "C (op_new ops x) = None" for x using assms(3) o by (auto simp: new_ok_def objs_def)
    have m: "C m = Some ph" using assms(2) o h by (auto simp: objs_ok_def)
    show ?thesis
      using openContext_cases [OF assms(1) o h] assms(2) o
        objs_ok_vec [of P H C, OF _ h, of "[m]"] objs_ok_attach [of P H C, OF _ h] C m by fastforce
  qed
qed

lemma access_loop_objs: "access_loop ops sc n cs w = Some (r, w') \<Longrightarrow> objs w' = objs w"
  by (induction cs arbitrary: n w) (auto elim!: bind_so_Some)

lemma loadVE2VELibrary_objs:
  assumes "loadVE2VELibrary ops sc ph l w = Some (r, w')"
  shows "objs w' = objs w"
  using assms
  by (auto simp: loadVE2VELibrary_def with_handle_def Let_def setLibh_to_hashmap_def objs_upd_handle
      objs_loadLibrary split: option.splits if_splits elim!: bind_so_Some)

lemma vedma_loop_objs: "vedma_loop ops sc n ph l s ss target w = Some (r, w') \<Longrightarrow> objs w' = objs w"
  by (induction ss arbitrary: n target w)
    (auto simp: Let_def objs_getSym split: if_splits elim!: bind_so_Some)

lemma getVEDMASyms_objs: "getVEDMASyms ops sc ph l s w = Some (r, w') \<Longrightarrow> objs w' = objs w"
  by (auto simp: getVEDMASyms_def with_handle_def Let_def simp del: vedma_loop.simps
      split: option.splits if_splits dest: vedma_loop_objs)

lemma accessPci_objs: "accessPciRecvSyncRegister ops sc ph w = Some (r, w') \<Longrightarrow> objs w' = objs w"
  by (auto simp: accessPciRecvSyncRegister_def with_handle_def access_loop_objs split: option.splits)

section \<open>Runs\<close>

text \<open>
  The steps of a program that uses processes: the operations of process handles and any method of
  a context. \<^verbatim>\<open>delContext\<close> is only called for contexts other than the main one.
\<close>

inductive world_step :: "'e urpc_ops \<Rightarrow> ('e, 'm) world_scheme \<Rightarrow> ('e, 'm) world_scheme \<Rightarrow> bool"
  for ops :: "'e urpc_ops" where
  create: "new_ProcHandle ops venode bin w = (r, w') \<Longrightarrow> new_ok ops w \<Longrightarrow> world_step ops w w'"
| exit_proc: "exitProc ops sc ph w = Some (r, w') \<Longrightarrow> world_step ops w w'"
| open_ctx: "openContext ops sc f sz ph w = Some (r, w') \<Longrightarrow> new_ok ops w \<Longrightarrow> world_step ops w w'"
| close_ctx: "delContext ops sc ph c w = Some (r, w') \<Longrightarrow>
    (\<And>h. handles w ph = Some h \<Longrightarrow> mctx h \<noteq> c) \<Longrightarrow> world_step ops w w'"
| load_lib: "loadLibrary ops sc ph l w = Some (r, w') \<Longrightarrow> world_step ops w w'"
| unload_lib: "unloadLibrary ops sc ph hdl w = Some (q, w') \<Longrightarrow> world_step ops w w'"
| get_sym: "getSym ops sc ph hdl l w = Some (r, w') \<Longrightarrow> world_step ops w w'"
| load_ve2ve: "loadVE2VELibrary ops sc ph lp w = Some (r, w') \<Longrightarrow> world_step ops w w'"
| vedma_syms: "getVEDMASyms ops scs ph hdl l w = Some (r, w') \<Longrightarrow> world_step ops w w'"
| pci_sync: "accessPciRecvSyncRegister ops sc ph w = Some (u, w') \<Longrightarrow> world_step ops w w'"
| ctx_method: "on_ctx c g w = Some (x :: exc + unit, w') \<Longrightarrow> world_step ops w w'"

lemma world_step_ok:
  assumes "objs_ok (objs w)" "world_step ops w w'"
  shows "objs_ok (objs w')"
  using assms(2)
proof cases
  case (exit_proc sc ph r)
  obtain P H C where o: "objs w = (P, H, C)" by (metis prod_cases3)
  show ?thesis
  proof (cases "H ph")
    case None
    then have "handles w ph = None" using o by (auto simp: objs_def)
    then show ?thesis using exit_proc assms(1) by (simp add: exitProc_def with_handle_def)
  next
    case (Some mv)
    then show ?thesis using exitProc_objs [OF exit_proc o _ assms(1)] by (metis surj_pair)
  qed
next
  case (close_ctx sc ph c r)
  then show ?thesis using delContext_ok assms(1) by blast
qed (metis assms(1) new_ProcHandle_ok openContext_ok objs_loadLibrary objs_unloadLibrary objs_getSym
    loadVE2VELibrary_objs getVEDMASyms_objs accessPci_objs objs_on_ctx)+

interpretation world_run: step_invariant "world_step ops" "\<lambda>w. objs_ok (objs w)"
  for ops :: "'e urpc_ops"
  by unfold_locales (rule world_step_ok)

section \<open>A synchronous request returns\<close>

lemma progress_kinds:
  assumes ok: "urpc_ok ops pend" and i: "ctx_inv s" "flight_inv pend s" "ctx_state s \<noteq> VEO_STATE_EXIT"
    and r: "progress ops lk s = (Inr u, t)"
  shows "kind ` queued (comq t) \<subseteq> kind ` queued (comq s)"
proof (cases "emptyInFlight (comq s) \<and> lk")
  case True
  obtain x v where p: "progress_nolock ops False s = (x, v)" by (metis surj_pair)
  with True r obtain rv where "x = Inr rv" "v = t" by (cases x) (simp_all add: progress_def)
  with p have p': "progress_nolock ops False s = (Inr rv, t)" by simp
  show ?thesis
    by (rule progress_nolock_rel [OF ok i p', where R = "\<lambda>x y. kind ` queued (comq y) \<subseteq> kind ` queued (comq x)"])
      (erule (1) subset_trans [rotated], erule moved_kinds, erule stopped_kinds)
qed (use r in \<open>auto simp: progress_def split: if_splits\<close>)

lemma generic_wait_returns:
  assumes ok: "urpc_ok ops pend" and rs: "responsive ops pend bound" and inv: "inv_all pend s"
    and al: "is_alive ops s" and sq: "seq_no s \<noteq> VEO_REQUEST_ID_INVALID"
    and cm: "cm \<noteq> URPC_CMD_ACS_PCIRCVSYC" and nr: "\<forall>c \<in> queued (comq s). seq_no s \<notin> refs (kind c)"
    and g: "genericAsyncReq ops lk cm its s = (Inr req, t)"
  shows "\<exists>r. wait_loop ops lks n req ret t = Some r"
proof -
  let ?c = "\<lambda>i. new_CommandImpl i (KGeneric cm its)" let ?s = "enqueue ?c s"
  obtain x u where p: "progress ops lk ?s = (x, u)" by (metis surj_pair)
  have "x = Inr ()" "req = seq_no s" "u = t"
    using g unfolding submit_closed(6) [OF sq al cm] p by (cases x; simp)+
  note p' = p [unfolded this]
  have st: "ctx_step ops pend s ?s"
    by (rule enqueue_step [OF al sq]) (simp_all add: new_CommandImpl_def)
  have inv': "inv_all pend ?s" using ctx_step_inv [OF st ok inv] .
  then have i: "ctx_inv ?s" "flight_inv pend ?s" by (simp_all add: inv_all_def)
  have ne: "ctx_state ?s \<noteq> VEO_STATE_EXIT"
    using al by (simp add: is_alive_def enqueue_def split: if_splits)
  have "kind ` queued (comq t) \<subseteq> kind ` queued (comq ?s)" using progress_kinds [OF ok i ne p'] .
  moreover have "seq_no s \<notin> refs (kind c)" if "c \<in> queued (comq ?s)" for c
    using that nr by (auto simp: queued_def enqueue_def new_CommandImpl_def)
  ultimately have q: "\<forall>c \<in> queued (comq t). seq_no s \<notin> refs (kind c)" by fastforce
  have "(ctx_step ops pend)\<^sup>*\<^sup>* ?s t" using progress_steps p' by blast
  then have "inv_all pend t" using ctx_run.steps_invar inv' ok by blast
  then show ?thesis
    using wait_gone wait_returns [OF ok rs] q \<open>req = seq_no s\<close> by (metis awaited_def)
qed

lemma invalid_not_waiting: "ctx_inv s \<Longrightarrow> VEO_REQUEST_ID_INVALID \<notin> rem_reqid s"
proof
  assume i: "ctx_inv s" and r: "VEO_REQUEST_ID_INVALID \<in> rem_reqid s"
  then have "VEO_REQUEST_ID_INVALID \<in> set (ids (comq s))" by (auto simp: ctx_inv_def ids_tags)
  then have "VEO_REQUEST_ID_INVALID < seq_no s" using i by (auto simp: ctx_inv_def)
  then show False by (simp add: VEO_REQUEST_ID_INVALID_def word_order.extremum_strict)
qed

lemma objs_ok_handle:
  assumes "objs_ok (objs w)" "handles w p = Some h"
  shows "distinct (ctx_vec h) \<and> (\<forall>c \<in> insert (mctx h) (set (ctx_vec h)). \<exists>x. contexts w c = Some (p, x))"
proof -
  obtain P H C where o: "objs w = (P, H, C)" by (metis prod_cases3)
  then have "H p = Some (mctx h, ctx_vec h)" "C = (\<lambda>c. map_option fst (contexts w c))"
    using assms(2) by (auto simp: objs_def)
  then show ?thesis using assms(1) unfolding o objs_ok_def by fastforce
qed

lemma objs_ctx: "objs w = (P, H, C) \<Longrightarrow> map_option fst (contexts w c) = C c"
  by (auto simp: objs_def)

section \<open>Properties\<close>



text \<open>
  C34. What \<^verbatim>\<open>openContext\<close> returns. The first context of a process is its main context. Every
  further one needs \<^verbatim>\<open>VE_OMP_NUM_THREADS\<close> to be 1 and is either the null pointer, with nothing
  changed, or a new running context with empty queues and its own progress thread at the end of
  the vector, on the core after the one of the last context.
\<close>

theorem openContext_result:
  assumes "openContext ops sc f sz ph w = Some (Inr c, w')" "handles w ph = Some h"
  shows "\<exists>h'. handles w' ph = Some h' \<and> mctx h' = mctx h \<and>
    (if ctx_vec h = [] then c = mctx h \<and> ctx_vec h' = [mctx h]
     else c = 0 \<and> ctx_vec h' = ctx_vec h \<or>
       ctx_vec h' = ctx_vec h @ [c] \<and>
       (\<exists>x p cor. contexts w' c = Some (ph, x) \<and> attached p cor x \<and>
          (c \<noteq> last (ctx_vec h) \<longrightarrow> (\<exists>q y. contexts w' (last (ctx_vec h)) = Some (q, y) \<and>
             cor = (if core y \<ge> 0 then core y + 1 else - 1)))))"
proof -
  obtain P H C where o: "objs w = (P, H, C)" by (metis prod_cases3)
  have h: "H ph = Some (mctx h, ctx_vec h)" using o assms(2) by (auto simp: objs_def)
  have hd: "\<exists>h'. handles w' ph = Some h' \<and> mctx h' = mctx h \<and> ctx_vec h' = v"
    if "objs w' = (P, H', C')" "H' ph = Some (mctx h, v)" for H' C' v
    using objs_handle [OF that(1), of ph] that(2) by (cases "handles w' ph") auto
  have "next_core ops e k = Inr cor \<Longrightarrow> cor = (if k \<ge> 0 then k + 1 else - 1)" for e k cor
    by (auto simp: next_core_def bind_exc_def split: sum.splits if_splits)
  note core = this
  from openContext_cases [OF assms(1) o h] consider
    (first) "ctx_vec h = []" "c = mctx h" "objs w' = (P, H(ph \<mapsto> (mctx h, [mctx h])), C)"
  | (null) "ctx_vec h \<noteq> []" "c = 0" "objs w' = (P, H, C)"
  | (new) x y q p cor e K C' where "ctx_vec h \<noteq> []" "objs w' = (P, H(ph \<mapsto> (mctx h, ctx_vec h @ [c])), C')"
      "contexts w' = K(c \<mapsto> (ph, x))" "K (last (ctx_vec h)) = Some (q, y)"
      "next_core ops e (core y) = Inr cor" "attached p cor x"
    unfolding o by (elim disjE conjE exE; simp; blast)
  then show ?thesis
  proof cases
    case first
    then show ?thesis using hd [OF first(3)] by simp
  next
    case null
    obtain h' where "handles w' ph = Some h'" "mctx h' = mctx h" "ctx_vec h' = ctx_vec h"
      using hd [OF null(3) h] by blast
    then show ?thesis using null(1,2) by simp
  next
    case new
    have "contexts w' c = Some (ph, x)" "c \<noteq> last (ctx_vec h) \<Longrightarrow> contexts w' (last (ctx_vec h)) = Some (q, y)"
      using new(3,4) by simp_all
    moreover obtain h' where "handles w' ph = Some h'" "mctx h' = mctx h" "ctx_vec h' = ctx_vec h @ [c]"
      using hd [OF new(2)] by auto
    ultimately show ?thesis using new(1,6) core [OF new(5)] by auto blast+
  qed
qed

lemma on_ctx_handles:
  assumes "on_ctx cp f w = Some (r, w')"
  shows "map_option (\<lambda>h. h\<lparr>survival := True\<rparr>) (handles w' q) = map_option (\<lambda>h. h\<lparr>survival := True\<rparr>) (handles w q)"
  using assms by (auto simp: on_ctx_def leave_ctx_def split: option.splits prod.splits)

lemma on_main_handle:
  assumes "on_main ph f w = Some (r, w')" "handles w q = Some h"
  obtains h' where "handles w' q = Some h'" "sym_name h' = sym_name h" "ve2velibh h' = ve2velibh h"
proof -
  have "map_option (\<lambda>h. h\<lparr>survival := True\<rparr>) (handles w' q) = Some (h\<lparr>survival := True\<rparr>)"
    using assms on_ctx_handles [of "mctx (the (handles w ph))" f w r w' q]
    by (cases "handles w ph") (simp_all add: on_main_def with_handle_def)
  then obtain h' where h: "handles w' q = Some h'" "h'\<lparr>survival := True\<rparr> = h\<lparr>survival := True\<rparr>" by auto
  from h(2) have "sym_name (h'\<lparr>survival := True\<rparr>) = sym_name (h\<lparr>survival := True\<rparr>)"
    "ve2velibh (h'\<lparr>survival := True\<rparr>) = ve2velibh (h\<lparr>survival := True\<rparr>)" by (rule arg_cong)+
  then show ?thesis using that h(1) by simp
qed

lemma value_if_ok_handle:
  assumes "value_if_ok ops sc ph cm its w = Some (r, w')" "handles w q = Some h"
  obtains h' where "handles w' q = Some h'" "sym_name h' = sym_name h"
proof -
  from assms(1) obtain x u where "on_main ph (sync_request ops sc cm its (Some 0)) w = Some (x, u)" "w' = u"
    unfolding value_if_ok_def by (elim bind_so_Some) (auto split: prod.splits)
  then show ?thesis using on_main_handle [OF _ assms(2)] that by metis
qed

section \<open>An example\<close>

definition demo_world :: "urpc_mb option world" where
  "demo_world = \<lparr>procs = None, handles = Map.empty, contexts = Map.empty, wenv = None, whst = demo_host\<rparr>"

definition demo_sched :: sched where
  "demo_sched = \<lparr>lk_progress = (\<lambda>_. True), lk_wait = (\<lambda>_. True), asleep = (\<lambda>_. True)\<rparr>"

definition demo_proc :: "urpc_mb option world" where
  "demo_proc = snd (new_ProcHandle demo_ops 0 ''aveorun'' demo_world)"

text \<open>The same transport under an environment with one OpenMP thread per VE process.\<close>

definition demo_ops1 :: "urpc_mb option urpc_ops" where
  "demo_ops1 = demo_ops\<lparr>op_new := (\<lambda>h. if 0x1000 \<in> heap h then 0x2000 else 0x1000),
     getenv_var := (\<lambda>v. if v = ''VE_OMP_NUM_THREADS'' then Some ''1'' else None)\<rparr>"

definition demo_open :: "urpc_mb option world" where
  "demo_open = snd (the (openContext demo_ops1 demo_sched 5 0 0x1000 demo_proc))"

lemma demo_proc_created: "new_ProcHandle demo_ops 0 ''aveorun'' demo_world = (Inr 0x1000, demo_proc)"
proof -
  have "fst (new_ProcHandle demo_ops 0 ''aveorun'' demo_world) = Inr 0x1000" by code_simp
  then show ?thesis by (metis demo_proc_def prod.collapse)
qed

lemma demo_proc_objs: "objs_ok (objs demo_proc)"
  using new_ProcHandle_ok [OF demo_proc_created]
  by (simp add: demo_world_def objs_def objs_ok_def tab_wf_def tab_live_def tab_slots_def new_ok_def demo_ops_def)

lemma demo_open_first:
  "openContext demo_ops1 demo_sched 5 0 0x1000 demo_proc = Some (Inr 0x1000, demo_open)"
proof -
  have "map_option fst (openContext demo_ops1 demo_sched 5 0 0x1000 demo_proc) = Some (Inr 0x1000)"
    by code_simp
  then show ?thesis by (auto simp: demo_open_def)
qed



theorem openContext_result_witness:
  "\<exists>h'. handles demo_open 0x1000 = Some h' \<and> ctx_vec h' = [mctx h'] \<and>
    (\<exists>w2 h2. openContext demo_ops1 demo_sched 5 0 0x1000 demo_open = Some (Inr 0x2000, w2) \<and>
      handles w2 0x1000 = Some h2 \<and> ctx_vec h2 = ctx_vec h' @ [0x2000])"
proof -
  have "handles demo_proc 0x1000 \<noteq> None \<and> map_option ctx_vec (handles demo_proc 0x1000) = Some []"
    by code_simp
  then obtain h where h: "handles demo_proc 0x1000 = Some h" "ctx_vec h = []" by auto
  obtain h' where h': "handles demo_open 0x1000 = Some h'" "ctx_vec h' = [mctx h']"
    using openContext_result [OF demo_open_first h(1)] h(2) by auto
  have "map_option fst (openContext demo_ops1 demo_sched 5 0 0x1000 demo_open) = Some (Inr 0x2000)"
    by code_simp
  then obtain w2 where w2: "openContext demo_ops1 demo_sched 5 0 0x1000 demo_open = Some (Inr 0x2000, w2)"
    by auto
  from openContext_result [OF w2 h'(1)] h' show ?thesis using w2 by auto
qed



text \<open>
  C36. \<^verbatim>\<open>unloadLibrary\<close> forgets every symbol of the library that is unloaded and no other symbol,
  whether the VE reports success or not, so that \<^verbatim>\<open>getSym\<close> never returns an address in a library
  that is gone.
\<close>

theorem unloadLibrary_forgets:
  assumes "unloadLibrary ops sc ph hdl w = Some (r, w')" "handles w ph = Some h"
  shows "\<exists>h'. handles w' ph = Some h' \<and> (\<forall>s. getSym_from_hashmap hdl s h' = 0) \<and>
    (\<forall>l s. l \<noteq> hdl \<longrightarrow> sym_name h' (l, s) = sym_name h (l, s))"
proof -
  let ?w = "upd_handle ph (forget_symbols hdl) w"
  have w: "handles ?w ph = Some (forget_symbols hdl h)" using assms(2) by (simp add: upd_handle_def)
  obtain x u where "on_main ph (sync_request ops sc URPC_CMD_UNLOADLIB [ItemL hdl] (Some (- 1))) ?w = Some (x, u)"
    "w' = u"
    using assms unfolding unloadLibrary_def with_handle_def option.case assms(2)
    by (elim bind_so_Some) (auto split: prod.splits)
  then obtain h' where "handles w' ph = Some h'" "sym_name h' = sym_name (forget_symbols hdl h)"
    using on_main_handle [OF _ w] by metis
  then show ?thesis by (auto simp: forget_symbols_def getSym_from_hashmap_def)
qed

theorem unloadLibrary_forgets_witness:
  "\<exists>r w' h'. unloadLibrary demo_ops demo_sched 0x1000 1
      (upd_handle 0x1000 (\<lambda>h. h\<lparr>sym_name := [(1, ''f'') \<mapsto> 0x40]\<rparr>) demo_proc) = Some (r, w') \<and>
    handles w' 0x1000 = Some h' \<and> getSym_from_hashmap 1 ''f'' h' = 0"
proof -
  let ?w = "upd_handle 0x1000 (\<lambda>h. h\<lparr>sym_name := [(1, ''f'') \<mapsto> 0x40]\<rparr>) demo_proc"
  have "unloadLibrary demo_ops demo_sched 0x1000 1 ?w \<noteq> None" "handles ?w 0x1000 \<noteq> None" by code_simp+
  then obtain r w' h where "unloadLibrary demo_ops demo_sched 0x1000 1 ?w = Some (r, w')"
    "handles ?w 0x1000 = Some h" by auto
  with unloadLibrary_forgets [OF this] show ?thesis by blast
qed



end
