(* ===== verification/Remote_Call.thy ===== *)
theory Remote_Call
  imports Solo_Request Call_Frame Proc_Objects
begin

text \<open>
  Requests and calls from end to end. A synchronous request returns what the VE's handler
  answered; a synchronous call runs the function on the VE with the registers and the stack frame
  of the arguments and brings its result and the output buffers back.
\<close>

section \<open>Requests\<close>

lemma solo_progress_call:
  assumes "urpc_ok ops pend" "served ops vo (up (s_from S)) (s_ve S) (s_rep S)" "solo_ok ops vo S"
    and "inv_all pend s" "solo_inv S s" and p: "progress ops lk s = (Inr u, t)"
  shows "inv_all pend t \<and> solo_inv S t"
proof (cases "emptyInFlight (comq s) \<and> lk")
  case True
  obtain r v where n: "progress_nolock ops False s = (r, v)" by (metis surj_pair)
  with True p obtain rv where "r = Inr rv" "v = t" by (cases r) (auto simp: progress_def)
  then show ?thesis using solo_progress [OF assms(1-5)] n by blast
next
  case False
  then have "t = s" using p by (auto simp: progress_def split: if_splits)
  then show ?thesis using assms(4,5) by blast
qed

text \<open>From the idle context to the state a successful wait leaves.\<close>

lemma solo_request:
  assumes ok: "urpc_ok ops pend" and sv: "served ops vo (up s) (s_ve S) (s_rep S)" and so: "solo_ok ops vo S"
    and ia: "inv_all pend s" and idle: "\<not> isActive (comq s)" and al: "is_alive ops s"
    and sq: "seq_no s \<noteq> VEO_REQUEST_ID_INVALID" and S: "s_id S = seq_no s" "s_from S = s"
    and p: "progress ops lk (enqueue (\<lambda>i. new_CommandImpl i (s_kind S)) s) = (Inr u, s1)"
    and w: "callWaitResult ops lks (seq_no s) ret s1 = Some (Inr (Some VEO_COMMAND_OK), v, t)"
  shows "v = Some (s_val S) \<and> s_ve S (env t) = s_mid S \<and> hst t = s_end S \<and> inv_all pend t \<and>
    \<not> isActive (comq t) \<and> same_place S t"
proof -
  let ?t = "enqueue (\<lambda>i. new_CommandImpl i (s_kind S)) s"
  have "ctx_step ops pend s ?t"
    by (rule enqueue_step [OF al sq]) (use solo_okD(1) [OF so] in \<open>simp_all add: new_CommandImpl_def\<close>)
  then have "inv_all pend ?t" using ctx_step_inv ok ia by blast
  moreover have "solo_inv S ?t" using solo_start ia idle S by (auto simp: inv_all_def)
  moreover note sv = sv [folded S(2)]
  ultimately have "inv_all pend s1" "solo_inv S s1" using solo_progress_call [OF ok sv so _ _ p] by blast+
  then show ?thesis using solo_wait [OF ok sv so] w S(1) by simp
qed

text \<open>A wait for an identifier that is not outstanding never ends well.\<close>

lemma wait_unknown:
  assumes "j \<notin> rem_reqid s"
  shows "callWaitResult ops lks j ret s \<noteq> Some (Inr (Some VEO_COMMAND_OK), v, t)"
proof
  let ?I = "\<lambda>s. j \<notin> rem_reqid s"
  assume w: "callWaitResult ops lks j ret s = Some (Inr (Some VEO_COMMAND_OK), v, t)"
  have "collects ?I j v t"
    by (rule wait_collects [where I = ?I, OF _ w [unfolded callWaitResult_def] assms])
      (use progress_rem_mono in blast)
  then show False by (auto simp: collects_def)
qed

text \<open>The two kinds of replies a generic request understands.\<close>

fun generic_value :: "reply \<Rightarrow> u64 option" where
  "generic_value (cm, []) = (if cm = URPC_CMD_ACK then Some 0 else None)"
| "generic_value (cm, [ItemL v]) = (if cm = URPC_CMD_RESULT then Some v else None)"
| "generic_value _ = None"

definition generic_solo ::
  "('e \<Rightarrow> 'v ve_proc) \<Rightarrow> ('e \<Rightarrow> int \<Rightarrow> reply option) \<Rightarrow> nat \<Rightarrow> item list \<Rightarrow> reply \<Rightarrow> u64 \<Rightarrow> 'v ve_proc \<Rightarrow> 'e cst
    \<Rightarrow> ('e, 'v) solo" where
  "generic_solo ve rep cm its a val v s =
     \<lparr>s_id = seq_no s, s_kind = KGeneric cm its, s_from = s, s_ve = ve, s_rep = rep, s_msg = (cm, its),
      s_mid = v, s_ans = a, s_end = hst s, s_val = val\<rparr>"

lemma generic_unpack:
  assumes "generic_value a = Some val" "mb_cmd m = fst a"
    and "urpc_unpack_payload ops (map item_letter (snd a)) payload = (0, snd a)" "snd a \<noteq> [] \<Longrightarrow> payload \<noteq> []"
  shows "unpack_generic ops c m payload s = (Inr 0, setResult (Some val) (Some VEO_COMMAND_OK) c, s)"
  using assms
  by (cases a rule: generic_value.cases)
    (auto simp: unpack_generic_def unpack_call_result_def const_defs split: if_splits)

lemma generic_solo_ok:
  assumes "generic_value a = Some val" "ve_handle vo cm its (ve (env s)) = Some (rc, Some a, v)"
  shows "solo_ok ops vo (generic_solo ve rep cm its a val v s)"
  unfolding solo_ok_def generic_solo_def
  using assms by (auto simp: handle_generic_def generic_unpack split: prod.splits)

lemma genericAsyncReq_eq:
  assumes "is_alive ops s" "seq_no s \<noteq> VEO_REQUEST_ID_INVALID" "cm \<noteq> URPC_CMD_ACS_PCIRCVSYC"
  shows "genericAsyncReq ops lk cm its s =
    bind_st (progress ops lk (enqueue (\<lambda>i. new_CommandImpl i (KGeneric cm its)) s)) (\<lambda>_ t. (Inr (seq_no s), t))"
  using assms by (simp add: genericAsyncReq_def issue_small push_cmd_eq enqueue_def)

lemma sync_request_done:
  assumes ok: "urpc_ok ops pend" and sv: "served ops vo (up s) ve rep" and ia: "inv_all pend s"
    and idle: "\<not> isActive (comq s)" and sq: "seq_no s \<noteq> VEO_REQUEST_ID_INVALID"
    and cm: "cm \<noteq> URPC_CMD_ACS_PCIRCVSYC" and h: "ve_handle vo cm its (ve (env s)) = Some (rc, Some a, v)"
    and a: "generic_value a = Some val"
    and r: "sync_request ops sc cm its ret s = Some (Inr (Some VEO_COMMAND_OK, out), t)"
  shows "out = Some val \<and> ve (env t) = v \<and> hst t = hst s \<and> inv_all pend t \<and> \<not> isActive (comq t) \<and> up t = up s"
proof -
  let ?S = "generic_solo ve rep cm its a val v s"
  have so: "solo_ok ops vo ?S" by (rule generic_solo_ok) (fact a, fact h)
  have al: "is_alive ops s"
  proof (rule ccontr)
    assume "\<not> is_alive ops s"
    then have r': "callWaitResult ops (lk_wait sc) VEO_REQUEST_ID_INVALID ret s = Some (Inr (Some VEO_COMMAND_OK), out, t)"
      using r by (auto simp: sync_request_def genericAsyncReq_def split: option.splits prod.splits sum.splits)
    then show False using wait_unknown invalid_not_issued ia unfolding inv_all_def by blast
  qed
  obtain s1 where p: "progress ops (lk_progress sc 0) (enqueue (\<lambda>i. new_CommandImpl i (KGeneric cm its)) s) = (Inr (), s1)"
    and w: "callWaitResult ops (lk_wait sc) (seq_no s) ret s1 = Some (Inr (Some VEO_COMMAND_OK), out, t)"
  proof -
    obtain x s1 where "progress ops (lk_progress sc 0) (enqueue (\<lambda>i. new_CommandImpl i (KGeneric cm its)) s) = (x, s1)"
      by (metis surj_pair)
    then show ?thesis using r that unfolding sync_request_def genericAsyncReq_eq [OF al sq cm]
      by (cases x) (auto split: option.splits prod.splits sum.splits)
  qed
  have "out = Some (s_val ?S) \<and> s_ve ?S (env t) = s_mid ?S \<and> hst t = s_end ?S \<and> inv_all pend t \<and>
      \<not> isActive (comq t) \<and> same_place ?S t"
    by (rule solo_request [OF ok _ so ia idle al sq _ _ _ w]) (use sv p in \<open>simp_all add: generic_solo_def\<close>)
  then show ?thesis by (simp add: generic_solo_def same_place_def)
qed


section \<open>Calls\<close>

text \<open>
  What a call means: the frame is written to the VE stack if an argument is passed in, the function
  runs on the registers and the stack pointer, the buffers passed out are copied from the frame,
  and the buffer of the frame is freed.
\<close>

definition remote_call ::
  "'v ve_ops \<Rightarrow> u64 \<Rightarrow> u64 list \<Rightarrow> copy list \<Rightarrow> call_args \<Rightarrow> 'v ve_proc \<Rightarrow> host \<Rightarrow> exc + (u64 \<times> 'v ve_proc \<times> host)"
  where
  "remote_call vo addr regs cs ca v h =
     (let n = unat (stack_size ca);
          m1 = (if copied_in ca then mem_write (vemem v) (stack_top ca) (mem_read (vhmem h) (stack_buf ca) n) else vemem v);
          (result, m2, x) = ve_run vo addr regs (if copied_in ca \<or> copied_out ca then stack_top ca else curr_sp vo) m1 (ve_env v);
          vm = (if copied_out ca then run_copyout (rd_payload (mem_read m2 (stack_top ca) n)) cs (vhmem h) else Inr (vhmem h))
      in bind_exc vm (\<lambda>vm'. Inr (result, v\<lparr>vemem := m2, ve_env := x\<rparr>, delete_char (stack_buf ca) (h\<lparr>vhmem := vm'\<rparr>))))"

lemma remote_callE:
  assumes "remote_call vo addr regs cs ca v h = Inr (result, v', h')"
  obtains m x vm where "ve_run vo addr regs (if copied_in ca \<or> copied_out ca then stack_top ca else curr_sp vo)
      (if copied_in ca then mem_write (vemem v) (stack_top ca) (mem_read (vhmem h) (stack_buf ca) (unat (stack_size ca))) else vemem v)
      (ve_env v) = (result, m, x)" "v' = v\<lparr>vemem := m, ve_env := x\<rparr>"
    "(if copied_out ca then run_copyout (rd_payload (mem_read m (stack_top ca) (unat (stack_size ca))))
      cs (vhmem h) else Inr (vhmem h)) = Inr vm" "h' = delete_char (stack_buf ca) (h\<lparr>vhmem := vm\<rparr>)"
proof -
  obtain r m x where r: "ve_run vo addr regs (if copied_in ca \<or> copied_out ca then stack_top ca else curr_sp vo)
      (if copied_in ca then mem_write (vemem v) (stack_top ca) (mem_read (vhmem h) (stack_buf ca) (unat (stack_size ca))) else vemem v)
      (ve_env v) = (r, m, x)" by (metis prod_cases3)
  obtain y where y: "y = (if copied_out ca then run_copyout (rd_payload (mem_read m (stack_top ca) (unat (stack_size ca))))
      cs (vhmem h) else Inr (vhmem h))" by blast
  obtain b where b: "y = Inr b" "result = r" "v' = v\<lparr>vemem := m, ve_env := x\<rparr>"
      "h' = delete_char (stack_buf ca) (h\<lparr>vhmem := b\<rparr>)"
    using assms unfolding remote_call_def Let_def r prod.case y [symmetric] by (cases y) auto
  show ?thesis by (rule that [of m x b]) (use r y b in simp_all)
qed

lemma words_of_le: "length b = 8 \<Longrightarrow> words_of (b @ r) = le_word b # words_of r"
  by (auto simp: length_Suc_conv eval_nat_numeral)

lemma words_of_to_bytes [simp]: "words_of (to_bytes ws) = ws"
proof (induction ws)
  case (Cons w ws)
  then show ?case using words_of_le [of "le_bytes 8 w" "to_bytes ws"] by (simp add: to_bytes_def le64.dec_enc)
qed (simp add: to_bytes_def)

lemma copy_back_all: "8 dvd length stack \<Longrightarrow> copy_back m tp stack = mem_read m tp (length stack)"
  by (simp add: copy_back_def)

text \<open>The message of a call whose frame fits.\<close>

definition call_msg :: "u64 \<Rightarrow> u64 \<Rightarrow> u64 list \<Rightarrow> call_args \<Rightarrow> host \<Rightarrow> nat \<times> item list" where
  "call_msg sp addr regs ca h =
     (let its = [ItemL addr, ItemP (to_bytes regs), ItemL (stack_top ca), ItemL sp];
          img = ItemP (mem_read (vhmem h) (stack_buf ca) (unat (stack_size ca)))
      in if copied_in ca \<and> copied_out ca then (URPC_CMD_CALL_STKINOUT, its @ [img])
         else if copied_in ca then (URPC_CMD_CALL_STKIN, its @ [img])
         else if copied_out ca then (URPC_CMD_CALL_STKOUT, its @ [ItemQ (stack_buf ca) (stack_size ca)])
         else (URPC_CMD_CALL, take 2 its))"

definition fits :: "u64 \<Rightarrow> u64 list \<Rightarrow> call_args \<Rightarrow> bool" where
  "fits max_cmd regs ca \<longleftrightarrow> copied_in ca \<or> copied_out ca \<longrightarrow>
     stack_size ca \<le> max_cmd - SEND_CALL_CMD_SIZE_WITHOUT_DATA - of_nat (length regs) * 8"

lemma send_call_msg:
  assumes "fits (urpc_max_send_cmd_size ops p e) regs ca"
  shows "send_call_nolock ops p sp addr regs (stack_top ca) (stack_size ca) (copied_in ca) (copied_out ca)
      (stack_buf ca) (vhmem h) e = (case call_msg sp addr regs ca h of (cm, its) \<Rightarrow> urpc_generic_send ops p cm its e)"
  using assms by (auto simp: send_call_nolock_def call_msg_def fits_def call_stack_size_def Let_def)

definition call_answer :: "u64 \<Rightarrow> mem \<Rightarrow> call_args \<Rightarrow> reply" where
  "call_answer result m ca =
     (if copied_out ca then (URPC_CMD_RES_STK, [ItemL result, ItemP (mem_read m (stack_top ca) (unat (stack_size ca)))])
      else (URPC_CMD_RESULT, [ItemL result]))"

lemma call_handled:
  assumes rc: "remote_call vo addr regs cs ca v h = Inr (result, v', h')" and a: "addr \<noteq> 0"
    and n: "length regs \<le> MAX_ARGS_IN_REGS" "8 dvd unat (stack_size ca)" and sp: "sp = curr_sp vo"
  shows "ve_handle vo (fst (call_msg sp addr regs ca h)) (snd (call_msg sp addr regs ca h)) v =
    Some (0, Some (call_answer result (vemem v') ca), v')"
proof -
  define f where f: "f = mem_read (vhmem h) (stack_buf ca) (unat (stack_size ca))"
  obtain m x where r: "ve_run vo addr regs (if copied_in ca \<or> copied_out ca then stack_top ca else curr_sp vo)
      (if copied_in ca then mem_write (vemem v) (stack_top ca) f else vemem v) (ve_env v) = (result, m, x)"
    "v' = v\<lparr>vemem := m, ve_env := x\<rparr>" by (rule remote_callE [OF rc, folded f])
  have t: "take MAX_ARGS_IN_REGS regs = regs" using n(1) by simp
  have l: "length f = unat (stack_size ca)" by (simp add: f)
  show ?thesis
    using a n(2) sp t l r(1) unfolding call_msg_def f [symmetric] r(2)
    by (auto simp: ve_handle_def call_handler_def get_L_def get_P_def get_Q_def call_answer_def
        const_defs copy_back_all reply_L_def Let_def)
qed


definition call_solo ::
  "('e \<Rightarrow> 'v ve_proc) \<Rightarrow> ('e \<Rightarrow> int \<Rightarrow> reply option) \<Rightarrow> u64 \<Rightarrow> u64 list \<Rightarrow> copy list \<Rightarrow> call_args \<Rightarrow> u64 \<Rightarrow> 'v ve_proc
    \<Rightarrow> host \<Rightarrow> 'e cst \<Rightarrow> ('e, 'v) solo" where
  "call_solo ve rep addr regs cs ca result v h s =
     \<lparr>s_id = seq_no s,
      s_kind = KCall addr regs (stack_top ca) (stack_size ca) (copied_in ca) (copied_out ca) (stack_buf ca) 0 (Some cs),
      s_from = s, s_ve = ve, s_rep = rep, s_msg = call_msg (ve_sp s) addr regs ca (hst s), s_mid = v,
      s_ans = call_answer result (vemem v) ca, s_end = h, s_val = result\<rparr>"

lemma call_unpack:
  assumes rc: "remote_call vo addr regs cs ca v (hst s) = Inr (result, v', h')"
    and m: "mb_cmd m = fst (call_answer result (vemem v') ca)"
    and pl: "urpc_unpack_payload ops (map item_letter (snd (call_answer result (vemem v') ca))) payload =
      (0, snd (call_answer result (vemem v') ca))" "payload \<noteq> []"
  shows "unpack_call ops (stack_buf ca) 0 (Some cs) c m payload s =
    (Inr 0, setResult (Some result) (Some VEO_COMMAND_OK) c, s\<lparr>hst := h'\<rparr>)"
proof -
  obtain mm x vm where v': "v' = v\<lparr>vemem := mm, ve_env := x\<rparr>"
    and vm: "(if copied_out ca then run_copyout (rd_payload (mem_read mm (stack_top ca) (unat (stack_size ca))))
      cs (vhmem (hst s)) else Inr (vhmem (hst s))) = Inr vm"
    and h': "h' = delete_char (stack_buf ca) ((hst s)\<lparr>vhmem := vm\<rparr>)" by (rule remote_callE [OF rc])
  show ?thesis
    using vm m pl unfolding h' v'
    by (cases "copied_out ca") (auto simp: unpack_call_def unpack_call_result_def call_answer_def const_defs Let_def)
qed

lemma call_solo_ok:
  assumes rc: "remote_call vo addr regs cs ca (ve (env s)) (hst s) = Inr (result, v, h)" and a: "addr \<noteq> 0"
    and n: "length regs \<le> MAX_ARGS_IN_REGS" "8 dvd unat (stack_size ca)" and sp: "ve_sp s = curr_sp vo"
    and f: "\<And>e. fits (urpc_max_send_cmd_size ops (up s) e) regs ca"
  shows "solo_ok ops vo (call_solo ve rep addr regs cs ca result v h s)"
proof -
  let ?S = "call_solo ve rep addr regs cs ca result v h s"
  have "run_handler ops (s_kind ?S) c t = (case submitted r c of (rv, d) \<Rightarrow> (Inr rv, d, t\<lparr>env := e\<rparr>))"
    if "same_place ?S t" "hst t = hst s" "to_int32 r = r"
      "urpc_generic_send ops (up t) (fst (s_msg ?S)) (snd (s_msg ?S)) (env t) = (r, e)" for c t r e
    using that send_call_msg [OF f [of "env t"], where sp = "ve_sp s" and addr = addr and h = "hst s"]
    by (simp add: call_solo_def same_place_def handle_call_def split: prod.splits)
  moreover have "run_unpack ops (s_kind ?S) c m payload t =
      (Inr 0, setResult (Some result) (Some VEO_COMMAND_OK) c, t\<lparr>hst := h\<rparr>)"
    if "hst t = hst s" "mb_cmd m = fst (s_ans ?S)"
      "urpc_unpack_payload ops (map item_letter (snd (s_ans ?S))) payload = (0, snd (s_ans ?S))"
      "snd (s_ans ?S) \<noteq> [] \<Longrightarrow> payload \<noteq> []" for c m payload t
    using that call_unpack [of vo addr regs cs ca "ve (env s)" t result v h m ops payload] rc
    by (simp add: call_solo_def call_answer_def split: if_splits)
  ultimately show ?thesis
    using call_handled [OF rc a n sp] unfolding solo_ok_def by (auto simp: call_solo_def)
qed

lemma getRegVal_loop_length:
  "getRegVal_loop k args = Inr vs \<Longrightarrow> k < NUM_ARGS_ON_REGISTER \<Longrightarrow>
     length vs = min (length args) (NUM_ARGS_ON_REGISTER - k)"
  by (induction k args arbitrary: vs rule: getRegVal_loop.induct)
    (auto simp: bind_exc_def split: sum.splits if_splits)

definition call_spec :: "'v ve_ops \<Rightarrow> u64 \<Rightarrow> call_args \<Rightarrow> 'v ve_proc \<Rightarrow> host \<Rightarrow> exc + (u64 \<times> 'v ve_proc \<times> host)" where
  "call_spec vo addr ca v h =
     bind_exc (getRegVal ca) (\<lambda>regs. bind_exc (copyout ca) (\<lambda>cs. remote_call vo addr regs cs ca v h))"

lemma simpleCallAsync_eq:
  assumes "addr \<noteq> 0" "is_alive ops s" "seq_no s \<noteq> VEO_REQUEST_ID_INVALID"
  shows "simpleCallAsync ops lk addr regs tp sz cin cout stk ext cs s =
    bind_st (progress ops lk (enqueue (\<lambda>i. new_CommandImpl i (KCall addr regs tp sz cin cout stk ext cs)) s))
      (\<lambda>_ t. (Inr (seq_no s), t))"
  using assms by (simp add: simpleCallAsync_def issue_small push_cmd_eq enqueue_def)

lemma frame_call_returns:
  assumes "arguments ca = map Some (place (stack_top ca) (PARAM_AREA_OFFSET + 8 * length as) as)"
    and "frame_len as < 2 ^ 31" "stack_size ca = of_nat (round16 (frame_len as))" "copyout ca = Inr cs"
  shows "\<exists>result v' h'. remote_call vo addr regs cs ca v h = Inr (result, v', h')"
proof -
  have r: "round16 (frame_len as) < 2 ^ 64" using round16_le [of "frame_len as"] assms(2) by simp
  have "unat (cp_off c) + unat (cp_len c) \<le> unat (stack_size ca)" if "c \<in> set cs" "copied_out ca" for c
  proof -
    have "c \<in> set (frame_copies (PARAM_AREA_OFFSET + 8 * length as) as)"
      using that assms(1,4) by (simp add: copyout_def copyout_funcs_place)
    from frame_copies_bound [OF this] show ?thesis
      using assms(2,3) r round16_ge [of "frame_len as"] by (simp add: frame_len_def unat_of_nat)
  qed
  then have c: "\<exists>m'. run_copyout (rd_payload (mem_read m (stack_top ca) (unat (stack_size ca)))) cs (vhmem h) = Inr m'"
    if "copied_out ca" for m
    using that run_copyout_payload [of cs "mem_read m (stack_top ca) (unat (stack_size ca))" "vhmem h"] by auto
  obtain r m x where x: "ve_run vo addr regs (if copied_in ca \<or> copied_out ca then stack_top ca else curr_sp vo)
      (if copied_in ca then mem_write (vemem v) (stack_top ca) (mem_read (vhmem h) (stack_buf ca) (unat (stack_size ca))) else vemem v)
      (ve_env v) = (r, m, x)" by (metis prod_cases3)
  show ?thesis unfolding remote_call_def Let_def x prod.case using c [of m] by (cases "copied_out ca") auto
qed

lemma callSync_done:
  assumes ok: "urpc_ok ops pend" and sv: "served ops vo (up s) ve rep" and ia: "inv_all pend s"
    and idle: "\<not> isActive (comq s)" and sq: "seq_no s \<noteq> VEO_REQUEST_ID_INVALID" and sp: "ve_sp s = curr_sp vo"
    and mx: "\<And>e. urpc_max_send_cmd_size ops (up s) e = max_cmd"
    and su: "setup_call ops ca s = Inr (ca', s')" "s' = s\<lparr>hst := h\<rparr>"
    and sz: "8 dvd unat (stack_size ca')"
    and small: "stack_size ca' \<le> max_cmd - SEND_CALL_CMD_SIZE_WITHOUT_DATA - reg_args_size ca'"
    and spec: "\<And>regs cs. copyout ca' = Inr cs \<Longrightarrow> \<exists>result v' h'. remote_call vo addr regs cs ca' (ve (env s)) h = Inr (result, v', h')"
    and r: "callSync ops lk lks addr ca res s = Some ((Inr 0, t), out, ca2)"
  shows "\<exists>result. call_spec vo addr ca' (ve (env s)) h = Inr (result, ve (env t), hst t) \<and> out = Some result \<and>
    inv_all pend t \<and> \<not> isActive (comq t) \<and> up t = up s \<and> ve_sp t = ve_sp s"
proof -
  have al: "is_alive ops s" using r by (auto simp: callSync_def split: if_splits)
  have al': "is_alive ops s'" and s': "up s' = up s" "seq_no s' = seq_no s" "comq s' = comq s" "env s' = env s" "hst s' = h"
    "ve_sp s' = ve_sp s" using al su(2) by (simp_all add: is_alive_def split: if_splits)
  have ia': "inv_all pend s'"
    using ia ctx_inv_cong [of s s'] flight_inv_cong [of pend s s'] su(2) by (simp add: inv_all_def)
  obtain req s1 ca3 where d: "doCallAsync ops lk addr ca' s' = Some ((Inr req, s1), ca3)" "req \<noteq> VEO_REQUEST_ID_INVALID"
    and w: "callWaitResult ops lks req res s1 = Some (Inr (Some VEO_COMMAND_OK), out, t)"
    using r al su(1) by (auto simp: callSync_def split: option.splits prod.splits sum.splits if_splits)
  obtain regs cs where rg: "getRegVal ca' = Inr regs" "copyout ca' = Inr cs" and a: "addr \<noteq> 0"
    using d by (auto simp: doCallAsync_def Let_def split: sum.splits if_splits)
  have len: "length regs = min (numArgs ca') NUM_ARGS_ON_REGISTER"
    using getRegVal_loop_length [of 0 "arguments ca'" regs] rg(1) by (simp add: getRegVal_def numArgs_def const_defs)
  have f: "fits (urpc_max_send_cmd_size ops (up s') e) regs ca'" for e
    using small len mx s'(1) by (simp add: fits_def reg_args_size_def)
  obtain result v' h' where rc: "remote_call vo addr regs cs ca' (ve (env s')) (hst s') = Inr (result, v', h')"
    using spec [OF rg(2)] s' by metis
  let ?S = "call_solo ve rep addr regs cs ca' result v' h' s'"
  have so: "solo_ok ops vo ?S"
    by (rule call_solo_ok [OF _ a _ sz _ f]) (use rc len sp s' in \<open>simp_all add: const_defs\<close>)
  have sq': "seq_no s' \<noteq> VEO_REQUEST_ID_INVALID" using sq s'(2) by simp
  obtain x s2 where p: "progress ops (lk 0) (enqueue (\<lambda>i. new_CommandImpl i (s_kind ?S)) s') = (x, s2)"
    by (metis surj_pair)
  have "req = seq_no s'" "x = Inr ()" "s2 = s1"
    using d rg a small mx s'(1,4) p unfolding doCallAsync_def
    by (cases x; auto simp: Let_def simpleCallAsync_eq [OF a al' sq'] call_solo_def split: if_splits)+
  then have "out = Some (s_val ?S) \<and> s_ve ?S (env t) = s_mid ?S \<and> hst t = s_end ?S \<and> inv_all pend t \<and>
      \<not> isActive (comq t) \<and> same_place ?S t"
    by (intro solo_request [OF ok _ so ia' _ al' sq' _ _ p [unfolded \<open>x = Inr ()\<close>]])
      (use sv idle w s' in \<open>simp_all add: call_solo_def\<close>)
  then show ?thesis using rc rg s' by (simp add: call_spec_def call_solo_def same_place_def)
qed

end
