(* ===== verification/Ve_Line.thy ===== *)
theory Ve_Line
  imports Transfer_Run
begin

text \<open>
  The two sides joined: a transport that connects a context with the handlers of the VE, and what
  the operations of a context do to the VE process.
\<close>

section \<open>A line to the VE\<close>

text \<open>
  A transport that meets all contracts, with the handlers of the VE at its other end: one slot; a
  message is handled when it is sent, the answer waits in the slot. An answer is an
  acknowledgement, a number, or a number with a buffer.
\<close>

datatype answer = AnsAck | AnsL u64 | AnsLP nat u64 bytes

fun of_answer :: "answer \<Rightarrow> reply" where
  "of_answer AnsAck = (URPC_CMD_ACK, [])"
| "of_answer (AnsL v) = (URPC_CMD_RESULT, [ItemL v])"
| "of_answer (AnsLP cm v b) = (cm, [ItemL v, ItemP b])"

fun to_answer :: "reply \<Rightarrow> answer option" where
  "to_answer (cm, []) = (if cm = URPC_CMD_ACK then Some AnsAck else None)"
| "to_answer (cm, [ItemL v]) = (if cm = URPC_CMD_RESULT then Some (AnsL v) else None)"
| "to_answer (cm, [ItemL v, ItemP b]) = Some (AnsLP cm v b)"
| "to_answer _ = None"

fun pack_answer :: "answer \<Rightarrow> bytes" where
  "pack_answer AnsAck = []"
| "pack_answer (AnsL v) = le_bytes 8 v"
| "pack_answer (AnsLP cm v b) = le_bytes 8 v @ b"

definition unpack_answer :: "string \<Rightarrow> bytes \<Rightarrow> int \<times> item list" where
  "unpack_answer fmt b =
     (if fmt = [] then (0, [])
      else if fmt = ''L'' then (0, [ItemL (le_word (take 8 b))])
      else if fmt = ''LP'' then (0, [ItemL (le_word (take 8 b)), ItemP (drop 8 b)])
      else (- 1, []))"

record 'v line =
  line_ve :: "'v ve_proc"
  line_ans :: "answer option"

definition line_send :: "'v ve_ops \<Rightarrow> nat \<Rightarrow> item list \<Rightarrow> 'v line \<Rightarrow> int \<times> 'v line" where
  "line_send vo cm its e =
     (case line_ans e of
        Some _ \<Rightarrow> (- EAGAIN, e)
      | None \<Rightarrow>
          (case ve_handle vo cm its (line_ve e) of
             Some (rc, Some p, v) \<Rightarrow>
               (case to_answer p of None \<Rightarrow> (- 1, e)
                | Some a \<Rightarrow> (0, \<lparr>line_ve = v, line_ans = Some a\<rparr>))
           | _ \<Rightarrow> (- 1, e)))"

definition line_ops :: "'v ve_ops \<Rightarrow> (string \<Rightarrow> string option) \<Rightarrow> 'v line urpc_ops" where
  "line_ops vo genv = \<lparr>
     urpc_generic_send = \<lambda>p cm its e. line_send vo cm its e,
     urpc_get_cmd = \<lambda>p e. (case line_ans e of
         None \<Rightarrow> ((- 1, \<lparr>mb_cmd = 0, mb_payload = 0\<rparr>), e)
       | Some a \<Rightarrow> ((0, \<lparr>mb_cmd = fst (of_answer a), mb_payload = 0\<rparr>), e)),
     set_recv_payload = \<lambda>p m e. (case line_ans e of None \<Rightarrow> [] | Some a \<Rightarrow> pack_answer a),
     urpc_slot_done = \<lambda>p r m e. if r = 0 then e\<lparr>line_ans := None\<rparr> else e,
     urpc_next_send_slot = \<lambda>p e. (case line_ans e of None \<Rightarrow> 0 | Some _ \<Rightarrow> - 1),
     urpc_max_send_cmd_size = \<lambda>p e. 67108864,
     urpc_unpack_payload = unpack_answer,
     urpc_recv_req_timeout = \<lambda>p r tmo e. (map_option (\<lambda>a.
         (\<lparr>mb_cmd = fst (of_answer a), mb_payload = 0\<rparr>, pack_answer a)) (line_ans e), e),
     urpc_receiver_exited = \<lambda>p e. veo_finish (line_ve e),
     urpc_receiver_ready = \<lambda>p e. (True, e),
     vh_urpc_peer_create = \<lambda>e. (1, e),
     vh_urpc_child_create = \<lambda>p f v c e. (0, e),
     urpc_wait_peer_attach = \<lambda>p e. (0, e),
     vh_urpc_peer_destroy = \<lambda>p e. (0, e),
     vh_urpc_child_destroy = \<lambda>p e. e,
     urpc_shm_segid = \<lambda>p e. 0,
     urpc_child_pid = \<lambda>p e. 1,
     wait_child = \<lambda>p e. e,
     waitpid_exited = \<lambda>e. (False, e),
     pthread_create_ok = \<lambda>e. (True, e),
     vh_call = \<lambda>f a m e. (f, m, e),
     op_new = \<lambda>h. 0x1000,
     align8b = \<lambda>x. x,
     getenv_var = genv,
     errno_val = \<lambda>e. 0\<rparr>"

definition line_rep :: "'v line \<Rightarrow> int \<Rightarrow> reply option" where
  "line_rep e r = (if r = 0 then map_option of_answer (line_ans e) else None)"

definition line_pend :: "u64 \<Rightarrow> 'v line \<Rightarrow> int set" where
  "line_pend p e = (if line_ans e = None then {} else {0})"

lemma of_to_answer: "to_answer p = Some a \<Longrightarrow> of_answer a = p"
  by (cases p rule: to_answer.cases) (auto split: if_splits)

lemma unpack_pack:
  "\<exists>its. of_answer a = (fst (of_answer a), its) \<and> unpack_answer (map item_letter its) (pack_answer a) = (0, its) \<and>
     (its \<noteq> [] \<longrightarrow> pack_answer a \<noteq> [])"
proof -
  have "le_bytes 8 v \<noteq> []" for v :: u64 by (metis length_le_bytes list.size(3) zero_neq_numeral)
  then show ?thesis by (cases a) (simp_all add: unpack_answer_def le64.dec_enc)
qed

lemma line_send_cases:
  "line_send vo cm its e = (r, e') \<Longrightarrow> r = - EAGAIN \<and> e' = e \<and> line_ans e \<noteq> None \<or> r = - 1 \<and> e' = e \<and> line_ans e = None \<or>
     r = 0 \<and> line_ans e = None \<and> (\<exists>rc a v. ve_handle vo cm its (line_ve e) = Some (rc, Some (of_answer a), v) \<and>
       e' = \<lparr>line_ve = v, line_ans = Some a\<rparr>)"
  by (auto simp: line_send_def dest: of_to_answer split: option.splits prod.splits)

lemma line_urpc_ok: "urpc_ok (line_ops vo genv) line_pend"
  unfolding urpc_ok_def
  by (auto simp: line_ops_def line_pend_def EAGAIN_def dest!: line_send_cases split: option.splits)

lemma line_served: "served (line_ops vo genv) vo p line_ve line_rep"
  unfolding served_def
  by (auto simp: line_ops_def line_rep_def EAGAIN_def fun_eq_iff unpack_pack dest!: line_send_cases split: option.splits)

lemma line_responsive: "responsive (line_ops vo genv) line_pend (\<lambda>_. 0)"
  unfolding responsive_def
  by (auto simp: line_ops_def line_pend_def EAGAIN_def dest!: line_send_cases split: option.splits)

end
