(* ===== verification/Transfer_Props.thy ===== *)
theory Transfer_Props
  imports Ve_Line
begin

text \<open>
  Transfers over the whole path, from \<^verbatim>\<open>writeMem\<close> and \<^verbatim>\<open>readMem\<close> through the command engine to
  the handlers of the VE: what success means for the two memories, that the loops end, that the
  calls return, and an example over the line of \<^verbatim>\<open>Ve_Line\<close> that the witnesses evaluate.
\<close>


section \<open>Transfers deliver\<close>

definition xfer_of ::
  "('e \<Rightarrow> 'v ve_proc) \<Rightarrow> ('e \<Rightarrow> int \<Rightarrow> reply option) \<Rightarrow> bool \<Rightarrow> u64 \<Rightarrow> u64 \<Rightarrow> 'e cst \<Rightarrow> ('e, 'v) xfer" where
  "xfer_of ve rep wr dst src s =
     \<lparr>x_write = wr, x_dst = dst, x_src = src, x_ve = ve, x_rep = rep, x_from = s\<rparr>"

lemma writeMem_done:
  assumes ok: "urpc_ok ops pend" and sv: "served ops vo (up s) ve rep"
    and ia: "inv_all pend s" and idle: "\<not> isActive (comq s)"
    and ids: "unat (seq_no s) + unat sz < 2 ^ 64 - 1" and sz: "sz \<noteq> 0"
    and w: "writeMem ops lk lks dst src sz s = Some (Inr 0, t)"
  shows "inv_all pend t \<and> \<not> isActive (comq t) \<and> up t = up s \<and> vhmem (hst t) = vhmem (hst s) \<and>
    ve (env t) = (ve (env s))\<lparr>vemem := mem_write (vemem (ve (env s))) dst (mem_read (vhmem (hst s)) src (unat sz))\<rparr>"
proof -
  let ?X = "xfer_of ve rep True dst src s"
  obtain req s1 where a: "asyncWriteMem ops lk dst src sz s = Some (Inr req, s1)" "wait_ok ops lks req s1 = Some (Inr 0, t)"
    using w by (auto simp: writeMem_def bind_so_def split: option.splits sum.splits)
  have rq: "req \<noteq> VEO_REQUEST_ID_INVALID" using a(2) by (auto simp: wait_ok_def)
  then have x: "xloop (x_write ?X) ops lk (send_maxfrag ops sz s) sz (x_src ?X) (x_dst ?X) VEO_REQUEST_ID_INVALID False s
      = Some (Inr req, s1)"
    using a(1) sz by (auto simp: asyncWriteMem_def xloop_def xfer_of_def split: if_splits)
  have q: "request (comq s) = []" "inflight (comq s) = []" using idle by (simp_all add: isActive_def)
  have sv': "served ops vo (up s) (x_ve ?X) (x_rep ?X)" using sv by (simp add: xfer_of_def)
  have "x_from ?X = s" by (simp add: xfer_of_def)
  from transfer_done [OF ok sv' this ia q ids sz x a(2)] show ?thesis
    by (auto simp: xfer_of_def mem_at_def source_def target_def isActive_def)
qed

lemma readMem_done:
  assumes ok: "urpc_ok ops pend" and sv: "served ops vo (up s) ve rep"
    and ia: "inv_all pend s" and idle: "\<not> isActive (comq s)"
    and ids: "unat (seq_no s) + unat sz < 2 ^ 64 - 1" and sz: "sz \<noteq> 0"
    and w: "readMem ops lk lks dst src sz s = Some (Inr 0, t)"
  shows "inv_all pend t \<and> \<not> isActive (comq t) \<and> up t = up s \<and> ve (env t) = ve (env s) \<and>
    vhmem (hst t) = mem_write (vhmem (hst s)) dst (mem_read (vemem (ve (env s))) src (unat sz))"
proof -
  let ?X = "xfer_of ve rep False dst src s"
  obtain req s1 where a: "asyncReadMem ops lk dst src sz s = Some (Inr req, s1)" "wait_ok ops lks req s1 = Some (Inr 0, t)"
    using w by (auto simp: readMem_def bind_so_def split: option.splits sum.splits)
  have rq: "req \<noteq> VEO_REQUEST_ID_INVALID" using a(2) by (auto simp: wait_ok_def)
  then have x: "xloop (x_write ?X) ops lk (recv_maxfrag ops sz s) sz (x_src ?X) (x_dst ?X) VEO_REQUEST_ID_INVALID False s
      = Some (Inr req, s1)"
    using a(1) sz by (auto simp: asyncReadMem_def xloop_def xfer_of_def split: if_splits)
  have q: "request (comq s) = []" "inflight (comq s) = []" using idle by (simp_all add: isActive_def)
  have sv': "served ops vo (up s) (x_ve ?X) (x_rep ?X)" using sv by (simp add: xfer_of_def)
  have "x_from ?X = s" by (simp add: xfer_of_def)
  from transfer_done [OF ok sv' this ia q ids sz x a(2)] show ?thesis
    by (auto simp: xfer_of_def mem_at_def source_def target_def isActive_def)
qed

section \<open>Transfers end\<close>

lemma xloop_returns:
  assumes "maxfrag \<noteq> 0"
  shows "\<exists>r. xloop wr ops lk maxfrag rsize src dst prev flg s = Some r"
proof (induction "unat rsize" arbitrary: rsize src dst prev flg s rule: less_induct)
  case less
  show ?case
  proof (cases "0 < rsize")
    case True
    obtain req s1 where x: "xsubmit wr ops dst src (frag_step maxfrag rsize) prev s = (req, s1)" by (metis surj_pair)
    obtain r t where p: "(if flg then (Inr (), s1) else progress ops lk s1) = (r, t)" by (metis surj_pair)
    have "unat (rsize - frag_step maxfrag rsize) < unat rsize" using frag_step [OF assms True] by simp
    from less [OF this] show ?thesis
      unfolding xloop_eq [of _ _ _ _ rsize] x using True p by (cases r) simp_all
  qed (simp add: xloop_eq [of _ _ _ _ rsize])
qed

lemma fetch_id_valid: "fst (fetch_id n) \<noteq> VEO_REQUEST_ID_INVALID"
proof -
  have "(0 :: u64) \<noteq> VEO_REQUEST_ID_INVALID" by (simp add: VEO_REQUEST_ID_INVALID_def)
  then show ?thesis by (cases "n = VEO_REQUEST_ID_INVALID") (simp_all add: fetch_id.simps VEO_REQUEST_ID_INVALID_def)
qed

lemma xsubmit_alive:
  assumes "is_alive ops s" "xsubmit wr ops dst src sz prev s = (req, s1)"
  shows "req \<noteq> VEO_REQUEST_ID_INVALID \<and> is_alive ops s1 \<and> inflight (comq s1) = inflight (comq s)"
  using assms fetch_id_valid [of "seq_no s"]
  by (auto simp: xsubmit_def sendBuffAsync_def recvBuffAsync_def issueRequestID_def push_cmd_eq Let_def is_alive_def
      split: if_splits prod.splits)

text \<open>The body of the loops with fragments of size 0, in a live context: the next turn is the same.\<close>

definition stuck :: "'e urpc_ops \<Rightarrow> bool \<Rightarrow> bool \<Rightarrow> 'e cst \<Rightarrow> bool" where
  "stuck ops lk flg s \<longleftrightarrow> is_alive ops s \<and> (flg \<or> \<not> lk \<or> inflight (comq s) \<noteq> [])"

lemma stuck_turn:
  assumes "stuck ops lk flg s" "xsubmit wr ops dst src sz prev s = (req, s1)"
  shows "req \<noteq> VEO_REQUEST_ID_INVALID" "(if flg then (Inr (), s1) else progress ops lk s1) = (Inr (), s1)"
    "stuck ops lk True s1"
  using xsubmit_alive [of ops s] assms by (auto simp: stuck_def progress_def emptyInFlight_def)

lemma xloop_hangs:
  assumes "stuck ops lk flg s" "0 < rsize"
  shows "xloop wr ops lk 0 rsize src dst prev flg s = None"
proof -
  have "\<not> (mf = 0 \<and> 0 < rs \<and> stuck ops lk flg s)" if "send_loop ops lk mf rs src dst prev flg s = Some y"
    for mf rs src dst prev flg s y
    using that
  proof (induction rule: send_loop.raw_induct [rotated, consumes 1])
    case (1 loop ops lk mf rs src dst prev flg s y)
    obtain req s1 where x: "xsubmit True ops dst src 0 prev s = (req, s1)" by (metis surj_pair)
    then show ?case using 1(2) stuck_turn [OF _ x] 1(1) [of ops lk mf rs src dst req True s1 y]
      by (cases y) (auto simp: xsubmit_def Let_def split: if_splits)
  qed
  moreover have "\<not> (mf = 0 \<and> 0 < rs \<and> stuck ops lk flg s)" if "recv_loop ops lk mf rs src dst prev flg s = Some y"
    for mf rs src dst prev flg s y
    using that
  proof (induction rule: recv_loop.raw_induct [rotated, consumes 1])
    case (1 loop ops lk mf rs src dst prev flg s y)
    obtain req s1 where x: "xsubmit False ops dst src 0 prev s = (req, s1)" by (metis surj_pair)
    then show ?case using 1(2) stuck_turn [OF _ x] 1(1) [of ops lk mf rs src dst req True s1 y]
      by (cases y) (auto simp: xsubmit_def Let_def split: if_splits)
  qed
  ultimately show ?thesis using assms by (cases "xloop wr ops lk 0 rsize src dst prev flg s") (auto simp: xloop_def split: if_splits)
qed

lemma transfer_wait_returns:
  fixes X :: "('e, 'v) xfer"
  assumes ok: "urpc_ok ops pend" and rs: "responsive ops pend bound" and sv: "served ops vo (up s) (x_ve X) (x_rep X)"
    and X: "x_from X = s" and ia: "inv_all pend s" and idle: "request (comq s) = []" "inflight (comq s) = []"
    and ids: "unat (seq_no s) + unat sz < 2 ^ 64 - 1" and mf: "maxfrag \<noteq> 0"
    and x: "xloop (x_write X) ops lk maxfrag sz (x_src X) (x_dst X) VEO_REQUEST_ID_INVALID False s = Some (Inr req, s1)"
  shows "\<exists>r. wait_ok ops lks req s1 = Some r"
proof (cases "req = VEO_REQUEST_ID_INVALID")
  case False
  have f0: "frags_ok []" by (simp add: frags_ok_def)
  have "\<exists>fs' C'. frags_ok fs' \<and> total_size fs' = total_size [] + unat sz \<and> inv_all pend s1 \<and>
      xinv X fs' C' s1 \<and> req = prev_id fs' (length fs')"
    by (rule xinv_xloop [OF ok _ mf f0 ia xinv_start [OF idle X]]) (use sv X ids x False in \<open>simp_all add: prev_id_def\<close>)
  then obtain fs C where fs: "frags_ok fs" "inv_all pend s1" "xinv X fs C s1" "req = prev_id fs (length fs)" by auto
  have "req \<notin> refs (kind c)" if q: "c \<in> queued (comq s1)" for c
  proof -
    obtain l where l: "is_frag X fs l c" using xinvD(4,5) [OF fs(3)] q by (force simp: queued_def)
    then have "req = fid fs (length fs - 1)" "l < length fs" using fs(4) by (auto simp: prev_id_def is_frag_def)
    then have "req \<noteq> prev_id fs l" using False fid_inj [OF fs(1), of "length fs - 1" "l - 1"] by (auto simp: prev_id_def)
    then show ?thesis using l by (auto simp: is_frag_def frag_kind_def Let_def split: if_splits)
  qed
  then have "\<exists>r. wait_loop ops lks 0 req None s1 = Some r"
    using wait_returns [OF ok rs fs(2), of req] wait_gone [of req s1] unfolding awaited_def by blast
  then show ?thesis by (auto simp: wait_ok_def callWaitResult_def split: sum.splits)
qed (simp add: wait_ok_def)

section \<open>An example\<close>

text \<open>A VE whose functions return the sum of their register arguments and change a byte of their frame, and fragments of 1 byte to it and of 3 bytes from it.\<close>

definition demo_vo :: "unit ve_ops" where
  "demo_vo = \<lparr>ve_dlopen = \<lambda>n x. (0x5000, x), ve_dlclose = \<lambda>h x. (0, x), ve_dlsym = \<lambda>h n x. 0x6000,
     static_symtable = [], ve_malloc = \<lambda>n x. (0x7000, x), ve_free = \<lambda>a x. x,
     ve_run = \<lambda>a regs sp m x. (sum_list regs, m(sp + 256 := 99), x), curr_sp = 0x2000000,
     ve_urpc_init = \<lambda>i x. (1, x), ve_urpc_unpin = \<lambda>x. x, ve_urpc_init_dma = \<lambda>c x. x, ve_peer_core = \<lambda>x. 0, ve_urpc_fini = \<lambda>x. x,
     ve_set_receiver_flags = \<lambda>x. x, ve_prev_sent_payload = \<lambda>k x. [], ve_thread_create = \<lambda>p c n x. (0, x)\<rparr>"

definition demo_env :: "string \<Rightarrow> string option" where
  "demo_env v = (if v = ''VEO_SENDFRAG'' then Some ''1'' else if v = ''VEO_RECVFRAG'' then Some ''3'' else None)"

abbreviation "demo_line_ops \<equiv> line_ops demo_vo demo_env"

definition line_ctx :: "unit line cst" where
  "line_ctx = ctx.extend (new_Context 1 False)
     \<lparr>env = \<lparr>line_ve = \<lparr>vemem = \<lambda>a. 0, ve_env = (), veo_finish = False, num_ve_peers = 0\<rparr>, line_ans = None\<rparr>,
      hst = \<lparr>vhmem = \<lambda>a. ucast a, heap = {}\<rparr>, proc_survival = True\<rparr>"


lemma line_fresh: "fresh_ctx line_pend line_ctx"
  by (auto simp: fresh_ctx_def line_pend_def line_ctx_def ctx.defs new_Context_def)

lemma line_start: "(ctx_step demo_line_ops line_pend)\<^sup>*\<^sup>* line_ctx line_ctx" "\<not> isActive (comq line_ctx)"
    "unat (seq_no line_ctx) = 0"
  by (simp, code_simp, code_simp)

definition line_written :: "unit line cst" where
  "line_written = snd (the (writeMem demo_line_ops True (\<lambda>n. True) 0x100 0x20 5 line_ctx))"

lemma line_write: "writeMem demo_line_ops True (\<lambda>n. True) 0x100 0x20 5 line_ctx = Some (Inr 0, line_written)"
proof -
  have "map_option fst (writeMem demo_line_ops True (\<lambda>n. True) 0x100 0x20 5 line_ctx) = Some (Inr 0)" by code_simp
  then show ?thesis by (auto simp: line_written_def)
qed

definition line_read :: "unit line cst" where
  "line_read = snd (the (readMem demo_line_ops True (\<lambda>n. True) 0x400 0x100 5 line_written))"

lemma line_read_back:
  "readMem demo_line_ops True (\<lambda>n. True) 0x400 0x100 5 line_written = Some (Inr 0, line_read)"
proof -
  have "map_option fst (readMem demo_line_ops True (\<lambda>n. True) 0x400 0x100 5 line_written) = Some (Inr 0)" by code_simp
  then show ?thesis by (auto simp: line_read_def)
qed

lemma line_seq_written: "unat (seq_no line_written) = 5"
  by code_simp

section \<open>Properties\<close>

text \<open>
  C1. The transfer that \<^verbatim>\<open>writeMem\<close> cuts into fragments, hands to the command engine and the handlers of the VE
  store is one copy: when a reachable, idle context reports success, the memory of the VE is the
  old one with the whole source range written at the destination, nothing of the host's memory
  has changed and the context is idle again. The hypothesis \<open>served\<close> says that the transport
  hands each request to the VE's handlers once and returns what they answer.
\<close>

theorem writeMem_delivers:
  assumes "urpc_ok ops pend" "served ops vo (up s) ve rep"
    and "fresh_ctx pend s0" "(ctx_step ops pend)\<^sup>*\<^sup>* s0 s" "\<not> isActive (comq s)"
    and "unat (seq_no s) + unat sz < 2 ^ 64 - 1" "sz \<noteq> 0"
    and "writeMem ops lk lks dst src sz s = Some (Inr 0, t)"
  shows "ve (env t) = (ve (env s))\<lparr>vemem := mem_write (vemem (ve (env s))) dst (mem_read (vhmem (hst s)) src (unat sz))\<rparr> \<and>
    vhmem (hst t) = vhmem (hst s) \<and> \<not> isActive (comq t)"
  using writeMem_done [OF assms(1,2) reachable_inv [OF assms(1,3,4)] assms(5-)] by simp

theorem writeMem_delivers_witness:
  "vemem (line_ve (env line_written)) =
     mem_write (vemem (line_ve (env line_ctx))) 0x100 (mem_read (vhmem (hst line_ctx)) 0x20 5)"
  using writeMem_delivers [OF line_urpc_ok line_served line_fresh line_start(1,2) _ _ line_write] line_start(3) by simp

text \<open>
  C2. The same for \<^verbatim>\<open>readMem\<close>: success means that the host's memory is the old one with the
  whole range of VE memory written at the destination, and that the VE has not changed.
\<close>

theorem readMem_delivers:
  assumes "urpc_ok ops pend" "served ops vo (up s) ve rep"
    and "fresh_ctx pend s0" "(ctx_step ops pend)\<^sup>*\<^sup>* s0 s" "\<not> isActive (comq s)"
    and "unat (seq_no s) + unat sz < 2 ^ 64 - 1" "sz \<noteq> 0"
    and "readMem ops lk lks dst src sz s = Some (Inr 0, t)"
  shows "vhmem (hst t) = mem_write (vhmem (hst s)) dst (mem_read (vemem (ve (env s))) src (unat sz)) \<and>
    ve (env t) = ve (env s) \<and> \<not> isActive (comq t)"
  using readMem_done [OF assms(1,2) reachable_inv [OF assms(1,3,4)] assms(5-)] by simp

theorem readMem_delivers_witness:
  "\<exists>t. readMem demo_line_ops True (\<lambda>n. True) 0x400 0x100 17 line_ctx = Some (Inr 0, t) \<and>
     vhmem (hst t) = mem_write (vhmem (hst line_ctx)) 0x400 (mem_read (vemem (line_ve (env line_ctx))) 0x100 17)"
proof -
  have "map_option fst (readMem demo_line_ops True (\<lambda>n. True) 0x400 0x100 17 line_ctx) = Some (Inr 0)" by code_simp
  then obtain t where t: "readMem demo_line_ops True (\<lambda>n. True) 0x400 0x100 17 line_ctx = Some (Inr 0, t)" by auto
  from readMem_delivers [OF line_urpc_ok line_served line_fresh line_start(1,2) _ _ t] t line_start(3)
  show ?thesis by simp
qed

text \<open>
  C6. What \<^verbatim>\<open>writeMem\<close> stored on the VE \<^verbatim>\<open>readMem\<close> brings back: after a successful write of a
  host buffer and a successful read of the same VE range, the second host buffer holds the bytes
  of the first, however the two transfers were cut into fragments.
\<close>

theorem write_read_roundtrip:
  assumes "urpc_ok ops pend" "served ops vo (up s) ve rep"
    and "fresh_ctx pend s0" "(ctx_step ops pend)\<^sup>*\<^sup>* s0 s" "\<not> isActive (comq s)"
    and "unat (seq_no s) + unat sz < 2 ^ 64 - 1" "unat (seq_no t) + unat sz < 2 ^ 64 - 1" "sz \<noteq> 0"
    and "writeMem ops lk lks vbuf src sz s = Some (Inr 0, t)"
    and "readMem ops lk' lks' dst vbuf sz t = Some (Inr 0, u)"
  shows "mem_read (vhmem (hst u)) dst (unat sz) = mem_read (vhmem (hst s)) src (unat sz)"
proof -
  let ?bs = "mem_read (vhmem (hst s)) src (unat sz)"
  have b: "length ?bs \<le> 2 ^ 64" using unat_lt_2p64 [of sz] by simp
  have w: "inv_all pend t" "\<not> isActive (comq t)" "up t = up s" "vemem (ve (env t)) = mem_write (vemem (ve (env s))) vbuf ?bs"
    using writeMem_done [OF assms(1,2) reachable_inv [OF assms(1,3,4)] assms(5,6,8,9)] by simp_all
  have "served ops vo (up t) ve rep" using assms(2) w(3) by simp
  from readMem_done [OF assms(1) this w(1,2) assms(7,8,10)]
  have "vhmem (hst u) = mem_write (vhmem (hst t)) dst (mem_read (vemem (ve (env t))) vbuf (unat sz))" by simp
  then show ?thesis using w(4) mem_read_write_same [OF b] by simp
qed

theorem write_read_roundtrip_witness:
  "mem_read (vhmem (hst line_read)) 0x400 5 = mem_read (vhmem (hst line_ctx)) 0x20 5"
  using write_read_roundtrip [OF line_urpc_ok line_served line_fresh line_start(1,2) _ _ _ line_write line_read_back]
    line_start(3) line_seq_written by simp

text \<open>
  C8. The fragment loops of \<^verbatim>\<open>asyncWriteMem\<close> and \<^verbatim>\<open>asyncReadMem\<close> end for every transfer size,
  whatever the transport does, as long as the computed fragment size is not 0.
\<close>

theorem async_transfers_terminate:
  "(send_maxfrag ops sz s \<noteq> 0 \<longrightarrow> (\<exists>r. asyncWriteMem ops lk dst src sz s = Some r)) \<and>
   (recv_maxfrag ops sz s \<noteq> 0 \<longrightarrow> (\<exists>r. asyncReadMem ops lk dst src sz s = Some r))"
  using xloop_returns [of _ True ops lk sz src dst VEO_REQUEST_ID_INVALID False s]
    xloop_returns [of _ False ops lk sz src dst VEO_REQUEST_ID_INVALID False s]
  by (simp add: asyncWriteMem_def asyncReadMem_def xloop_def)

theorem async_transfers_terminate_witness:
  "send_maxfrag demo_line_ops 5 line_ctx = 1 \<and> recv_maxfrag demo_line_ops 5 line_ctx = 5 \<and>
   (\<exists>r. asyncWriteMem demo_line_ops True 0x100 0x20 5 line_ctx = Some r) \<and>
   (\<exists>r. asyncReadMem demo_line_ops True 0x100 0x20 5 line_ctx = Some r)"
proof -
  have "send_maxfrag demo_line_ops 5 line_ctx = 1" "recv_maxfrag demo_line_ops 5 line_ctx = 5" by code_simp+
  then show ?thesis using async_transfers_terminate [of demo_line_ops 5 line_ctx True] by simp
qed

text \<open>
  C9. With a fragment size of 0, which the environment variables \<^verbatim>\<open>VEO_SENDFRAG\<close> and
  \<^verbatim>\<open>VEO_RECVFRAG\<close> can set, the loops queue empty fragments for ever: on a live context, while
  another thread makes progress or something is in flight, \<^verbatim>\<open>asyncWriteMem\<close> and
  \<^verbatim>\<open>asyncReadMem\<close> do not return.
\<close>

theorem zero_fragments_hang:
  assumes "is_alive ops s" "\<not> lk \<or> inflight (comq s) \<noteq> []" "sz \<noteq> 0"
  shows "(send_maxfrag ops sz s = 0 \<longrightarrow> asyncWriteMem ops lk dst src sz s = None) \<and>
    (recv_maxfrag ops sz s = 0 \<longrightarrow> asyncReadMem ops lk dst src sz s = None)"
proof -
  have "stuck ops lk False s" "0 < sz" using assms by (auto simp: stuck_def word_neq_0_conv)
  from xloop_hangs [OF this, of True] xloop_hangs [OF this, of False] assms show ?thesis
    by (simp add: asyncWriteMem_def asyncReadMem_def xloop_def)
qed

definition zero_env :: "string \<Rightarrow> string option" where
  "zero_env v = (if v = ''VEO_SENDFRAG'' \<or> v = ''VEO_RECVFRAG'' then Some ''0'' else None)"

theorem zero_fragments_hang_witness:
  "asyncWriteMem (line_ops demo_vo zero_env) False 0x100 0x20 5 line_ctx = None \<and>
   asyncReadMem (line_ops demo_vo zero_env) False 0x100 0x20 5 line_ctx = None"
proof -
  have "send_maxfrag (line_ops demo_vo zero_env) 5 line_ctx = 0" "recv_maxfrag (line_ops demo_vo zero_env) 5 line_ctx = 0"
    "is_alive (line_ops demo_vo zero_env) line_ctx" by code_simp+
  then show ?thesis using zero_fragments_hang [of "line_ops demo_vo zero_env" line_ctx False 5] by simp
qed



end
