(* ===== verification/Call_Props.thy ===== *)
theory Call_Props
  imports Remote_Call Transfer_Props
begin

text \<open>
  What synchronous requests, symbol lookups and calls return, over the whole path from the process
  handle or the context through the command engine to the handlers of the VE, with an example on
  the line of \<^verbatim>\<open>Ve_Line\<close>.
\<close>

section \<open>An example\<close>

text \<open>The line of \<^verbatim>\<open>Transfer_Props\<close> with the stack pointer of the VE known to the context.\<close>

definition call_ctx :: "unit line cst" where
  "call_ctx = line_ctx\<lparr>ve_sp := 0x2000000\<rparr>"

lemma call_fresh: "fresh_ctx line_pend call_ctx"
  by (auto simp: fresh_ctx_def line_pend_def call_ctx_def line_ctx_def ctx.defs new_Context_def)

lemma call_start: "(ctx_step demo_line_ops line_pend)\<^sup>*\<^sup>* call_ctx call_ctx" "\<not> isActive (comq call_ctx)"
    "seq_no call_ctx = 0" "ve_sp call_ctx = curr_sp demo_vo"
  by (simp, code_simp, code_simp, code_simp)

lemma zero_valid: "(0 :: u64) \<noteq> VEO_REQUEST_ID_INVALID"
  by (simp add: VEO_REQUEST_ID_INVALID_def)

definition all_locks :: sched where
  "all_locks = \<lparr>lk_progress = \<lambda>n. True, lk_wait = \<lambda>n. True, asleep = \<lambda>n. False\<rparr>"

section \<open>Properties\<close>

text \<open>
  C4. A synchronous request is the VE's handler: when a reachable, idle context reports
  \<^verbatim>\<open>VEO_COMMAND_OK\<close>, the result is the value of the handler's reply (0 for an acknowledgement),
  the VE process is the one the handler left, the host's memory is unchanged and the context is
  idle again.
\<close>

theorem sync_request_answers:
  assumes "urpc_ok ops pend" "served ops vo (up s) ve rep"
    and "fresh_ctx pend s0" "(ctx_step ops pend)\<^sup>*\<^sup>* s0 s" "\<not> isActive (comq s)"
    and "seq_no s \<noteq> VEO_REQUEST_ID_INVALID" "cm \<noteq> URPC_CMD_ACS_PCIRCVSYC"
    and "ve_handle vo cm its (ve (env s)) = Some (rc, Some a, v)" "generic_value a = Some val"
    and "sync_request ops sc cm its ret s = Some (Inr (Some VEO_COMMAND_OK, out), t)"
  shows "out = Some val \<and> ve (env t) = v \<and> hst t = hst s \<and> \<not> isActive (comq t)"
  using sync_request_done [OF assms(1,2) reachable_inv [OF assms(1,3,4)] assms(5-)] by blast

theorem sync_request_answers_witness:
  "\<exists>t. sync_request demo_line_ops all_locks URPC_CMD_ALLOC [ItemL 64] (Some 0) call_ctx =
     Some (Inr (Some VEO_COMMAND_OK, Some 0x7000), t) \<and> line_ve (env t) = line_ve (env call_ctx)"
proof -
  have "map_option fst (sync_request demo_line_ops all_locks URPC_CMD_ALLOC [ItemL 64] (Some 0) call_ctx) =
      Some (Inr (Some VEO_COMMAND_OK, Some 0x7000))" by code_simp
  then obtain t where t: "sync_request demo_line_ops all_locks URPC_CMD_ALLOC [ItemL 64] (Some 0) call_ctx =
      Some (Inr (Some VEO_COMMAND_OK, Some 0x7000), t)" by auto
  have h: "ve_handle demo_vo URPC_CMD_ALLOC [ItemL 64] (line_ve (env call_ctx)) =
      Some (0, Some (URPC_CMD_RESULT, [ItemL 0x7000]), line_ve (env call_ctx))"
    by (simp add: ve_handle_def alloc_handler_def demo_vo_def const_defs reply_L_def)
  show ?thesis
    using sync_request_answers [OF line_urpc_ok line_served call_fresh call_start(1,2) _ _ h _ t] t zero_valid call_start(3)
    by (simp add: const_defs)
qed

text \<open>
  C3. \<^verbatim>\<open>callSync\<close> runs the function on the VE: when a call whose frame fits one message returns 0,
  the result is what the function at the address returns for the register values of the
  arguments, run with the frame that was set up on its stack, and afterwards the VE's memory is
  what the function left and the host's output buffers hold the bytes of its frame.
\<close>

theorem callSync_runs_function:
  assumes "urpc_ok ops pend" "served ops vo (up s) ve rep" "\<forall>e. urpc_max_send_cmd_size ops (up s) e = max_cmd"
    and "fresh_ctx pend s0" "(ctx_step ops pend)\<^sup>*\<^sup>* s0 s" "\<not> isActive (comq s)"
    and "seq_no s \<noteq> VEO_REQUEST_ID_INVALID" "ve_sp s = curr_sp vo"
    and "arguments ca = map Some as" "frame_len as < 2 ^ 31" "setup_call ops ca s = Inr (ca', s')"
    and "stack_size ca' \<le> max_cmd - SEND_CALL_CMD_SIZE_WITHOUT_DATA - reg_args_size ca'"
    and "callSync ops lk lks addr ca res s = Some ((Inr 0, t), out, ca2)"
  shows "\<exists>result. call_spec vo addr ca' (ve (env s)) (hst s') = Inr (result, ve (env t), hst t) \<and>
    out = Some result \<and> \<not> isActive (comq t)"
proof -
  obtain h where s': "s' = s\<lparr>hst := h\<rparr>" and su: "setup_args (op_new ops (hst s)) (ve_sp s - RESERVED_STACK_SIZE) ca (hst s) = Inr (ca', h)"
    using assms(11) by (cases "setup_args (op_new ops (hst s)) (ve_sp s - RESERVED_STACK_SIZE) ca (hst s)")
      (auto simp: setup_call_def)
  note f = setup_args_ok [OF assms(9,10), of "op_new ops (hst s)" "ve_sp s - RESERVED_STACK_SIZE" "hst s", unfolded su]
  have n: "stack_size ca' = of_nat (round16 (frame_len as))"
    "arguments ca' = map Some (place (stack_top ca') (PARAM_AREA_OFFSET + 8 * length as) as)" using f by auto
  have "16 dvd unat (stack_size ca')"
    using n(1) round16_le [of "frame_len as"] round16_dvd assms(10) by (simp add: unat_of_nat)
  then have d: "8 dvd unat (stack_size ca')" by (rule dvd_trans [rotated]) simp
  show ?thesis
    using callSync_done [OF assms(1,2) reachable_inv [OF assms(1,4,5)] assms(6-8) _ assms(11) s' d assms(12) _ assms(13)]
      assms(3) frame_call_returns [OF n(2) assms(10) n(1)] s' by fastforce
qed

definition add_args :: "arg list" where "add_args = [ArgI64 3, ArgI64 4]"

definition add_ca :: call_args where "add_ca = new_CallArgs\<lparr>arguments := map Some add_args\<rparr>"

lemma add_called:
  "\<exists>t ca2. callSync demo_line_ops (\<lambda>n. True) (\<lambda>n. True) 0x6000 add_ca None call_ctx = Some ((Inr 0, t), Some 7, ca2)"
proof -
  have "map_option (\<lambda>((r, t), out, ca2). (r, out))
      (callSync demo_line_ops (\<lambda>n. True) (\<lambda>n. True) 0x6000 add_ca None call_ctx) = Some (Inr 0, Some 7)" by code_simp
  then show ?thesis by auto
qed

lemma add_setup:
  "\<exists>ca' s'. setup_call demo_line_ops add_ca call_ctx = Inr (ca', s') \<and> stack_size ca' = 192 \<and> numArgs ca' = 2"
proof -
  have a: "arguments add_ca = map Some add_args" "frame_len add_args = 192" "round16 192 = 192" "length add_args = 2"
    by (simp_all add: add_ca_def add_args_def frame_len_def PARAM_AREA_OFFSET_def round16_def)
  from setup_args_ok [OF a(1), of "op_new demo_line_ops (hst call_ctx)" "ve_sp call_ctx - RESERVED_STACK_SIZE" "hst call_ctx"]
  show ?thesis by (auto simp: setup_call_def a numArgs_def)
qed

theorem callSync_runs_function_witness:
  "\<exists>ca' s' (t :: unit line cst). setup_call demo_line_ops add_ca call_ctx = Inr (ca', s') \<and>
     call_spec demo_vo 0x6000 ca' (line_ve (env call_ctx)) (hst s') = Inr (7, line_ve (env t), hst t)"
proof -
  obtain t ca2 where t: "callSync demo_line_ops (\<lambda>n. True) (\<lambda>n. True) 0x6000 add_ca None call_ctx = Some ((Inr 0, t), Some 7, ca2)"
    using add_called by blast
  obtain ca' s' where su: "setup_call demo_line_ops add_ca call_ctx = Inr (ca', s')" "stack_size ca' = 192" "numArgs ca' = 2"
    using add_setup by blast
  have m: "\<forall>e. urpc_max_send_cmd_size demo_line_ops (up call_ctx) e = 67108864" by (simp add: line_ops_def)
  have a: "arguments add_ca = map Some add_args" "frame_len add_args < 2 ^ 31"
    by (simp_all add: add_ca_def add_args_def frame_len_def PARAM_AREA_OFFSET_def)
  have "call_spec demo_vo 0x6000 ca' (line_ve (env call_ctx)) (hst s') = Inr (7, line_ve (env t), hst t)"
    using callSync_runs_function [OF line_urpc_ok line_served m call_fresh call_start(1,2) _ call_start(4) a su(1) _ t]
      call_start(3) zero_valid su by (simp add: reg_args_size_def const_defs)
  then show ?thesis using su(1) by blast
qed

text \<open>
  C10. \<^verbatim>\<open>getSym\<close> finds what the VE has: a name that is not yet in the handle's table and for which it
  returns an address has the address of the VE program's static table, if the name is there,
  and otherwise the one the dynamic linker gives for exactly this name in the given library; and
  the pair is in the table afterwards.
\<close>

theorem getSym_resolves:
  assumes "urpc_ok ops pend" "handles w ph = Some h" "contexts w (mctx h) = Some (ph, c)"
    and "served ops vo (up c) ve rep" "fresh_ctx pend s0" "(ctx_step ops pend)\<^sup>*\<^sup>* s0 (enter_ctx h c w)"
    and "\<not> isActive (comq c)" "seq_no c \<noteq> VEO_REQUEST_ID_INVALID"
    and "sym_name h (lib, name) = None" "0 \<notin> set (map of_char name :: bytes)"
    and "getSym ops sc ph lib name w = Some (Inr a, w')" "a \<noteq> 0"
  shows "a = (case map_of (static_symtable vo) (map of_char name) of
       Some x \<Rightarrow> x | None \<Rightarrow> if lib \<noteq> 0 then ve_dlsym vo lib (map of_char name) (ve_env (ve (wenv w))) else 0) \<and>
    (\<exists>h'. handles w' ph = Some h' \<and> sym_name h' (lib, name) = Some a)"
proof -
  let ?s = "enter_ctx h c w" and ?its = "[ItemL lib, ItemP (cstr name)]"
  have s: "up ?s = up c" "comq ?s = comq c" "seq_no ?s = seq_no c" "env ?s = wenv w"
    by (simp_all add: enter_ctx_def ctx.defs)
  have nm: "c_string (cstr name) = map of_char name"
    using assms(10) unfolding c_string_def cstr_def by (subst takeWhile_append2) auto
  obtain out t where r: "sync_request ops sc URPC_CMD_GETSYM ?its (Some 0) ?s = Some (Inr (Some VEO_COMMAND_OK, out), t)"
    and out: "out = Some a" and w': "handles w' ph = Some (h\<lparr>survival := proc_survival t, sym_name := (sym_name h)((lib, name) \<mapsto> a)\<rparr>)"
    using assms(11,12) unfolding getSym_def with_handle_def value_if_ok_def on_main_def on_ctx_def assms(2,3,9) option.case prod.case
    by (cases "sync_request ops sc URPC_CMD_GETSYM ?its (Some 0) ?s")
      (auto simp: bind_so_def assigned_def leave_ctx_def upd_handle_def split: if_splits sum.splits prod.splits option.splits)
  let ?val = "case map_of (static_symtable vo) (map of_char name) of
       Some x \<Rightarrow> x | None \<Rightarrow> if lib \<noteq> 0 then ve_dlsym vo lib (map of_char name) (ve_env (ve (env ?s))) else 0"
  have h: "ve_handle vo URPC_CMD_GETSYM ?its (ve (env ?s)) = Some (0, Some (URPC_CMD_RESULT, [ItemL ?val]), ve (env ?s))"
    by (auto simp: ve_handle_def getsym_handler_def get_L_def get_P_def nm reply_L_def const_defs split: option.splits)
  have sv: "served ops vo (up ?s) ve rep" "\<not> isActive (comq ?s)" "seq_no ?s \<noteq> VEO_REQUEST_ID_INVALID"
    "URPC_CMD_GETSYM \<noteq> URPC_CMD_ACS_PCIRCVSYC" using assms(4,7,8) s by (simp_all add: const_defs)
  have "generic_value (URPC_CMD_RESULT, [ItemL ?val]) = Some ?val" by simp
  from sync_request_done [OF assms(1) sv(1) reachable_inv [OF assms(1,5,6)] sv(2-4) h this r]
  have "a = ?val" using out by blast
  then show ?thesis using w' unfolding s(4) by simp
qed


definition sym_handle :: proc_handle where
  "sym_handle = \<lparr>sym_name = Map.empty, ph_up = 1, ph_ve_sp = 0x2000000, mctx = 0x100, ctx_vec = [0x100],
     ve_number = 0, ve2velibh = Map.empty, survival = True\<rparr>"

definition sym_world :: "unit line world" where
  "sym_world = \<lparr>procs = None, handles = [0x1000 \<mapsto> sym_handle],
     contexts = [0x100 \<mapsto> (0x1000, ctx.truncate call_ctx)], wenv = env call_ctx, whst = hst call_ctx\<rparr>"

theorem getSym_resolves_witness:
  "\<exists>w'. getSym demo_line_ops all_locks 0x1000 0x5000 ''f'' sym_world = Some (Inr 0x6000, w') \<and>
     (\<exists>h'. handles w' 0x1000 = Some h' \<and> sym_name h' (0x5000, ''f'') = Some 0x6000)"
proof -
  have "map_option fst (getSym demo_line_ops all_locks 0x1000 0x5000 ''f'' sym_world) = Some (Inr 0x6000)" by code_simp
  then obtain w' where w': "getSym demo_line_ops all_locks 0x1000 0x5000 ''f'' sym_world = Some (Inr 0x6000, w')" by auto
  have h: "handles sym_world 0x1000 = Some sym_handle" "contexts sym_world (mctx sym_handle) = Some (0x1000, ctx.truncate call_ctx)"
    "sym_name sym_handle (0x5000, ''f'') = None"
    by (simp_all add: sym_world_def sym_handle_def)
  have e: "enter_ctx sym_handle (ctx.truncate call_ctx) sym_world = call_ctx"
    by (simp add: enter_ctx_def sym_handle_def sym_world_def call_ctx_def line_ctx_def ctx.defs new_Context_def)
  have c: "\<not> isActive (comq (ctx.truncate call_ctx))" "seq_no (ctx.truncate call_ctx) \<noteq> VEO_REQUEST_ID_INVALID"
    using call_start(2,3) zero_valid by (simp_all add: ctx.defs)
  have "0 \<notin> set (map of_char ''f'' :: bytes)" by code_simp
  from getSym_resolves [OF line_urpc_ok h(1,2) line_served call_fresh _ c h(3) this w'] call_start(1) w' show ?thesis
    by (simp add: e)
qed

section \<open>Frames in two parts\<close>


definition split_ca :: call_args where
  "split_ca = new_CallArgs\<lparr>stack_size := 64, stack_top := 0x8000, stack_buf := 0x100\<rparr>"


end
