(* ===== verification/Api_Props.thy ===== *)
theory Api_Props
  imports Call_Props Veo_Api
begin

text \<open>
  The C interface over the whole stack: \<^verbatim>\<open>veo_hmemcpy\<close> as a copy in one address space and
  \<^verbatim>\<open>veo_alloc_hmem\<close> as an allocation on the VE, through the process handle, its main context, the
  command engine and the handlers of the VE, and the command line of the VE process.
\<close>

section \<open>One address space\<close>

text \<open>
  The memory of the host and of one VE process as an application sees them through tagged
  addresses: the VE flag selects the memory, and the tag is not part of the address.
\<close>

definition hmem_load :: "mem \<times> mem \<Rightarrow> u64 \<Rightarrow> nat \<Rightarrow> bytes" where
  "hmem_load mm a n = (if IS_VE a \<noteq> 0 then mem_read (fst mm) (VIRT_ADDR_VE a) n else mem_read (snd mm) a n)"

definition hmem_store :: "u64 \<Rightarrow> bytes \<Rightarrow> mem \<times> mem \<Rightarrow> mem \<times> mem" where
  "hmem_store a b mm =
     (if IS_VE a \<noteq> 0 then (mem_write (fst mm) (VIRT_ADDR_VE a) b, snd mm) else (fst mm, mem_write (snd mm) a b))"

definition spaces :: "('e \<Rightarrow> 'v ve_proc) \<Rightarrow> 'e api \<Rightarrow> mem \<times> mem" where
  "spaces ve w = (vemem (ve (wenv w)), vhmem (whst w))"

text \<open>What an operation on the main context of a process does to the world.\<close>

lemma on_main_spaces:
  fixes w :: "'e api"
  assumes "on_main ph f w = Some (Inr x, w')" "handles w ph = Some h" "contexts w (mctx h) = Some (ph, c)"
  shows "\<exists>t. f (enter_ctx h c w) = Some (Inr x, t) \<and> wenv w' = env t \<and> whst w' = hst t \<and> procs w' = procs w"
  using assms by (auto simp: on_main_def with_handle_def on_ctx_def leave_ctx_def split: option.splits)

lemma enter_ctx_sel [simp]:
  "up (enter_ctx h c w) = up c" "comq (enter_ctx h c w) = comq c" "seq_no (enter_ctx h c w) = seq_no c"
  "env (enter_ctx h c w) = wenv w" "hst (enter_ctx h c w) = whst w"
  by (simp_all add: enter_ctx_def ctx.defs)

lemma memcpy_handled:
  "ve_handle vo URPC_CMD_MEMCPY [ItemL d, ItemL a, ItemL n] v =
     Some (0, Some (URPC_CMD_ACK, []), v\<lparr>vemem := mem_write (vemem v) d (mem_read (vemem v) a (unat n))\<rparr>)"
  by (simp add: ve_handle_def memcpy_handler_def get_L_def reply_ACK_def const_defs)

text \<open>
  A process the application can use: its main context is reachable and idle, and the transport
  serves it.
\<close>

definition main_ready ::
  "'e urpc_ops \<Rightarrow> (u64 \<Rightarrow> 'e \<Rightarrow> int set) \<Rightarrow> 'v ve_ops \<Rightarrow> ('e \<Rightarrow> 'v ve_proc) \<Rightarrow> ('e \<Rightarrow> int \<Rightarrow> reply option)
    \<Rightarrow> u64 \<Rightarrow> 'e api \<Rightarrow> bool" where
  "main_ready ops pend vo ve rep ph w \<longleftrightarrow> urpc_ok ops pend \<and>
     (\<exists>h c s0. handles w ph = Some h \<and> contexts w (mctx h) = Some (ph, c) \<and> served ops vo (up c) ve rep \<and>
        fresh_ctx pend s0 \<and> (ctx_step ops pend)\<^sup>*\<^sup>* s0 (enter_ctx h c w) \<and> \<not> isActive (comq c))"

definition main_seq :: "u64 \<Rightarrow> 'e api \<Rightarrow> u64" where
  "main_seq ph w = (case handles w ph of None \<Rightarrow> 0
     | Some h \<Rightarrow> (case contexts w (mctx h) of None \<Rightarrow> 0 | Some (p, c) \<Rightarrow> seq_no c))"

lemma main_readyE:
  assumes "main_ready ops pend vo ve rep ph w"
  obtains h c where "urpc_ok ops pend" "handles w ph = Some h" "contexts w (mctx h) = Some (ph, c)"
    "served ops vo (up (enter_ctx h c w)) ve rep" "inv_all pend (enter_ctx h c w)" "\<not> isActive (comq (enter_ctx h c w))"
    "seq_no (enter_ctx h c w) = main_seq ph w"
proof -
  obtain h c s0 where x: "urpc_ok ops pend" "handles w ph = Some h" "contexts w (mctx h) = Some (ph, c)"
    "served ops vo (up c) ve rep" "fresh_ctx pend s0" "(ctx_step ops pend)\<^sup>*\<^sup>* s0 (enter_ctx h c w)" "\<not> isActive (comq c)"
    using assms unfolding main_ready_def by blast
  show ?thesis
    by (rule that [OF x(1-3)]) (use x reachable_inv [OF x(1,5,6)] in \<open>simp_all add: main_seq_def\<close>)
qed

lemma catch_zero: "catch_veo r (\<lambda>_ t. Some (Inr (- 1 :: int), t)) = Some (Inr 0, w') \<Longrightarrow> r = Some (Inr 0, w')"
  by (auto simp: catch_veo_def split: option.splits prod.splits sum.splits exc.splits)

lemma write_mem_done:
  assumes m: "main_ready ops pend vo ve rep ph w" and ids: "unat (main_seq ph w) + unat sz < 2 ^ 64 - 1" and sz: "sz \<noteq> 0"
    and r: "veo_write_mem ops sc ph dst src sz w = Some (Inr 0, w')"
  shows "spaces ve w' = (mem_write (fst (spaces ve w)) dst (mem_read (snd (spaces ve w)) src (unat sz)), snd (spaces ve w))"
proof -
  obtain h c where x: "urpc_ok ops pend" "handles w ph = Some h" "contexts w (mctx h) = Some (ph, c)"
    "served ops vo (up (enter_ctx h c w)) ve rep" "inv_all pend (enter_ctx h c w)" "\<not> isActive (comq (enter_ctx h c w))"
    "seq_no (enter_ctx h c w) = main_seq ph w" by (rule main_readyE [OF m])
  obtain t where t: "writeMem ops (lk_progress sc 0) (lk_wait sc) dst src sz (enter_ctx h c w) = Some (Inr 0, t)"
    "wenv w' = env t" "whst w' = hst t"
    using on_main_spaces [OF catch_zero [OF r [unfolded veo_write_mem_def], unfolded ph_writeMem_def] x(2,3)]
    by (auto simp: writeMem_def)
  show ?thesis using writeMem_done [OF x(1,4-6) _ sz t(1)] ids x(7) t(2,3) by (simp add: spaces_def)
qed

lemma read_mem_done:
  assumes m: "main_ready ops pend vo ve rep ph w" and ids: "unat (main_seq ph w) + unat sz < 2 ^ 64 - 1" and sz: "sz \<noteq> 0"
    and r: "veo_read_mem ops sc ph dst src sz w = Some (Inr 0, w')"
  shows "spaces ve w' = (fst (spaces ve w), mem_write (snd (spaces ve w)) dst (mem_read (fst (spaces ve w)) src (unat sz)))"
proof -
  obtain h c where x: "urpc_ok ops pend" "handles w ph = Some h" "contexts w (mctx h) = Some (ph, c)"
    "served ops vo (up (enter_ctx h c w)) ve rep" "inv_all pend (enter_ctx h c w)" "\<not> isActive (comq (enter_ctx h c w))"
    "seq_no (enter_ctx h c w) = main_seq ph w" by (rule main_readyE [OF m])
  obtain t where t: "readMem ops (lk_progress sc 0) (lk_wait sc) dst src sz (enter_ctx h c w) = Some (Inr 0, t)"
    "wenv w' = env t" "whst w' = hst t"
    using on_main_spaces [OF catch_zero [OF r [unfolded veo_read_mem_def], unfolded ph_readMem_def] x(2,3)]
    by (auto simp: readMem_def)
  show ?thesis using readMem_done [OF x(1,4-6) _ sz t(1)] ids x(7) t(2,3) by (simp add: spaces_def)
qed

text \<open>A synchronous request of a process is answered by the VE's handler.\<close>

lemma main_request:
  fixes w :: "'e api"
  assumes m: "main_ready ops pend vo ve rep ph w" and ids: "main_seq ph w \<noteq> VEO_REQUEST_ID_INVALID"
    and cm: "cm \<noteq> URPC_CMD_ACS_PCIRCVSYC" and h: "ve_handle vo cm its (ve (wenv w)) = Some (rc, Some a, v)"
    and a: "generic_value a = Some val"
    and r: "on_main ph (sync_request ops sc cm its ret) w = Some (Inr (Some VEO_COMMAND_OK, out), w')"
  shows "out = Some val \<and> ve (wenv w') = v \<and> whst w' = whst w \<and> procs w' = procs w"
proof -
  obtain h' c where x: "urpc_ok ops pend" "handles w ph = Some h'" "contexts w (mctx h') = Some (ph, c)"
    "served ops vo (up (enter_ctx h' c w)) ve rep" "inv_all pend (enter_ctx h' c w)" "\<not> isActive (comq (enter_ctx h' c w))"
    "seq_no (enter_ctx h' c w) = main_seq ph w" by (rule main_readyE [OF m])
  obtain t where t: "sync_request ops sc cm its ret (enter_ctx h' c w) = Some (Inr (Some VEO_COMMAND_OK, out), t)"
    "wenv w' = env t" "whst w' = hst t" "procs w' = procs w" using on_main_spaces [OF r x(2,3)] by auto
  have "seq_no (enter_ctx h' c w) \<noteq> VEO_REQUEST_ID_INVALID"
    "ve_handle vo cm its (ve (env (enter_ctx h' c w))) = Some (rc, Some a, v)" using ids x(7) h by simp_all
  from sync_request_done [OF x(1,4-6) this(1) cm this(2) a t(1)] t(2-4) show ?thesis by simp
qed

lemma ve_memcpy_done:
  assumes m: "main_ready ops pend vo ve rep ph w" and ids: "main_seq ph w \<noteq> VEO_REQUEST_ID_INVALID"
    and r: "veMemcpy ops sc ph dst src sz w = Some (Inr 0, w')"
  shows "spaces ve w' = (mem_write (fst (spaces ve w)) dst (mem_read (fst (spaces ve w)) src (unat sz)), snd (spaces ve w))"
proof -
  obtain v where o: "on_main ph (sync_request ops sc URPC_CMD_MEMCPY [ItemL dst, ItemL src, ItemL sz] (Some 0)) w =
      Some (Inr (Some VEO_COMMAND_OK, v), w')"
    using r by (auto simp: veMemcpy_def bind_so_def split: option.splits sum.splits prod.splits if_splits)
  from main_request [OF m ids _ memcpy_handled _ o, of 0] show ?thesis by (simp add: spaces_def const_defs)
qed

text \<open>The process a tagged operand names.\<close>

definition names :: "'e api \<Rightarrow> u64 \<Rightarrow> u64 \<Rightarrow> bool" where
  "names w ph a \<longleftrightarrow> IS_VE a \<noteq> 0 \<longrightarrow> veo_get_proc_handle_from_hmem a (procs w) = Inr ph"

lemma hmem_addr_ve: "IS_VE a \<noteq> 0 \<Longrightarrow> veo_get_hmem_addr a = VIRT_ADDR_VE a"
  by (simp add: veo_get_hmem_addr_def veo_is_ve_addr_def VIRT_ADDR_VE_def)

text \<open>
  C5. \<^verbatim>\<open>veo_hmemcpy\<close> is a copy in one address space: for operands that are host addresses or
  addresses tagged for one process, success means that the memory the destination's flag
  selects is the old one with the bytes of the source, taken from the memory its own flag
  selects, written at the address without the tag; the other memory is unchanged.
\<close>

theorem hmemcpy_one_space:
  assumes "main_ready ops pend vo ve rep ph w" "names w ph dst" "names w ph src"
    and "unat (main_seq ph w) + unat sz < 2 ^ 64 - 1" "sz \<noteq> 0"
    and "veo_hmemcpy ops sc dst src sz w = Some (Inr 0, w')"
  shows "spaces ve w' = hmem_store dst (hmem_load (spaces ve w) src (unat sz)) (spaces ve w)"
proof -
  have b: "hmemcpy_body ops sc dst src sz w = Some (Inr 0, w')"
    using assms(6) by (auto simp: veo_hmemcpy_def split: option.splits prod.splits sum.splits exc.splits)
  have p: "getProcHandle (uint (GET_PROC_IDENT a)) (procs w) = Inr ph" if "IS_VE a \<noteq> 0" "names w ph a" for a
    using that by (simp add: names_def veo_get_proc_handle_from_hmem_def)
  have sq: "main_seq ph w \<noteq> VEO_REQUEST_ID_INVALID"
    using assms(4) by (auto simp: VEO_REQUEST_ID_INVALID_def unsigned_minus_1_eq_mask mask_eq_exp_minus_1)
  consider (out) "IS_VE dst \<noteq> 0" "IS_VE src = 0" | (inn) "IS_VE dst = 0" "IS_VE src \<noteq> 0"
    | (host) "IS_VE dst = 0" "IS_VE src = 0" | (dev) "IS_VE dst \<noteq> 0" "IS_VE src \<noteq> 0" by blast
  then show ?thesis
  proof cases
    case out
    then have "veo_write_mem ops sc ph (VIRT_ADDR_VE dst) src sz w = Some (Inr 0, w')"
      using b p [OF out(1) assms(2)] by (simp add: hmemcpy_body_def)
    from write_mem_done [OF assms(1,4,5) this] out show ?thesis by (simp add: hmem_store_def hmem_load_def)
  next
    case inn
    then have "veo_read_mem ops sc ph dst (VIRT_ADDR_VE src) sz w = Some (Inr 0, w')"
      using b p [OF inn(2) assms(3)] by (simp add: hmemcpy_body_def)
    from read_mem_done [OF assms(1,4,5) this] inn show ?thesis by (simp add: hmem_store_def hmem_load_def)
  next
    case host
    then show ?thesis using b by (auto simp: hmemcpy_body_def hmem_store_def hmem_load_def spaces_def memcpy_to_def)
  next
    case dev
    then have "veMemcpy ops sc ph (VIRT_ADDR_VE dst) (VIRT_ADDR_VE src) sz w = Some (Inr 0, w')"
      using b assms(2,3) by (simp add: hmemcpy_body_def names_def hmem_addr_ve)
    from ve_memcpy_done [OF assms(1) sq this] dev show ?thesis by (simp add: hmem_store_def hmem_load_def)
  qed
qed


section \<open>Allocation\<close>

text \<open>The hooks only write to their log.\<close>

lemma run_hook_keeps: "run_hook hk payload args w = Inr w' \<Longrightarrow> procs w' = procs w \<and> wenv w' = wenv w"
  by (cases "(hk, payload, args, w)" rule: run_hook.cases)
    (auto simp: alloc_hmem_hook_def free_hmem_hook_def alloc_hmem_async_hook_def free_hmem_async_hook_def
      bind_exc_def split: sum.splits)

lemma call_hooks_keeps: "call_hooks f args v w = Some (Inr x, w') \<Longrightarrow> x = v \<and> procs w' = procs w \<and> wenv w' = wenv w"
  by (auto simp: call_hooks_def dest: run_hook_keeps split: option.splits prod.splits sum.splits)

lemma alloc_handled:
  "ve_handle vo URPC_CMD_ALLOC [ItemL n] v =
     (case ve_malloc vo n (ve_env v) of (a, x) \<Rightarrow> Some (0, Some (URPC_CMD_RESULT, [ItemL a]), v\<lparr>ve_env := x\<rparr>))"
  by (simp add: ve_handle_def alloc_handler_def get_L_def reply_L_def const_defs split: prod.splits)

lemma allocBuff_done:
  fixes w :: "'e api"
  assumes m: "main_ready ops pend vo ve rep ph w" and ids: "main_seq ph w \<noteq> VEO_REQUEST_ID_INVALID"
    and r: "allocBuff ops sc ph sz w = Some (Inr a, w')" and a: "a \<noteq> 0"
  shows "procs w' = procs w \<and> (\<exists>x. ve_malloc vo sz (ve_env (ve (wenv w))) = (a, x) \<and> ve (wenv w') = (ve (wenv w))\<lparr>ve_env := x\<rparr>)"
proof -
  obtain v where o: "on_main ph (sync_request ops sc URPC_CMD_ALLOC [ItemL sz] (Some 0)) w = Some (Inr (Some VEO_COMMAND_OK, v), w')"
    and v: "v = Some a"
    using r a by (auto simp: allocBuff_def value_if_ok_def bind_so_def assigned_def
        split: option.splits sum.splits prod.splits if_splits)
  obtain b y where b: "ve_malloc vo sz (ve_env (ve (wenv w))) = (b, y)" by (metis surj_pair)
  then have h: "ve_handle vo URPC_CMD_ALLOC [ItemL sz] (ve (wenv w)) =
      Some (0, Some (URPC_CMD_RESULT, [ItemL b]), (ve (wenv w))\<lparr>ve_env := y\<rparr>)" by (simp add: alloc_handled)
  from main_request [OF m ids _ h _ o, of b] v b show ?thesis by (simp add: const_defs)
qed

text \<open>
  C12. The address \<^verbatim>\<open>veo_alloc_hmem\<close> returns for a live process is memory of that process: the VE's
  allocator returned a plain address for exactly the requested size, and the result leads back to
  the process through the table and to that plain address through \<^verbatim>\<open>veo_get_hmem_addr\<close>.
\<close>

theorem alloc_hmem_result:
  fixes w :: "'e api"
  assumes "main_ready ops pend vo ve rep ph w" "main_seq ph w \<noteq> VEO_REQUEST_ID_INVALID"
    and "tab_wf (procs w)" "ph \<in> tab_live (procs w)"
    and "\<forall>x. untagged (fst (ve_malloc vo sz x))"
    and "veo_alloc_hmem ops sc ph sz w = Some (Inr (0, Some a), w')"
  shows "\<exists>p x. ve_malloc vo sz (ve_env (ve (wenv w))) = (p, x) \<and> ve (wenv w') = (ve (wenv w))\<lparr>ve_env := x\<rparr> \<and> p \<noteq> 0 \<and>
    veo_get_proc_handle_from_hmem a (procs w') = Inr ph \<and> veo_get_hmem_addr a = p"
proof -
  have z: "ph \<noteq> 0" using live_Some [OF assms(4)] by blast
  obtain n where n: "numProcs (procs w) = Inr n" "n \<le> VEO_MAX_HMEM_PROCS"
    using assms(6) z by (auto simp: veo_alloc_hmem_def split: sum.splits if_splits)
  obtain p t i where am: "veo_alloc_mem ops sc ph sz w = Some (Inr (0, Some p), t)"
    and i: "getProcIdentifier ph (procs t) = Inr i" "\<not> i < 0"
    and ch: "call_hooks FAllocHmem [ph, SET_PROC_IDENT (SET_VE_FLAG p) i, sz]
      (0 :: int, Some (SET_PROC_IDENT (SET_VE_FLAG p) i)) t = Some (Inr (0, Some a), w')"
    using assms(6) z n unfolding veo_alloc_hmem_def
    by (auto simp: catch_veo_def bind_so_def Let_def split: option.splits sum.splits prod.splits exc.splits if_splits)
  obtain q t1 where q: "allocBuff ops sc ph sz w = Some (Inr q, t1)" "q \<noteq> 0"
    and ch1: "call_hooks FAllocMem [ph, q, sz] (0 :: int, Some q) t1 = Some (Inr (0, Some p), t)"
    using am unfolding veo_alloc_mem_def
    by (auto simp: catch_veo_def bind_so_def split: option.splits sum.splits prod.splits exc.splits if_splits)
  note k = call_hooks_keeps [OF ch] call_hooks_keeps [OF ch1] allocBuff_done [OF assms(1,2) q]
  have il: "0 \<le> i" "i < VEO_MAX_HMEM_PROCS" using ident_less [of ph "procs w" i n] i k n by auto
  have at: "a = veo_set_proc_identifier p i" using k il by (simp add: veo_set_proc_identifier_def)
  have u: "untagged p" using k assms(5) by (metis fst_conv Pair_inject option.inject)
  have "IS_VE a \<noteq> 0" using il by (simp add: at IS_VE_iff bit_set_proc_identifier)
  then have "veo_get_proc_handle_from_hmem a (procs w') = getProcHandle i (procs w)"
    using uint_GET_PROC_IDENT_set [OF u il] k by (simp add: veo_get_proc_handle_from_hmem_def at)
  moreover have "getProcHandle i (procs w) = Inr ph" using ptab.found [OF assms(3,4)] i(1) k by auto
  ultimately show ?thesis using k q(2) get_hmem_addr_set [OF u il] at by auto
qed

text \<open>
  The command line that starts the VE process always fits the buffer \<^verbatim>\<open>veo_proc_create_static\<close>
  allocates for it, with the terminating zero: \<^verbatim>\<open>snprintf\<close> never cuts the path of the binary, in any
  of the debugging modes.
\<close>

theorem veobin_command_fits: "length (veobin_command genv path) < veobin_size path"
  by (auto simp: veobin_command_def veobin_size_def CMD_VEGDB_def CMD_XTERM_def split: option.splits)


section \<open>An example\<close>

definition api_world :: "unit line api" where
  "api_world = world.extend (sym_world\<lparr>procs := Some [0x1000]\<rparr>)
     \<lparr>errno = 0, arg_objs = Map.empty, attr_objs = Map.empty, static_hooks = Map.empty, alloc_hook = 0,
      free_hook = 0, hook_log = []\<rparr>"

lemma api_main: "main_ready demo_line_ops line_pend demo_vo line_ve line_rep 0x1000 api_world" "main_seq 0x1000 api_world = 0"
proof -
  have h: "handles api_world 0x1000 = Some sym_handle" "contexts api_world (mctx sym_handle) = Some (0x1000, ctx.truncate call_ctx)"
    by (simp_all add: api_world_def sym_world_def sym_handle_def world.defs)
  have e: "enter_ctx sym_handle (ctx.truncate call_ctx) api_world = call_ctx"
    by (simp add: enter_ctx_def sym_handle_def api_world_def sym_world_def call_ctx_def line_ctx_def ctx.defs world.defs
        new_Context_def)
  have "\<not> isActive (comq (ctx.truncate call_ctx))" using call_start(2) by (simp add: ctx.defs)
  then show "main_ready demo_line_ops line_pend demo_vo line_ve line_rep 0x1000 api_world"
    unfolding main_ready_def
    using line_urpc_ok h line_served call_fresh call_start(1) by (metis e)
  show "main_seq 0x1000 api_world = 0" using h call_start(3) by (simp add: main_seq_def ctx.defs)
qed

lemma api_procs: "procs api_world = Some [0x1000]"
  by (simp add: api_world_def world.defs)

definition api_dst :: u64 where "api_dst = veo_set_proc_identifier 0x100 0"

theorem hmemcpy_one_space_witness:
  "\<exists>w'. veo_hmemcpy demo_line_ops all_locks api_dst 0x20 5 api_world = Some (Inr 0, w') \<and>
     spaces line_ve w' = hmem_store api_dst (hmem_load (spaces line_ve api_world) 0x20 5) (spaces line_ve api_world)"
proof -
  have "map_option fst (veo_hmemcpy demo_line_ops all_locks api_dst 0x20 5 api_world) = Some (Inr 0)" by code_simp
  then obtain w' where w': "veo_hmemcpy demo_line_ops all_locks api_dst 0x20 5 api_world = Some (Inr 0, w')" by auto
  have "veo_get_proc_handle_from_hmem api_dst (procs api_world) = Inr 0x1000" unfolding api_procs by code_simp
  then have n: "names api_world 0x1000 api_dst" by (simp add: names_def)
  have "IS_VE 0x20 = 0" by code_simp
  then have "names api_world 0x1000 0x20" by (simp add: names_def)
  from hmemcpy_one_space [OF api_main(1) n this _ _ w'] w' api_main(2) show ?thesis by simp
qed

theorem alloc_hmem_result_witness:
  "\<exists>a w'. veo_alloc_hmem demo_line_ops all_locks 0x1000 64 api_world = Some (Inr (0, Some a), w') \<and>
     veo_get_proc_handle_from_hmem a (procs w') = Inr 0x1000 \<and> veo_get_hmem_addr a = 0x7000"
proof -
  have "map_option fst (veo_alloc_hmem demo_line_ops all_locks 0x1000 64 api_world) = Some (Inr (0, Some (veo_set_proc_identifier 0x7000 0)))"
    by code_simp
  then obtain a w' where w': "veo_alloc_hmem demo_line_ops all_locks 0x1000 64 api_world = Some (Inr (0, Some a), w')" by auto
  have m: "ve_malloc demo_vo 64 x = (0x7000, x)" for x by (simp add: demo_vo_def)
  have "untagged 0x7000" by (simp add: untagged_def VEIDENT_MBITS_def VEADDR_MBITS_def PIDENT_MBITS_def)
  then have u: "\<forall>x. untagged (fst (ve_malloc demo_vo 64 x))" by (simp add: m)
  have "tab_wf (procs api_world)" "0x1000 \<in> tab_live (procs api_world)"
    by (simp_all add: api_procs tab_wf_def tab_live_def tab_slots_def)
  from alloc_hmem_result [OF api_main(1) _ this u w'] w' m zero_valid api_main(2) show ?thesis by auto
qed

end
