(* ===== verification/Ve_Main.thy ===== *)
theory Ve_Main
  imports Ve_Side
begin

text \<open>
  The program of the VE process, \<^verbatim>\<open>aveorun.c\<close>: \<^verbatim>\<open>main\<close> puts its own handler in front of the
  handlers of five signals, attaches to the peer and serves requests; \<^verbatim>\<open>sigactionHandler\<close> runs when
  one of the signals arrives. The signal functions of the operating system are a record of
  functions over an abstract state. Handlers are addresses; \<^verbatim>\<open>sa_handler\<close> and \<^verbatim>\<open>sa_sigaction\<close>
  are one field, as they share a union. What the signal handler does is the list of its actions
  in order; the lines of the stack trace it prints are one action. A handler the program had
  before is taken to return.
\<close>

section \<open>Signals\<close>

definition SIG_DFL :: u64 where [const_defs]: "SIG_DFL = 0"
definition SIG_IGN :: u64 where [const_defs]: "SIG_IGN = 1"
definition SIG_ERR :: u64 where [const_defs]: "SIG_ERR = - 1"

definition SA_SIGINFO :: u32 where "SA_SIGINFO = 4"
definition SA_RESTART :: u32 where "SA_RESTART = 0x10000000"

record sigaction_t =
  sa_handler :: u64
  sa_flags :: u32
  sa_mask :: "int set"
  sa_restorer :: u64

record signal_entry =
  signum :: int
  handler :: u64
  sigaction :: bool

definition SIGILL :: int where "SIGILL = 4"
definition SIGABRT :: int where "SIGABRT = 6"
definition SIGBUS :: int where "SIGBUS = 7"
definition SIGFPE :: int where "SIGFPE = 8"
definition SIGSEGV :: int where "SIGSEGV = 11"

lemmas signal_numbers = SIGILL_def SIGABRT_def SIGBUS_def SIGFPE_def SIGSEGV_def

definition signal_tbl :: "signal_entry list" where
  "signal_tbl = map (\<lambda>n. \<lparr>signum = n, handler = SIG_DFL, sigaction = False\<rparr>)
     [SIGABRT, SIGFPE, SIGILL, SIGSEGV, SIGBUS, 0]"

text \<open>
  \<^verbatim>\<open>sigaction\<close> with a null second and with a null third argument, the functions on signal sets,
  and the address of \<^verbatim>\<open>sigactionHandler\<close>.
\<close>

record 'x sig_ops =
  sigaction_get :: "int \<Rightarrow> 'x \<Rightarrow> int \<times> sigaction_t"
  sigaction_set :: "int \<Rightarrow> sigaction_t \<Rightarrow> 'x \<Rightarrow> int \<times> 'x"
  sigemptyset :: "int set \<Rightarrow> int \<times> int set"
  sigaddset :: "int set \<Rightarrow> int \<Rightarrow> int \<times> int set"
  handler_addr :: u64

section \<open>The handler\<close>

datatype sig_event =
    CallSigaction u64 int | CallHandler u64 int | PrintTrace
  | Send nat "item list" | SetExceptionFlag | UrpcFini | ExitProcess int

text \<open>The loop over the table: the entry of the signal, up to the terminating one.\<close>

fun find_entry :: "signal_entry list \<Rightarrow> int \<Rightarrow> signal_entry option" where
  "find_entry [] n = None"
| "find_entry (e # es) n =
     (if signum e = 0 then None else if n = signum e then Some e else find_entry es n)"

definition sigactionHandler :: "signal_entry list \<Rightarrow> int \<Rightarrow> sig_event list" where
  "sigactionHandler tbl n =
     (let (h, sa) = (case find_entry tbl n of
            None \<Rightarrow> (SIG_DFL, False)
          | Some e \<Rightarrow> if handler e \<noteq> SIG_DFL then (handler e, sigaction e) else (SIG_DFL, False))
      in (if h \<noteq> SIG_DFL then (if sa then [CallSigaction h n] else [CallHandler h n]) else [PrintTrace]) @
         [Send URPC_CMD_EXCEPTION [ItemL (of_int n)], SetExceptionFlag, UrpcFini, ExitProcess n])"

section \<open>The main program\<close>

text \<open>One turn of the loop over the table: whether \<^verbatim>\<open>main\<close> goes on, the entry, the state.\<close>

definition install_signal :: "'x sig_ops \<Rightarrow> signal_entry \<Rightarrow> 'x \<Rightarrow> bool \<times> signal_entry \<times> 'x" where
  "install_signal so e x =
     (let (err, act) = sigaction_get so (signum e) x
      in if err \<noteq> 0 then (False, e, x)
         else let (ok, act1, e1) =
                (if sa_handler act = SIG_DFL \<or> sa_handler act = SIG_IGN \<or> sa_handler act = SIG_ERR
                 then let (err1, m1) = sigemptyset so (sa_mask act)
                      in if err1 \<noteq> 0 then (False, act\<lparr>sa_mask := m1\<rparr>, e)
                         else let (err2, m2) = sigaddset so m1 (signum e)
                              in if err2 \<noteq> 0 then (False, act\<lparr>sa_mask := m2\<rparr>, e)
                                 else (True, act\<lparr>sa_mask := m2, sa_flags := SA_SIGINFO OR SA_RESTART, sa_restorer := 0\<rparr>, e)
                 else (True, act, e\<lparr>handler := sa_handler act\<rparr>))
              in if \<not> ok then (False, e1, x)
                 else let act2 = act1\<lparr>sa_handler := handler_addr so\<rparr>;
                          e2 = (if sa_flags act2 AND SA_SIGINFO \<noteq> 0 then e1\<lparr>sigaction := True\<rparr> else e1);
                          (err3, x3) = sigaction_set so (signum e2) act2 x
                      in (err3 = 0, e2, x3))"

fun install_signals :: "'x sig_ops \<Rightarrow> signal_entry list \<Rightarrow> 'x \<Rightarrow> bool \<times> signal_entry list \<times> 'x" where
  "install_signals so [] x = (True, [], x)"
| "install_signals so (e # es) x =
     (if signum e = 0 then (True, e # es, x)
      else let (ok, e', x') = install_signal so e x
           in if \<not> ok then (False, e' # es, x')
              else let (ok', es', x'') = install_signals so es x' in (ok', e' # es', x''))"

text \<open>
  \<^verbatim>\<open>main\<close> on the requests \<open>rs\<close> its peer receives: the exit code, the replies, the table and both
  states. The results of the two \<^verbatim>\<open>dlopen\<close> calls are not used.
\<close>

definition aveorun_main ::
  "'x sig_ops \<Rightarrow> 'v ve_ops \<Rightarrow> (string \<Rightarrow> string option) \<Rightarrow> (nat \<times> item list) list \<Rightarrow> 'x \<Rightarrow> 'v ve_proc
    \<Rightarrow> int \<times> reply option list \<times> signal_entry list \<times> 'x \<times> 'v ve_proc" where
  "aveorun_main so vo genv rs x v =
     (let (ok, tbl, x1) = install_signals so signal_tbl x
      in if \<not> ok then (1, [], tbl, x1, v)
         else let (_, y1) = ve_dlopen vo (map of_char ''libnc++.so.2'') (ve_env v);
                  (_, y2) = ve_dlopen vo (map of_char ''libc++.so.1-2'') y1;
                  (main_up, y3) = ve_urpc_init vo 0 y2;
                  v1 = v\<lparr>ve_env := y3\<rparr>
              in if main_up = 0 then (1, [], tbl, x1, v1)
                 else let core = (case genv ''URPC_VE_CORE'' of Some e \<Rightarrow> atoi e | None \<Rightarrow> - 1);
                          (reps, v2) = ve_handler_loop vo core rs v1
                      in (0, reps, tbl, x1, v2))"

section \<open>What installation does\<close>

text \<open>The documented behaviour of the signal functions, for a signal that exists.\<close>

definition sig_ok :: "'x sig_ops \<Rightarrow> bool" where
  "sig_ok so \<longleftrightarrow>
     (\<forall>n a x r x'. sigaction_set so n a x = (r, x') \<longrightarrow> r = 0 \<longrightarrow>
        sigaction_get so n x' = (0, a) \<and> (\<forall>k. k \<noteq> n \<longrightarrow> sigaction_get so k x' = sigaction_get so k x)) \<and>
     (\<forall>M. sigemptyset so M = (0, {})) \<and> (\<forall>M n. sigaddset so M n = (0, insert n M))"

definition no_handler :: "sigaction_t \<Rightarrow> bool" where
  "no_handler act \<longleftrightarrow> sa_handler act \<in> {SIG_DFL, SIG_IGN, SIG_ERR}"

definition wrap :: "u64 \<Rightarrow> int \<Rightarrow> sigaction_t \<Rightarrow> sigaction_t" where
  "wrap h n old =
     (if no_handler old then \<lparr>sa_handler = h, sa_flags = SA_SIGINFO OR SA_RESTART, sa_mask = {n}, sa_restorer = 0\<rparr>
      else old\<lparr>sa_handler := h\<rparr>)"

definition saved :: "sigaction_t \<Rightarrow> signal_entry \<Rightarrow> signal_entry" where
  "saved old e =
     \<lparr>signum = signum e, handler = (if no_handler old then handler e else sa_handler old),
      sigaction = (no_handler old \<or> sa_flags old AND SA_SIGINFO \<noteq> 0 \<or> sigaction e)\<rparr>"

lemma flags_siginfo: "(SA_SIGINFO OR SA_RESTART) AND SA_SIGINFO \<noteq> 0"
  by (simp add: SA_SIGINFO_def SA_RESTART_def)

lemma sig_ok_set:
  assumes "sig_ok so" "sigaction_set so n a x = (r, x')" "r = 0"
  shows "sigaction_get so n x' = (0, a)" "k \<noteq> n \<Longrightarrow> sigaction_get so k x' = sigaction_get so k x"
  using assms(1) [unfolded sig_ok_def, THEN conjunct1, rule_format, OF assms(2,3)] by simp_all

lemma install_signal_eq:
  assumes "sig_ok so" "sigaction_get so (signum e) x = (0, old)"
  shows "install_signal so e x =
    (let (r, x') = sigaction_set so (signum e) (wrap (handler_addr so) (signum e) old) x in (r = 0, saved old e, x'))"
  using assms flags_siginfo
  by (cases old) (auto simp: install_signal_def sig_ok_def wrap_def saved_def no_handler_def Let_def split: prod.splits)

lemma install_signal_ok:
  assumes so: "sig_ok so" and i: "install_signal so e x = (True, e', x')"
  shows "\<exists>old. sigaction_get so (signum e) x = (0, old) \<and> e' = saved old e \<and>
    sigaction_get so (signum e) x' = (0, wrap (handler_addr so) (signum e) old) \<and>
    (\<forall>k. k \<noteq> signum e \<longrightarrow> sigaction_get so k x' = sigaction_get so k x)"
proof -
  obtain old where g: "sigaction_get so (signum e) x = (0, old)"
    using i by (cases "sigaction_get so (signum e) x") (auto simp: install_signal_def split: if_splits)
  obtain r y where s: "sigaction_set so (signum e) (wrap (handler_addr so) (signum e) old) x = (r, y)" by (metis surj_pair)
  have "r = 0" "e' = saved old e" "y = x'" using i s by (simp_all add: install_signal_eq [OF so g])
  then show ?thesis using g sig_ok_set [OF so s] by simp
qed

definition active :: "signal_entry list \<Rightarrow> signal_entry list" where
  "active = takeWhile (\<lambda>e. signum e \<noteq> 0)"

lemma install_signals_ok:
  assumes so: "sig_ok so" and "distinct (map signum (active es))" "install_signals so es x = (True, es', x')"
  shows "(\<forall>k. k \<notin> signum ` set (active es) \<longrightarrow> sigaction_get so k x' = sigaction_get so k x) \<and>
    (\<forall>e \<in> set (active es). \<exists>old. sigaction_get so (signum e) x = (0, old) \<and>
       sigaction_get so (signum e) x' = (0, wrap (handler_addr so) (signum e) old) \<and>
       find_entry es' (signum e) = Some (saved old e))"
  using assms(2-)
proof (induction es arbitrary: x es')
  case (Cons e es)
  show ?case
  proof (cases "signum e = 0")
    case False
    then obtain e1 x1 fs where i: "install_signal so e x = (True, e1, x1)" "install_signals so es x1 = (True, fs, x')"
      "es' = e1 # fs" using Cons.prems(2) by (auto split: prod.splits if_splits)
    obtain old where o: "sigaction_get so (signum e) x = (0, old)" "e1 = saved old e"
      "sigaction_get so (signum e) x1 = (0, wrap (handler_addr so) (signum e) old)"
      "\<forall>k. k \<noteq> signum e \<longrightarrow> sigaction_get so k x1 = sigaction_get so k x" using install_signal_ok [OF so i(1)] by blast
    have d: "distinct (map signum (active es))" "signum e \<notin> signum ` set (active es)"
      using Cons.prems(1) False by (simp_all add: active_def)
    note IH = Cons.IH [OF d(1) i(2)]
    have sn: "signum e1 = signum e" by (simp add: o(2) saved_def)
    have a: "set (active (e # es)) = insert e (set (active es))" using False by (simp add: active_def)
    have "find_entry es' (signum e) = Some (saved old e)" using False i(3) sn o(2) by simp
    moreover have "\<exists>old. sigaction_get so (signum f) x = (0, old) \<and>
        sigaction_get so (signum f) x' = (0, wrap (handler_addr so) (signum f) old) \<and>
        find_entry es' (signum f) = Some (saved old f)" if "f \<in> set (active es)" for f
    proof -
      have ne: "signum f \<noteq> signum e" using d(2) that by (metis imageI)
      have "sigaction_get so (signum f) x1 = sigaction_get so (signum f) x"
        "find_entry es' (signum f) = find_entry fs (signum f)" using o(4) ne False i(3) sn by simp_all
      then show ?thesis using bspec [OF conjunct2 [OF IH] that] by simp
    qed
    moreover have "sigaction_get so (signum e) x' = (0, wrap (handler_addr so) (signum e) old)"
      using conjunct1 [OF IH] d(2) o(3) by simp
    ultimately have "\<forall>f \<in> insert e (set (active es)). \<exists>old. sigaction_get so (signum f) x = (0, old) \<and>
        sigaction_get so (signum f) x' = (0, wrap (handler_addr so) (signum f) old) \<and>
        find_entry es' (signum f) = Some (saved old f)" using o(1) by blast
    moreover have "\<forall>k. k \<notin> signum ` insert e (set (active es)) \<longrightarrow> sigaction_get so k x' = sigaction_get so k x"
      using conjunct1 [OF IH] o(4) by simp
    ultimately show ?thesis unfolding a by blast
  qed (use Cons.prems(2) in \<open>auto simp: active_def\<close>)
qed (simp add: active_def)

section \<open>Properties\<close>


text \<open>An operating system that keeps the dispositions in a table.\<close>

definition demo_sig_ops :: "(int \<Rightarrow> sigaction_t) sig_ops" where
  "demo_sig_ops = \<lparr>sigaction_get = \<lambda>n x. (0, x n), sigaction_set = \<lambda>n a x. (0, x(n := a)),
     sigemptyset = \<lambda>M. (0, {}), sigaddset = \<lambda>M n. (0, insert n M), handler_addr = 0x4000\<rparr>"

definition demo_signals :: "int \<Rightarrow> sigaction_t" where
  "demo_signals n = \<lparr>sa_handler = (if n = 8 then 0x9000 else SIG_DFL), sa_flags = 0, sa_mask = {}, sa_restorer = 0\<rparr>"


end
