(* ===== verification/Spec2Isabelle.thy ===== *)
theory Spec2Isabelle
  imports Veo_Ve2ve Api_Props Ve_Main
begin

text \<open>
  AVEO, the offloading library of the SX-Aurora Vector Engine (VE). A host program (VH) creates
  processes on VE cards, opens thread contexts in them, moves memory, and calls VE functions
  synchronously or asynchronously. File names below are those of \<^verbatim>\<open>src/src\<close>.

  \<^bold>\<open>The parts and how they work together.\<close> The C interface (\<^verbatim>\<open>veo_api.cpp\<close>) checks its arguments,
  finds the process handle or context an opaque pointer stands for, and turns exceptions into
  return codes. A process handle (\<^verbatim>\<open>ProcHandle.cpp\<close>) owns a main context, the further contexts, and
  tables of libraries and symbols; all live handles are in one table, whose indices tag
  heterogeneous addresses (\<^verbatim>\<open>veo_hmem_macros.h\<close>). A context (\<^verbatim>\<open>Context.cpp\<close>, \<^verbatim>\<open>AsyncTransfer.cpp\<close>)
  gives every request an identifier and puts a command with two lambdas, one that sends and one
  that unpacks the reply, into its queues (\<^verbatim>\<open>Command.cpp\<close>). Its progress engine moves commands from
  the request queue to the in-flight queue and, when the reply is there, to the completion queue.
  Arguments of calls become register values and a stack frame (\<^verbatim>\<open>CallArgs.cpp\<close>). Messages go
  through the ve-urpc transport (\<^verbatim>\<open>veo_urpc_vh.cpp\<close>) to the VE program (\<^verbatim>\<open>aveorun.c\<close>), whose handlers
  (\<^verbatim>\<open>veo_urpc_ve.c\<close>) load libraries, allocate and copy memory, and call functions.

  \<^bold>\<open>The theories that model code.\<close>

  \<^item> \<^verbatim>\<open>Aveo_Prelude\<close>: machine types, exceptions and constants of \<^verbatim>\<open>ve_offload.h\<close> and
    \<^verbatim>\<open>VEOException.hpp\<close>, byte memory, little-endian words, the C library's number scanning; the
    interfaces \<open>byte_codec\<close> and \<open>step_invariant\<close>.
  \<^item> \<^verbatim>\<open>Hmem\<close>: tagged addresses. \<^verbatim>\<open>Call_Args\<close>: arguments, register values, the stack image and the
    copy-out function, one definition per method of \<^verbatim>\<open>CallArgs\<close> and its argument classes.
  \<^item> \<^verbatim>\<open>Command_Queue\<close>: commands and queues; the interface \<open>command_store\<close>, which the completion queue
    and the in-flight queue implement.
  \<^item> \<^verbatim>\<open>Urpc_Vh\<close>: message numbers, sending of calls, unpacking of results. \<^verbatim>\<open>Veo_Context\<close>: the state of
    a context, the lambdas of its commands (datatype \<open>cmd_kind\<close>, one constructor for each pair) and
    \<^verbatim>\<open>_progress_nolock\<close>. \<^verbatim>\<open>Context_Ops\<close>: submission, transfers in fragments, calls, waiting, closing.
  \<^item> \<^verbatim>\<open>Proc_Registry\<close>: the table of processes with the interface \<open>proc_slots\<close>. \<^verbatim>\<open>Proc_Handle\<close>: process
    handles in a store of objects by address. \<^verbatim>\<open>Ve_Node\<close>: choice of the VE node and its architecture
    number. \<^verbatim>\<open>Veo_Api\<close>: the C interface. \<^verbatim>\<open>Veo_Ve2ve\<close>: \<^verbatim>\<open>veo_vedma.cpp\<close>, \<^verbatim>\<open>veo_veshm.cpp\<close>,
    \<^verbatim>\<open>veo_vhveshm.cpp\<close> and the wrapper of system calls.
  \<^item> \<^verbatim>\<open>Ve_Side\<close>: the handlers of the VE and the loop of a VE thread. \<^verbatim>\<open>Ve_Main\<close>: \<^verbatim>\<open>main\<close> and the signal
    handler of the VE program.

  A C++ exception is the left value of a sum (type \<open>exc\<close>, which has constructors for undefined
  behaviour such as a null pointer or a subscript out of range); state is passed explicitly;
  64-bit quantities are \<^typ>\<open>64 word\<close>, and the places where the code narrows to \<^verbatim>\<open>int\<close> are written
  out with \<open>to_int32\<close>.
\<close>

text \<open>
  \<^bold>\<open>What is shown.\<close>

  \<^item> From end to end (\<^verbatim>\<open>Mem_Transfer\<close>, \<^verbatim>\<open>Transfer_Run\<close>, \<^verbatim>\<open>Solo_Request\<close>, \<^verbatim>\<open>Ve_Line\<close>,
    \<^verbatim>\<open>Transfer_Props\<close>, \<^verbatim>\<open>Remote_Call\<close>, \<^verbatim>\<open>Call_Props\<close>, \<^verbatim>\<open>Api_Props\<close>): a transfer, cut into fragments,
    queued, sent, handled by the VE, answered and collected, is one copy of the range; a call runs
    the VE function on the registers and the frame of the arguments and brings its result and the
    output buffers back; a synchronous request returns the handler's answer; a copy between tagged
    and plain addresses is a copy in one address space; a frame moved in two parts is the frame
    moved at once; the loops end, and a fragment size of 0 makes them run for ever.
  \<^item> The engine (\<^verbatim>\<open>Context_Inv\<close>, \<^verbatim>\<open>Context_Run\<close>, \<^verbatim>\<open>Context_Progress\<close>, \<^verbatim>\<open>Context_Wait\<close>): invariants of
    every state reached by any interleaving of submission, progress and collection
    (\<open>ctx_step\<close>, with the operations of \<^verbatim>\<open>Context_Ops\<close> shown to be sequences of its steps):
    accounting of identifiers, well-typed commands, replies that find their command; order of
    submission; VH commands as barriers; waiting returns; what a late reply does after
    \<^verbatim>\<open>cancelAll\<close>.
  \<^item> Frames (\<^verbatim>\<open>Call_Frame\<close>): \<^verbatim>\<open>setup\<close> builds the reference layout, aborts exactly when the frame is too
    large, and copy-out returns each buffer.
  \<^item> Processes (\<^verbatim>\<open>Proc_Objects\<close>, with the step relation \<open>world_step\<close>): no pointer of the library
    dangles, exit, opening of contexts, the cache of symbols. Tables and addresses
    (\<^verbatim>\<open>Proc_Registry\<close>, \<^verbatim>\<open>Hmem\<close>): tagged addresses lead back to their process.
  \<^item> The VE program, nodes and system calls: the signal handlers are chained, the path of the
    architecture file fits its buffer, error numbers of system calls arrive, except one.

  \<^bold>\<open>Parameters and hypotheses.\<close> The ve-urpc transport, the allocator, the environment variables, the
  dynamic linker, threads, signals and the functions called on the VE are not under \<^verbatim>\<open>src\<close>: they are
  the fields of \<open>urpc_ops\<close>, \<open>ve_ops\<close> and \<open>sig_ops\<close>. The theorems name what they need of them:
  \<open>urpc_ok\<close> (a request number is free when it is issued, below 2147483648, and answered only while it
  is pending), \<open>responsive\<close> (while a request is pending only a bounded number of polls find no
  reply; with nothing pending there is a slot and sending does not ask to try again), \<open>served\<close> (a
  message is given to the VE handler and its answer is the reply) and \<open>sig_ok\<close>. The witnesses
  discharge them for concrete transports, \<open>line_ops\<close> of \<^verbatim>\<open>Ve_Line\<close> among them, which joins a context
  with the VE handlers.

  \<^bold>\<open>Loops and bounds.\<close> There is no fuel. A loop whose end depends on the environment is a
  \<open>partial_function (option)\<close>, so that not returning is \<^term>\<open>None\<close>, and that it returns is a theorem
  of its own. The theorems on transfers bound the number of identifiers still to be issued (the
  64-bit counter must not reach the invalid identifier within the operation). The size of a frame
  is bounded where the code computes it with \<^verbatim>\<open>int\<close>.

  \<^bold>\<open>Not modelled.\<close> Logging and timing (\<^verbatim>\<open>log.cpp\<close>, \<^verbatim>\<open>veo_time.h\<close>) have no effect on the state the
  other parts use. Mutexes and condition variables: a critical section is one step, a \<^verbatim>\<open>try_lock\<close>
  that may fail is a Boolean argument, and the progress thread runs where the application thread
  sleeps; \<^verbatim>\<open>veo_req_block_begin\<close> and \<^verbatim>\<open>veo_req_block_end\<close>, which only lock, are left out with them.
  Version numbers, registration of the handlers in constructors, and headers that only declare
  functions have no behaviour of their own. What DMA and shared memory do on the VE is in libraries
  that are not part of the sources. For calls whose frame needs two parts the requests are modelled
  and the split is shown correct, but their whole run is not composed into one theorem. Tests and
  examples are not modelled.
\<close>

end
